(* ===== verification/Prelude.thy ===== *)
theory Prelude
  imports Main "HOL-Library.Word" "HOL-Library.AList"
begin

text \<open>
  What every theory of the development shares: the names of the machine types, the
  state-and-error programs in which the asynchronous Rust functions are written
  (\<open>bindE\<close> is the \<open>?\<close> operator, \<open>for_each\<close> a loop whose body may return early,
  \<open>ignore_err\<close> the Rust idiom \<open>let _ = ...\<close>), triples over such programs with the rules that
  decompose them, and the interface of a hash table.
\<close>

section \<open>Machine types\<close>

type_synonym u8 = "8 word"
type_synonym u16 = "16 word"
type_synonym u32 = "32 word"
type_synonym i16 = "16 word"
type_synonym i32 = "32 word"
type_synonym bytes = "8 word list"

named_theorems prog_simps \<open>definitions of the program combinators\<close>
named_theorems triple_rules \<open>rules that decompose a triple\<close>

section \<open>Programs with state and early return\<close>

text \<open>
  A program takes the state and returns a result together with the new state: an early return
  with an error (\<open>Inl\<close>) keeps the changes made before it, as the Rust code does.
\<close>

type_synonym ('s, 'e, 'a) prog = "'s \<Rightarrow> ('e + 'a) \<times> 's"

definition ret :: "'a \<Rightarrow> ('s, 'e, 'a) prog" where
  "ret x = (\<lambda>s. (Inr x, s))"

definition throw :: "'e \<Rightarrow> ('s, 'e, 'a) prog" where
  "throw e = (\<lambda>s. (Inl e, s))"

definition bindE :: "('s, 'e, 'a) prog \<Rightarrow> ('a \<Rightarrow> ('s, 'e, 'b) prog) \<Rightarrow> ('s, 'e, 'b) prog" where
  "bindE m f = (\<lambda>s. case m s of (Inl e, t) \<Rightarrow> (Inl e, t) | (Inr x, t) \<Rightarrow> f x t)"

definition thenE :: "('s, 'e, 'a) prog \<Rightarrow> ('s, 'e, 'b) prog \<Rightarrow> ('s, 'e, 'b) prog" where
  "thenE m n = bindE m (\<lambda>_. n)"

definition gets :: "('s \<Rightarrow> 'a) \<Rightarrow> ('s, 'e, 'a) prog" where
  "gets f = (\<lambda>s. (Inr (f s), s))"

definition modify :: "('s \<Rightarrow> 's) \<Rightarrow> ('s, 'e, unit) prog" where
  "modify f = (\<lambda>s. (Inr (), f s))"

definition of_result :: "'e + 'a \<Rightarrow> ('s, 'e, 'a) prog" where
  "of_result r = (\<lambda>s. (r, s))"

definition only_if :: "bool \<Rightarrow> ('s, 'e, unit) prog \<Rightarrow> ('s, 'e, unit) prog" where
  "only_if b m = (if b then m else ret ())"

definition ignore_err :: "('s, 'e, 'a) prog \<Rightarrow> ('s, 'e, unit) prog" where
  "ignore_err m = (\<lambda>s. (Inr (), snd (m s)))"

fun for_each :: "('b \<Rightarrow> ('s, 'e, unit) prog) \<Rightarrow> 'b list \<Rightarrow> ('s, 'e, unit) prog" where
  "for_each f [] = ret ()"
| "for_each f (x # xs) = thenE (f x) (for_each f xs)"

declare ret_def [prog_simps] throw_def [prog_simps] bindE_def [prog_simps] thenE_def [prog_simps]
  gets_def [prog_simps] modify_def [prog_simps] of_result_def [prog_simps] only_if_def [prog_simps]
  ignore_err_def [prog_simps]

section \<open>Triples\<close>

text \<open>
  \<open>triple P m Q R\<close>: started in a state with \<open>P\<close>, the program \<open>m\<close> either returns a value and a
  state with \<open>Q\<close>, or returns early with an error and a state with \<open>R\<close>. Programs are total, so
  there is no third case.
\<close>

definition triple :: "('s \<Rightarrow> bool) \<Rightarrow> ('s, 'e, 'a) prog \<Rightarrow> ('a \<Rightarrow> 's \<Rightarrow> bool) \<Rightarrow> ('e \<Rightarrow> 's \<Rightarrow> bool) \<Rightarrow> bool" where
  "triple P m Q R \<longleftrightarrow>
     (\<forall>s. P s \<longrightarrow> (case m s of (Inl e, t) \<Rightarrow> R e t | (Inr x, t) \<Rightarrow> Q x t))"

definition keeps :: "('s \<Rightarrow> bool) \<Rightarrow> ('s, 'e, 'a) prog \<Rightarrow> bool" where
  "keeps I m \<longleftrightarrow> (\<forall>s. I s \<longrightarrow> I (snd (m s)))"

lemma triple_Inr: "triple P m Q R \<Longrightarrow> P s \<Longrightarrow> m s = (Inr x, t) \<Longrightarrow> Q x t"
  by (auto simp: triple_def split: prod.splits sum.splits)

lemma triple_Inl: "triple P m Q R \<Longrightarrow> P s \<Longrightarrow> m s = (Inl e, t) \<Longrightarrow> R e t"
  by (fastforce simp: triple_def split: prod.splits sum.splits)

lemma tripleI:
  assumes "\<And>s x t. P s \<Longrightarrow> m s = (Inr x, t) \<Longrightarrow> Q x t"
    and "\<And>s e t. P s \<Longrightarrow> m s = (Inl e, t) \<Longrightarrow> R e t"
  shows "triple P m Q R"
  using assms by (auto simp: triple_def split: prod.splits sum.splits)

lemma triple_caseI:
  "(\<And>s. P s \<Longrightarrow> case m s of (Inl e, t) \<Rightarrow> R e t | (Inr x, t) \<Rightarrow> Q x t) \<Longrightarrow> triple P m Q R"
  by (simp add: triple_def)

lemma keeps_triple: "keeps I m \<longleftrightarrow> triple I m (\<lambda>_. I) (\<lambda>_. I)"
  by (auto simp: keeps_def triple_def split: prod.splits sum.splits) (metis snd_conv sum.exhaust surj_pair)+

lemma triple_ret [triple_rules]: "(\<And>s. P s \<Longrightarrow> Q x s) \<Longrightarrow> triple P (ret x) Q R"
  by (simp add: triple_def ret_def)

lemma triple_throw [triple_rules]: "(\<And>s. P s \<Longrightarrow> R e s) \<Longrightarrow> triple P (throw e) Q R"
  by (simp add: triple_def throw_def)

lemma triple_gets [triple_rules]: "(\<And>s. P s \<Longrightarrow> Q (f s) s) \<Longrightarrow> triple P (gets f) Q R"
  by (simp add: triple_def gets_def)

lemma triple_modify [triple_rules]: "(\<And>s. P s \<Longrightarrow> Q () (f s)) \<Longrightarrow> triple P (modify f) Q R"
  by (simp add: triple_def modify_def)

lemma triple_of_result [triple_rules]:
  "(\<And>s x. P s \<Longrightarrow> r = Inr x \<Longrightarrow> Q x s) \<Longrightarrow> (\<And>s e. P s \<Longrightarrow> r = Inl e \<Longrightarrow> R e s) \<Longrightarrow>
   triple P (of_result r) Q R"
  by (cases r) (auto simp: triple_def of_result_def)

lemma triple_bindE:
  assumes "triple P m M R" and "\<And>x. triple (M x) (f x) Q R"
  shows "triple P (bindE m f) Q R"
  unfolding triple_def
proof (intro allI impI)
  fix s assume "P s"
  obtain r t where m: "m s = (r, t)" by fastforce
  show "case bindE m f s of (Inl e, t) \<Rightarrow> R e t | (Inr x, t) \<Rightarrow> Q x t"
  proof (cases r)
    case (Inl e)
    with m assms(1) \<open>P s\<close> show ?thesis by (auto simp: bindE_def dest: triple_Inl)
  next
    case (Inr x)
    with m assms(1) \<open>P s\<close> have "M x t" by (auto dest: triple_Inr)
    with assms(2) [of x] m Inr show ?thesis by (simp add: bindE_def triple_def)
  qed
qed

lemma triple_thenE:
  "triple P m (\<lambda>_. M) R \<Longrightarrow> triple M n Q R \<Longrightarrow> triple P (thenE m n) Q R"
  unfolding thenE_def by (rule triple_bindE)

lemma triple_bind_gets:
  "(\<And>x. triple (\<lambda>s. P s \<and> x = f s) (g x) Q R) \<Longrightarrow> triple P (bindE (gets f) g) Q R"
  by (rule triple_bindE [where M = "\<lambda>x s. P s \<and> x = f s"]) (auto intro: triple_gets)

lemma triple_weaken:
  assumes "triple P m Q R" and "\<And>s. P' s \<Longrightarrow> P s"
    and "\<And>x s. Q x s \<Longrightarrow> Q' x s" and "\<And>e s. R e s \<Longrightarrow> R' e s"
  shows "triple P' m Q' R'"
proof (rule tripleI)
  fix s x t
  assume "P' s" and "m s = (Inr x, t)"
  with triple_Inr [OF assms(1) assms(2)] show "Q' x t" by (blast intro: assms(3))
next
  fix s e t
  assume "P' s" and "m s = (Inl e, t)"
  with triple_Inl [OF assms(1) assms(2)] show "R' e t" by (blast intro: assms(4))
qed

lemma triple_conj:
  "triple P m Q R \<Longrightarrow> triple P' m Q' R' \<Longrightarrow>
   triple (\<lambda>s. P s \<and> P' s) m (\<lambda>x s. Q x s \<and> Q' x s) (\<lambda>e s. R e s \<and> R' e s)"
  by (auto simp: triple_def split: prod.splits sum.splits)

lemma triple_if [triple_rules]:
  "(b \<Longrightarrow> triple P m Q R) \<Longrightarrow> (\<not> b \<Longrightarrow> triple P n Q R) \<Longrightarrow> triple P (if b then m else n) Q R"
  by simp

lemma triple_pre: "(\<And>s. P s \<Longrightarrow> C) \<Longrightarrow> (C \<Longrightarrow> triple P m Q R) \<Longrightarrow> triple P m Q R"
  by (auto simp: triple_def)

lemma triple_for_each:
  assumes "\<And>x. x \<in> set xs \<Longrightarrow> triple P (f x) (\<lambda>_. P) R"
  shows "triple P (for_each f xs) (\<lambda>_. P) R"
  using assms
proof (induction xs)
  case Nil
  then show ?case by (auto intro: triple_ret)
next
  case (Cons x xs)
  then show ?case by (auto intro: triple_thenE)
qed

subsection \<open>Programs that keep a property on every path\<close>

named_theorems keeps_rules \<open>rules that decompose a keeps goal\<close>

lemma keeps_ret [keeps_rules]: "keeps I (ret x)"
  by (simp add: keeps_def ret_def)

lemma keeps_throw [keeps_rules]: "keeps I (throw e)"
  by (simp add: keeps_def throw_def)

lemma keeps_gets [keeps_rules]: "keeps I (gets f)"
  by (simp add: keeps_def gets_def)

lemma keeps_of_result [keeps_rules]: "keeps I (of_result r)"
  by (simp add: keeps_def of_result_def)

lemma keeps_modify: "(\<And>s. I s \<Longrightarrow> I (f s)) \<Longrightarrow> keeps I (modify f)"
  by (simp add: keeps_def modify_def)

lemma keeps_bindE [keeps_rules]: "keeps I m \<Longrightarrow> (\<And>x. keeps I (f x)) \<Longrightarrow> keeps I (bindE m f)"
  by (auto simp: keeps_triple intro: triple_bindE)

lemma keeps_thenE [keeps_rules]: "keeps I m \<Longrightarrow> keeps I n \<Longrightarrow> keeps I (thenE m n)"
  by (auto simp: keeps_triple intro: triple_thenE)

lemma keeps_if [keeps_rules]: "(b \<Longrightarrow> keeps I m) \<Longrightarrow> (\<not> b \<Longrightarrow> keeps I n) \<Longrightarrow> keeps I (if b then m else n)"
  by simp

lemma keeps_only_if [keeps_rules]: "(b \<Longrightarrow> keeps I m) \<Longrightarrow> keeps I (only_if b m)"
  by (simp add: only_if_def keeps_ret)

lemma keeps_ignore_err [keeps_rules]: "keeps I m \<Longrightarrow> keeps I (ignore_err m)"
  by (simp add: keeps_def ignore_err_def)

lemma keeps_for_each [keeps_rules]: "(\<And>x. x \<in> set xs \<Longrightarrow> keeps I (f x)) \<Longrightarrow> keeps I (for_each f xs)"
  by (simp add: keeps_triple triple_for_each)

lemma keeps_option [keeps_rules]:
  "(x = None \<Longrightarrow> keeps I m) \<Longrightarrow> (\<And>y. x = Some y \<Longrightarrow> keeps I (f y)) \<Longrightarrow>
   keeps I (case x of None \<Rightarrow> m | Some y \<Rightarrow> f y)"
  by (cases x) auto

section \<open>Hash tables\<close>

text \<open>
  The Rust code keeps its per-connection tables in a \<open>HashMap\<close>. The interface below is what the
  callers use of one; the tables of the model are association lists with one entry per key.
\<close>

locale hash_table =
  fixes tempty :: "'t"
    and tinsert :: "'k \<Rightarrow> 'v \<Rightarrow> 't \<Rightarrow> 't"
    and tremove :: "'k \<Rightarrow> 't \<Rightarrow> 't"
    and tget :: "'t \<Rightarrow> 'k \<Rightarrow> 'v option"
    and tkeys :: "'t \<Rightarrow> 'k list"
    and tinv :: "'t \<Rightarrow> bool"
  assumes inv_empty: "tinv tempty"
    and inv_insert: "tinv t \<Longrightarrow> tinv (tinsert k v t)"
    and inv_remove: "tinv t \<Longrightarrow> tinv (tremove k t)"
    and get_empty: "tget tempty k = None"
    and get_insert: "tget (tinsert k v t) j = (if j = k then Some v else tget t j)"
    and get_remove: "tinv t \<Longrightarrow> tget (tremove k t) j = (if j = k then None else tget t j)"
    and keys_get: "set (tkeys t) = {k. tget t k \<noteq> None}"
    and keys_distinct: "tinv t \<Longrightarrow> distinct (tkeys t)"
begin

lemma get_remove_same: "tinv t \<Longrightarrow> tget (tremove k t) k = None"
  by (simp add: get_remove)

lemma keys_insert: "set (tkeys (tinsert k v t)) = insert k (set (tkeys t))"
  by (auto simp: keys_get get_insert)

lemma keys_remove: "tinv t \<Longrightarrow> set (tkeys (tremove k t)) = set (tkeys t) - {k}"
  by (auto simp: keys_get get_remove)

lemma remove_all_empty:
  "tinv t \<Longrightarrow> set (tkeys t) \<subseteq> set ks \<Longrightarrow> tkeys (fold tremove ks t) = []"
proof (induction ks arbitrary: t)
  case Nil
  then show ?case by simp
next
  case (Cons k ks)
  then show ?case
    by (auto simp: keys_remove inv_remove intro!: Cons.IH)
qed

end

type_synonym 'v table = "(string \<times> 'v) list"

definition table_get :: "'v table \<Rightarrow> string \<Rightarrow> 'v option" where
  "table_get t k = map_of t k"

definition table_insert :: "string \<Rightarrow> 'v \<Rightarrow> 'v table \<Rightarrow> 'v table" where
  "table_insert k v t = AList.update k v t"

definition table_remove :: "string \<Rightarrow> 'v table \<Rightarrow> 'v table" where
  "table_remove k t = AList.delete k t"

definition table_keys :: "'v table \<Rightarrow> string list" where
  "table_keys t = map fst t"

definition table_ok :: "'v table \<Rightarrow> bool" where
  "table_ok t \<longleftrightarrow> distinct (table_keys t)"

interpretation ht: hash_table "[]" table_insert table_remove table_get table_keys table_ok
proof unfold_locales
  show "table_ok ([] :: 'v table)" by (simp add: table_ok_def table_keys_def)
next
  fix t :: "'v table" and k v
  assume "table_ok t"
  then show "table_ok (table_insert k v t)"
    by (simp add: table_ok_def table_keys_def table_insert_def distinct_update)
next
  fix t :: "'v table" and k
  assume "table_ok t"
  then show "table_ok (table_remove k t)"
    by (simp add: table_ok_def table_keys_def table_remove_def distinct_delete)
next
  fix k
  show "table_get ([] :: 'v table) k = None" by (simp add: table_get_def)
next
  fix t :: "'v table" and k v j
  show "table_get (table_insert k v t) j = (if j = k then Some v else table_get t j)"
    by (simp add: table_get_def table_insert_def update_conv)
next
  fix t :: "'v table" and k j
  assume "table_ok t"
  then show "table_get (table_remove k t) j = (if j = k then None else table_get t j)"
    by (simp add: table_get_def table_remove_def delete_conv)
next
  fix t :: "'v table"
  show "set (table_keys t) = {k. table_get t k \<noteq> None}"
    by (auto simp: table_keys_def table_get_def dom_map_of_conv_image_fst [symmetric] dom_def)
next
  fix t :: "'v table"
  assume "table_ok t"
  then show "distinct (table_keys t)" by (simp add: table_ok_def)
qed

lemma table_ok_Nil [simp]: "table_ok []"
  by (rule ht.inv_empty)

lemma table_get_Nil [simp]: "table_get [] k = None"
  by (rule ht.get_empty)

lemma table_keys_Nil [simp]: "table_keys [] = []"
  by (simp add: table_keys_def)

lemmas table_simps [simp] = ht.inv_insert ht.inv_remove ht.get_insert ht.get_remove

end
