(* ===== verification/Rust_Str.thy ===== *)
theory Rust_Str
  imports Prelude
begin

text \<open>
  The operations of Rust's standard library on \<open>str\<close> and \<open>u32\<close> that the code uses. A \<open>str\<close> is
  the list of the bytes of its UTF-8 text, as characters, so \<open>length\<close> is Rust's \<open>len\<close> and slices
  are by byte. Every separator the code splits at is ASCII, and no byte of a longer UTF-8
  sequence is ASCII, so splitting the bytes is splitting the characters.
\<close>

section \<open>Text and bytes\<close>

definition bytes_of_str :: "string \<Rightarrow> bytes" where
  "bytes_of_str s = map (\<lambda>c. of_nat (of_char c)) s"

definition str_of_bytes :: "bytes \<Rightarrow> string" where
  "str_of_bytes b = map (\<lambda>x. char_of (unat x)) b"

lemma bytes_of_str_of_bytes [simp]: "bytes_of_str (str_of_bytes b) = b"
proof -
  have "of_nat (of_char (char_of (unat x) :: char)) = x" for x :: u8
  proof -
    have "unat x < 256" using unsigned_less [of x, where ?'a = nat] by simp
    then show ?thesis by simp
  qed
  then show ?thesis by (simp add: bytes_of_str_def str_of_bytes_def map_idI)
qed

lemma str_of_bytes_of_str [simp]: "str_of_bytes (bytes_of_str s) = s"
proof -
  have "char_of (unat (of_nat (of_char c) :: u8)) = c" for c :: char
    by (simp add: unat_of_nat take_bit_nat_def)
  then show ?thesis by (simp add: bytes_of_str_def str_of_bytes_def map_idI)
qed

lemma bytes_of_str_append [simp]: "bytes_of_str (s @ t) = bytes_of_str s @ bytes_of_str t"
  by (simp add: bytes_of_str_def)

lemma bytes_of_str_inj: "bytes_of_str s = bytes_of_str t \<longleftrightarrow> s = t"
  by (metis str_of_bytes_of_str)

text \<open>\<open>std::str::from_utf8\<close>: the well-formed sequences of RFC 3629.\<close>

definition utf8_cont :: "u8 \<Rightarrow> bool" where
  "utf8_cont b \<longleftrightarrow> 0x80 \<le> b \<and> b \<le> 0xBF"

text \<open>How many bytes follow a lead byte, and what the first of them may be.\<close>

definition utf8_follow :: "u8 \<Rightarrow> nat option" where
  "utf8_follow a =
     (if a < 0x80 then Some 0
      else if 0xC2 \<le> a \<and> a \<le> 0xDF then Some 1
      else if 0xE0 \<le> a \<and> a \<le> 0xEF then Some 2
      else if 0xF0 \<le> a \<and> a \<le> 0xF4 then Some 3
      else None)"

definition utf8_second :: "u8 \<Rightarrow> u8 \<Rightarrow> bool" where
  "utf8_second a b \<longleftrightarrow>
     (if a = 0xE0 then 0xA0 \<le> b \<and> b \<le> 0xBF
      else if a = 0xED then 0x80 \<le> b \<and> b \<le> 0x9F
      else if a = 0xF0 then 0x90 \<le> b \<and> b \<le> 0xBF
      else if a = 0xF4 then 0x80 \<le> b \<and> b \<le> 0x8F
      else utf8_cont b)"

text \<open>What is left after the first character, if the bytes start with one.\<close>

definition utf8_step :: "bytes \<Rightarrow> bytes option" where
  "utf8_step s =
     (case s of
        [] \<Rightarrow> None
      | a # r \<Rightarrow>
          (case utf8_follow a of
             None \<Rightarrow> None
           | Some n \<Rightarrow>
               if n \<le> length r \<and> list_all utf8_cont (take n r) \<and> (n = 0 \<or> utf8_second a (hd r))
               then Some (drop n r) else None))"

lemma utf8_step_length: "utf8_step s = Some r \<Longrightarrow> length r < length s"
  by (auto simp: utf8_step_def split: list.splits if_splits option.splits)

lemma utf8_step_append:
  assumes "utf8_step s = Some r"
  shows "utf8_step (s @ t) = Some (r @ t)"
proof -
  from assms obtain a u n where "s = a # u" and n: "utf8_follow a = Some n" and le: "n \<le> length u"
    and all: "list_all utf8_cont (take n u)" and snd: "n = 0 \<or> utf8_second a (hd u)" and "r = drop n u"
    by (auto simp: utf8_step_def split: list.splits if_splits option.splits)
  moreover from le snd have "n = 0 \<or> utf8_second a (hd (u @ t))" by (cases u) auto
  ultimately show ?thesis by (simp add: utf8_step_def)
qed

function utf8_valid :: "bytes \<Rightarrow> bool" where
  "utf8_valid s =
     (if s = [] then True else (case utf8_step s of None \<Rightarrow> False | Some r \<Rightarrow> utf8_valid r))"
  by pat_completeness auto
termination
  by (relation "measure length") (auto dest: utf8_step_length)

declare utf8_valid.simps [simp del]

lemma utf8_valid_Nil [simp]: "utf8_valid []"
  by (simp add: utf8_valid.simps)

lemma utf8_valid_step: "utf8_step s = Some r \<Longrightarrow> utf8_valid s = utf8_valid r"
  using utf8_step_length [of s r] by (auto simp: utf8_valid.simps [of s])

lemma utf8_valid_ascii: "\<forall>b \<in> set s. b < 0x80 \<Longrightarrow> utf8_valid s"
proof (induction s)
  case Nil
  then show ?case by simp
next
  case (Cons b s)
  then have "utf8_step (b # s) = Some s" by (simp add: utf8_step_def utf8_follow_def)
  with Cons show ?case by (simp add: utf8_valid_step)
qed

lemma utf8_valid_append: "utf8_valid s \<Longrightarrow> utf8_valid t \<Longrightarrow> utf8_valid (s @ t)"
proof (induction s rule: utf8_valid.induct)
  case (1 s)
  show ?case
  proof (cases "s = []")
    case True
    with "1.prems" show ?thesis by simp
  next
    case False
    with "1.prems" obtain r where r: "utf8_step s = Some r" and "utf8_valid r"
      by (auto simp: utf8_valid.simps [of s] split: option.splits)
    with False "1.IH" "1.prems" have "utf8_valid (r @ t)" by blast
    with utf8_step_append [OF r, of t] show ?thesis by (simp add: utf8_valid_step)
  qed
qed

definition is_ascii :: "string \<Rightarrow> bool" where
  "is_ascii s \<longleftrightarrow> (\<forall>c \<in> set s. of_char c < (128 :: nat))"

lemma is_ascii_simps [simp]:
  "is_ascii []" "is_ascii (c # s) \<longleftrightarrow> of_char c < (128 :: nat) \<and> is_ascii s"
  "is_ascii (s @ t) \<longleftrightarrow> is_ascii s \<and> is_ascii t"
  by (auto simp: is_ascii_def)

lemma utf8_valid_is_ascii: "is_ascii s \<Longrightarrow> utf8_valid (bytes_of_str s)"
proof (rule utf8_valid_ascii)
  assume a: "is_ascii s"
  have "of_nat (of_char c) < (0x80 :: u8)" if "of_char c < (128 :: nat)" for c :: char
    using that by (simp add: word_less_nat_alt unat_of_nat)
  with a show "\<forall>b \<in> set (bytes_of_str s). b < 0x80"
    by (auto simp: is_ascii_def bytes_of_str_def)
qed

section \<open>Splitting\<close>

text \<open>\<open>str::split_once(char)\<close>\<close>

fun split_once :: "char \<Rightarrow> string \<Rightarrow> (string \<times> string) option" where
  "split_once c [] = None"
| "split_once c (x # xs) =
     (if x = c then Some ([], xs) else map_option (\<lambda>(a, b). (x # a, b)) (split_once c xs))"

lemma split_once_None: "split_once c s = None \<longleftrightarrow> c \<notin> set s"
  by (induction s) auto

lemma split_once_Some: "split_once c s = Some (a, b) \<longleftrightarrow> s = a @ c # b \<and> c \<notin> set a"
proof (induction s arbitrary: a)
  case Nil
  then show ?case by simp
next
  case (Cons x xs)
  then show ?case by (cases a) auto
qed

lemma split_once_append [simp]: "c \<notin> set a \<Longrightarrow> split_once c (a @ c # b) = Some (a, b)"
  by (simp add: split_once_Some)

text \<open>\<open>str::split(char)\<close>: always at least one part.\<close>

fun split_on :: "char \<Rightarrow> string \<Rightarrow> string list" where
  "split_on c [] = [[]]"
| "split_on c (x # xs) =
     (if x = c then [] # split_on c xs
      else (case split_on c xs of [] \<Rightarrow> [[x]] | p # ps \<Rightarrow> (x # p) # ps))"

lemma split_on_not_Nil [simp]: "split_on c s \<noteq> []"
  by (cases s) (auto split: list.splits)

lemma split_on_once:
  "split_on c s = (case split_once c s of None \<Rightarrow> [s] | Some (a, b) \<Rightarrow> a # split_on c b)"
  by (induction s) (auto split: option.splits list.splits)

lemma split_on_single [simp]: "c \<notin> set s \<Longrightarrow> split_on c s = [s]"
  by (induction s) auto

lemma split_on_append [simp]: "c \<notin> set a \<Longrightarrow> split_on c (a @ c # b) = a # split_on c b"
  by (simp add: split_on_once)

text \<open>\<open>str::strip_prefix\<close> and \<open>str::starts_with\<close>\<close>

fun strip_prefix :: "string \<Rightarrow> string \<Rightarrow> string option" where
  "strip_prefix [] s = Some s"
| "strip_prefix (p # ps) [] = None"
| "strip_prefix (p # ps) (x # xs) = (if p = x then strip_prefix ps xs else None)"

lemma strip_prefix_Some: "strip_prefix p s = Some r \<longleftrightarrow> s = p @ r"
  by (induction p s rule: strip_prefix.induct) auto

lemma strip_prefix_append [simp]: "strip_prefix p (p @ r) = Some r"
  by (simp add: strip_prefix_Some)

definition starts_with :: "string \<Rightarrow> string \<Rightarrow> bool" where
  "starts_with p s \<longleftrightarrow> strip_prefix p s \<noteq> None"

lemma starts_with_iff: "starts_with p s \<longleftrightarrow> (\<exists>r. s = p @ r)"
  by (auto simp: starts_with_def strip_prefix_Some)

text \<open>\<open>str::rsplit_once(&str)\<close>: the split at the last place where the pattern occurs.\<close>

fun rsplit_once :: "string \<Rightarrow> string \<Rightarrow> (string \<times> string) option" where
  "rsplit_once p [] = (if p = [] then Some ([], []) else None)"
| "rsplit_once p (x # xs) =
     (case rsplit_once p xs of
        Some (a, b) \<Rightarrow> Some (x # a, b)
      | None \<Rightarrow> map_option (Pair []) (strip_prefix p (x # xs)))"

lemma rsplit_once_None:
  assumes "p \<noteq> []"
  shows "rsplit_once p s = None \<longleftrightarrow> (\<forall>a b. s \<noteq> a @ p @ b)"
proof (induction s)
  case Nil
  with assms show ?case by auto
next
  case (Cons x xs)
  show ?case
  proof (cases "rsplit_once p xs")
    case None
    with Cons have none: "\<forall>a b. xs \<noteq> a @ p @ b" by simp
    have "strip_prefix p (x # xs) = None \<longleftrightarrow> (\<forall>a b. x # xs \<noteq> a @ p @ b)"
    proof
      assume n: "strip_prefix p (x # xs) = None"
      show "\<forall>a b. x # xs \<noteq> a @ p @ b"
      proof (intro allI notI)
        fix a b assume eq: "x # xs = a @ p @ b"
        show False
        proof (cases a)
          case Nil
          with eq n show False by (metis append_Nil option.distinct(1) strip_prefix_append)
        next
          case (Cons y ys)
          with eq none show False by auto
        qed
      qed
    next
      assume "\<forall>a b. x # xs \<noteq> a @ p @ b"
      then show "strip_prefix p (x # xs) = None"
        by (metis append_Nil option.exhaust strip_prefix_Some)
    qed
    with None show ?thesis by simp
  next
    case (Some r)
    with Cons have "\<not> (\<forall>a b. xs \<noteq> a @ p @ b)" by simp
    then have "\<not> (\<forall>a b. x # xs \<noteq> a @ p @ b)" by (metis append_Cons)
    with Some show ?thesis by (auto split: prod.splits)
  qed
qed

lemma rsplit_once_Some: "rsplit_once p s = Some (a, b) \<Longrightarrow> s = a @ p @ b"
proof (induction s arbitrary: a)
  case Nil
  then show ?case by (simp split: if_splits)
next
  case (Cons x xs)
  then show ?case by (auto simp: strip_prefix_Some split: option.splits)
qed

text \<open>A pattern that starts with a separator the tail does not have is split at that separator.\<close>

lemma rsplit_once_last:
  assumes "c \<notin> set q" and "c \<notin> set b"
  shows "rsplit_once (c # q) (a @ (c # q) @ b) = Some (a, b)"
proof -
  have none: "rsplit_once (c # q) (q @ b) = None"
    unfolding rsplit_once_None [of "c # q", simplified]
  proof (intro allI notI)
    fix a' b' assume "q @ b = a' @ c # q @ b'"
    then have "c \<in> set (q @ b)" by simp
    with assms show False by simp
  qed
  then have base: "rsplit_once (c # q) ((c # q) @ b) = Some ([], b)" by simp
  show ?thesis
    by (induction a) (use base in \<open>auto split: option.splits\<close>)
qed

section \<open>Numbers\<close>

text \<open>\<open>u32::from_str\<close>: an optional \<open>+\<close>, then at least one decimal digit, with an error on overflow.\<close>

definition digit_val :: "char \<Rightarrow> nat option" where
  "digit_val c = (let n = of_char c in if 48 \<le> n \<and> n \<le> 57 then Some (n - 48) else None)"

fun parse_digits :: "nat \<Rightarrow> string \<Rightarrow> nat option" where
  "parse_digits acc [] = Some acc"
| "parse_digits acc (c # cs) =
     (case digit_val c of
        None \<Rightarrow> None
      | Some d \<Rightarrow> if acc * 10 + d < 2 ^ 32 then parse_digits (acc * 10 + d) cs else None)"

definition parse_u32 :: "string \<Rightarrow> u32 option" where
  "parse_u32 s =
     (let digits = (case s of [] \<Rightarrow> [] | c # cs \<Rightarrow> if c = CHR ''+'' then cs else s)
      in if digits = [] then None else map_option of_nat (parse_digits 0 digits))"

text \<open>\<open>Display\<close> of an unsigned number\<close>

definition digit_char :: "nat \<Rightarrow> char" where
  "digit_char d = char_of (48 + d)"

fun show_nat :: "nat \<Rightarrow> string" where
  "show_nat n = (if n < 10 then [digit_char n] else show_nat (n div 10) @ [digit_char (n mod 10)])"

declare show_nat.simps [simp del]

definition show_u32 :: "u32 \<Rightarrow> string" where
  "show_u32 n = show_nat (unat n)"

definition show_i16 :: "i16 \<Rightarrow> string" where
  "show_i16 c = (if sint c < 0 then ''-'' @ show_nat (nat (- sint c)) else show_nat (nat (sint c)))"

lemma digit_val_char [simp]: "d < 10 \<Longrightarrow> digit_val (digit_char d) = Some d"
  by (simp add: digit_val_def digit_char_def take_bit_nat_def)

lemma show_nat_not_Nil [simp]: "show_nat n \<noteq> []"
  by (subst show_nat.simps) simp

lemma of_char_digit [simp]: "d < 10 \<Longrightarrow> of_char (digit_char d) = 48 + d"
  by (simp add: digit_char_def take_bit_nat_def)

lemma show_nat_digits: "c \<in> set (show_nat n) \<Longrightarrow> \<exists>d < 10. c = digit_char d"
proof (induction n rule: show_nat.induct)
  case (1 n)
  show ?case
  proof (cases "n < 10")
    case True
    with "1.prems" show ?thesis by (auto simp: show_nat.simps [of n])
  next
    case False
    with "1.prems" have "c \<in> set (show_nat (n div 10)) \<or> c = digit_char (n mod 10)"
      by (auto simp: show_nat.simps [of n])
    then show ?thesis
    proof
      assume "c \<in> set (show_nat (n div 10))"
      with False show ?thesis by (rule "1.IH")
    next
      assume "c = digit_char (n mod 10)"
      moreover have "n mod 10 < 10" by simp
      ultimately show ?thesis by blast
    qed
  qed
qed

lemma show_nat_char: "c \<in> set (show_nat n) \<Longrightarrow> 48 \<le> (of_char c :: nat) \<and> of_char c \<le> (57 :: nat)"
  by (drule show_nat_digits) auto

lemma show_nat_no [simp]:
  "of_char c < (48 :: nat) \<or> (57 :: nat) < of_char c \<Longrightarrow> c \<notin> set (show_nat n)"
  using show_nat_char by (meson linorder_not_le)

lemma parse_digits_append:
  "parse_digits acc (s @ t) = Option.bind (parse_digits acc s) (\<lambda>acc'. parse_digits acc' t)"
  by (induction acc s rule: parse_digits.induct) (auto split: option.splits)

lemma parse_digits_show: "n < 2 ^ 32 \<Longrightarrow> parse_digits 0 (show_nat n) = Some n"
proof (induction n rule: show_nat.induct)
  case (1 n)
  show ?case
  proof (cases "n < 10")
    case True
    then show ?thesis by (simp add: show_nat.simps [of n])
  next
    case False
    moreover from "1.prems" have "n div 10 < 2 ^ 32" by linarith
    ultimately have "parse_digits 0 (show_nat (n div 10)) = Some (n div 10)" by (rule "1.IH")
    moreover have "n div 10 * 10 + n mod 10 = n" by simp
    ultimately show ?thesis
      using False "1.prems" by (simp add: show_nat.simps [of n] parse_digits_append)
  qed
qed

lemma parse_show_u32 [simp]: "parse_u32 (show_u32 n) = Some n"
proof -
  obtain c cs where s: "show_nat (unat n) = c # cs" by (meson neq_Nil_conv show_nat_not_Nil)
  then have "c \<in> set (show_nat (unat n))" by simp
  then have "c \<noteq> CHR ''+''" using show_nat_char [of c] by fastforce
  moreover have "unat n < 2 ^ 32" using unsigned_less [of n] by simp
  ultimately show ?thesis
    using s parse_digits_show [of "unat n"] by (simp add: parse_u32_def show_u32_def)
qed

section \<open>Debug formatting\<close>

text \<open>
  \<open>{:?}\<close> of a string. Whether a code point beyond ASCII is printed or escaped depends on the
  Unicode tables of the standard library, which are the parameter \<open>escaped\<close>.
\<close>

fun show_hex :: "nat \<Rightarrow> string" where
  "show_hex n =
     (let d = (\<lambda>k. if k < 10 then char_of (48 + k) else char_of (87 + k))
      in if n < 16 then [d n] else show_hex (n div 16) @ [d (n mod 16)])"

declare show_hex.simps [simp del]

definition utf8_width :: "char \<Rightarrow> nat" where
  "utf8_width c =
     (let n = (of_char c :: nat) in if n < 0xE0 then (if n < 0x80 then 1 else 2) else if n < 0xF0 then 3 else 4)"

fun code_point :: "string \<Rightarrow> nat" where
  "code_point [] = 0"
| "code_point (c # cs) =
     foldl (\<lambda>n d. n * 64 + of_char d mod 64)
       (let n = of_char c
        in if n < 0xE0 then (if n < 0x80 then n else n mod 32) else if n < 0xF0 then n mod 16 else n mod 8)
       cs"

definition debug_char :: "(nat \<Rightarrow> bool) \<Rightarrow> string \<Rightarrow> string" where
  "debug_char escaped c =
     (let n = code_point c
      in if n = 0 then [CHR 0x5C, CHR ''0'']
         else if n = 9 then [CHR 0x5C, CHR ''t'']
         else if n = 10 then [CHR 0x5C, CHR ''n'']
         else if n = 13 then [CHR 0x5C, CHR ''r'']
         else if n = 34 then [CHR 0x5C, CHR 0x22]
         else if n = 92 then [CHR 0x5C, CHR 0x5C]
         else if n < 32 \<or> n = 127 \<or> (128 \<le> n \<and> escaped n)
           then [CHR 0x5C] @ ''u{'' @ show_hex n @ ''}''
         else c)"

function debug_body :: "(nat \<Rightarrow> bool) \<Rightarrow> string \<Rightarrow> string" where
  "debug_body escaped [] = []"
| "debug_body escaped (c # cs) =
     debug_char escaped (c # take (utf8_width c - 1) cs) @ debug_body escaped (drop (utf8_width c - 1) cs)"
  by pat_completeness auto
termination
  by (relation "measure (length \<circ> snd)") auto

definition debug_str :: "(nat \<Rightarrow> bool) \<Rightarrow> string \<Rightarrow> string" where
  "debug_str escaped s = [CHR 0x22] @ debug_body escaped s @ [CHR 0x22]"

definition debug_opt_str :: "(nat \<Rightarrow> bool) \<Rightarrow> string option \<Rightarrow> string" where
  "debug_opt_str escaped s =
     (case s of None \<Rightarrow> ''None'' | Some t \<Rightarrow> ''Some('' @ debug_str escaped t @ '')'')"

end
