(* ===== verification/Errors.thy ===== *)
theory Errors
  imports Rust_Str
begin

text \<open>
  \<open>src/errors.rs\<close>: the translation between pgwire's errors and Python exceptions, the hierarchy
  of the exception classes, and the field sets of an error response. The text pgwire prints for
  an error, and how pyo3 prints an exception, are parameters (\<open>py_runtime\<close>).
\<close>

section \<open>ErrorInfo\<close>

text \<open>pgwire's \<open>ErrorInfo\<close> and its constructor, which leaves the optional fields empty.\<close>

record error_info =
  ei_severity :: string
  ei_code :: string
  ei_message :: string
  ei_detail :: "string option"
  ei_hint :: "string option"
  ei_position :: "string option"
  ei_internal_position :: "string option"
  ei_internal_query :: "string option"
  ei_where_context :: "string option"
  ei_file_name :: "string option"
  ei_line :: "nat option"
  ei_routine :: "string option"
  ei_severity_nonlocalized :: "string option"
  ei_schema :: "string option"
  ei_table :: "string option"
  ei_column :: "string option"
  ei_datatype :: "string option"
  ei_constraint :: "string option"

definition error_info_new :: "string \<Rightarrow> string \<Rightarrow> string \<Rightarrow> error_info" where
  "error_info_new severity code message =
     \<lparr>ei_severity = severity, ei_code = code, ei_message = message,
      ei_detail = None,
      ei_hint = None,
      ei_position = None,
      ei_internal_position = None,
      ei_internal_query = None,
      ei_where_context = None,
      ei_file_name = None,
      ei_line = None,
      ei_routine = None,
      ei_severity_nonlocalized = None,
      ei_schema = None,
      ei_table = None,
      ei_column = None,
      ei_datatype = None,
      ei_constraint = None\<rparr>"

text \<open>The class \<open>pywire.errors.ErrorInfo\<close>.\<close>

record py_error_info =
  pei_severity :: string
  pei_code :: string
  pei_message :: string
  pei_detail :: "string option"
  pei_hint :: "string option"
  pei_position :: "string option"
  pei_internal_position :: "string option"
  pei_internal_query :: "string option"
  pei_where_context :: "string option"
  pei_file_name :: "string option"
  pei_line :: "nat option"
  pei_routine :: "string option"
  pei_severity_nonlocalized :: "string option"
  pei_schema :: "string option"
  pei_table :: "string option"
  pei_column :: "string option"
  pei_datatype :: "string option"
  pei_constraint :: "string option"

definition py_error_info_new ::
  "string \<Rightarrow> string \<Rightarrow> string \<Rightarrow> string option \<Rightarrow> string option \<Rightarrow> string option \<Rightarrow> string option \<Rightarrow> string option \<Rightarrow> string option \<Rightarrow> string option \<Rightarrow> nat option \<Rightarrow> string option \<Rightarrow> string option \<Rightarrow> string option \<Rightarrow> string option \<Rightarrow> string option \<Rightarrow> string option \<Rightarrow> string option \<Rightarrow> py_error_info" where
  "py_error_info_new severity code message detail' hint' position' internal_position' internal_query' where_context' file_name' line' routine' severity_nonlocalized' schema' table' column' datatype' constraint' =
     \<lparr>pei_severity = severity, pei_code = code, pei_message = message,
      pei_detail = detail',
      pei_hint = hint',
      pei_position = position',
      pei_internal_position = internal_position',
      pei_internal_query = internal_query',
      pei_where_context = where_context',
      pei_file_name = file_name',
      pei_line = line',
      pei_routine = routine',
      pei_severity_nonlocalized = severity_nonlocalized',
      pei_schema = schema',
      pei_table = table',
      pei_column = column',
      pei_datatype = datatype',
      pei_constraint = constraint'\<rparr>"

definition is_fatal :: "py_error_info \<Rightarrow> bool" where
  "is_fatal e \<longleftrightarrow> pei_severity e = ''FATAL''"

definition error_info_repr :: "(nat \<Rightarrow> bool) \<Rightarrow> py_error_info \<Rightarrow> string" where
  "error_info_repr escaped e =
     ''ErrorInfo(severity='' @ debug_str escaped (pei_severity e) @
     '', code='' @ debug_str escaped (pei_code e) @
     '', message='' @ debug_str escaped (pei_message e) @ '')''"

definition py_error_info_of_pg :: "error_info \<Rightarrow> py_error_info" where
  "py_error_info_of_pg e =
     \<lparr>pei_severity = ei_severity e, pei_code = ei_code e, pei_message = ei_message e,
      pei_detail = ei_detail e,
      pei_hint = ei_hint e,
      pei_position = ei_position e,
      pei_internal_position = ei_internal_position e,
      pei_internal_query = ei_internal_query e,
      pei_where_context = ei_where_context e,
      pei_file_name = ei_file_name e,
      pei_line = ei_line e,
      pei_routine = ei_routine e,
      pei_severity_nonlocalized = ei_severity_nonlocalized e,
      pei_schema = ei_schema e,
      pei_table = ei_table e,
      pei_column = ei_column e,
      pei_datatype = ei_datatype e,
      pei_constraint = ei_constraint e\<rparr>"

text \<open>The other direction goes through the constructor and then fills the fields one by one.\<close>

definition pg_error_info_of_py :: "py_error_info \<Rightarrow> error_info" where
  "pg_error_info_of_py e =
     (let info = error_info_new (pei_severity e) (pei_code e) (pei_message e);
          info = info\<lparr>ei_detail := pei_detail e\<rparr>;
          info = info\<lparr>ei_hint := pei_hint e\<rparr>;
          info = info\<lparr>ei_position := pei_position e\<rparr>;
          info = info\<lparr>ei_internal_position := pei_internal_position e\<rparr>;
          info = info\<lparr>ei_internal_query := pei_internal_query e\<rparr>;
          info = info\<lparr>ei_where_context := pei_where_context e\<rparr>;
          info = info\<lparr>ei_file_name := pei_file_name e\<rparr>;
          info = info\<lparr>ei_line := pei_line e\<rparr>;
          info = info\<lparr>ei_routine := pei_routine e\<rparr>;
          info = info\<lparr>ei_severity_nonlocalized := pei_severity_nonlocalized e\<rparr>;
          info = info\<lparr>ei_schema := pei_schema e\<rparr>;
          info = info\<lparr>ei_table := pei_table e\<rparr>;
          info = info\<lparr>ei_column := pei_column e\<rparr>;
          info = info\<lparr>ei_datatype := pei_datatype e\<rparr>;
          info = info\<lparr>ei_constraint := pei_constraint e\<rparr>
      in info)"

section \<open>The errors of pgwire\<close>

text \<open>
  The variants are those \<open>pywire_to_py_err\<close> matches. A boxed error (in \<open>ApiError\<close>,
  \<open>FailedToParseParameter\<close>, \<open>IoError\<close>) is the text it prints.
\<close>

datatype pgwire_error =
    UnsupportedProtocolVersion u16 u16
  | InvalidCancelRequest
  | InvalidSecretKey
  | InvalidMessageType u8
  | MessageTooLarge nat nat
  | InvalidElementCount nat nat nat
  | InvalidTargetType u8
  | InvalidTransactionStatus u8
  | InvalidSSLRequestMessage
  | InvalidGssEncRequestMessage
  | InvalidStartupMessage
  | InvalidAuthenticationMessageCode i32
  | FailedToCoercePasswordMessage
  | InvalidSASLState
  | UnsupportedSASLAuthMethod string
  | IoError string
  | PortalNotFound string
  | PortalNotStarted
  | StatementNotFound string
  | ParameterIndexOutOfBound nat
  | InvalidRustTypeForParameter string
  | FailedToParseParameter string
  | InvalidScramMessage string
  | InvalidPassword string
  | UnsupportedCertificateSignatureAlgorithm
  | UserNameRequired
  | NotReadyForQuery
  | QueryCanceled
  | InvalidOptionValue string
  | InvalidOauthMessage string
  | OAuthAuthenticationFailed string
  | OAuthValidationError string
  | OauthAuthzIdError string
  | ApiError string
  | UserError error_info

section \<open>Exception classes\<close>

text \<open>The classes \<open>create_exception!\<close> declares, and the Python built-ins the code raises.\<close>

datatype exc_class =
    Exc_Error
  | Exc_ProtocolError
  | Exc_AuthError
  | Exc_UnsupportedProtocolVersion
  | Exc_InvalidCancelRequest
  | Exc_InvalidMessageType
  | Exc_MessageTooLarge
  | Exc_InvalidElementCount
  | Exc_InvalidTargetType
  | Exc_InvalidTransactionStatus
  | Exc_InvalidSSLRequestMessage
  | Exc_InvalidGssEncRequestMessage
  | Exc_InvalidStartupMessage
  | Exc_InvalidAuthenticationMessageCode
  | Exc_InvalidSecretKey
  | Exc_NotReadyForQuery
  | Exc_InvalidOptionValue
  | Exc_FailedToCoercePasswordMessage
  | Exc_InvalidSASLState
  | Exc_UnsupportedSASLAuthMethod
  | Exc_InvalidScramMessage
  | Exc_InvalidPassword
  | Exc_UnsupportedCertificateSignatureAlgorithm
  | Exc_UserNameRequired
  | Exc_InvalidOauthMessage
  | Exc_OAuthAuthenticationFailed
  | Exc_OAuthValidationError
  | Exc_OauthAuthzIdError
  | Exc_PortalNotFound
  | Exc_PortalNotStarted
  | Exc_StatementNotFound
  | Exc_ParameterIndexOutOfBound
  | Exc_InvalidRustTypeForParameter
  | Exc_FailedToParseParameter
  | Exc_QueryCanceled
  | Exc_ApiError
  | Exc_UserError
  | Py_Exception | Py_OSError | Py_ValueError | Py_RuntimeError

fun exc_parent :: "exc_class \<Rightarrow> exc_class option" where
  "exc_parent Exc_Error = Some Py_Exception"
| "exc_parent Exc_ProtocolError = Some Exc_Error"
| "exc_parent Exc_AuthError = Some Exc_Error"
| "exc_parent Exc_UnsupportedProtocolVersion = Some Exc_ProtocolError"
| "exc_parent Exc_InvalidCancelRequest = Some Exc_ProtocolError"
| "exc_parent Exc_InvalidMessageType = Some Exc_ProtocolError"
| "exc_parent Exc_MessageTooLarge = Some Exc_ProtocolError"
| "exc_parent Exc_InvalidElementCount = Some Exc_ProtocolError"
| "exc_parent Exc_InvalidTargetType = Some Exc_ProtocolError"
| "exc_parent Exc_InvalidTransactionStatus = Some Exc_ProtocolError"
| "exc_parent Exc_InvalidSSLRequestMessage = Some Exc_ProtocolError"
| "exc_parent Exc_InvalidGssEncRequestMessage = Some Exc_ProtocolError"
| "exc_parent Exc_InvalidStartupMessage = Some Exc_ProtocolError"
| "exc_parent Exc_InvalidAuthenticationMessageCode = Some Exc_ProtocolError"
| "exc_parent Exc_InvalidSecretKey = Some Exc_ProtocolError"
| "exc_parent Exc_NotReadyForQuery = Some Exc_ProtocolError"
| "exc_parent Exc_InvalidOptionValue = Some Exc_ProtocolError"
| "exc_parent Exc_FailedToCoercePasswordMessage = Some Exc_AuthError"
| "exc_parent Exc_InvalidSASLState = Some Exc_AuthError"
| "exc_parent Exc_UnsupportedSASLAuthMethod = Some Exc_AuthError"
| "exc_parent Exc_InvalidScramMessage = Some Exc_AuthError"
| "exc_parent Exc_InvalidPassword = Some Exc_AuthError"
| "exc_parent Exc_UnsupportedCertificateSignatureAlgorithm = Some Exc_AuthError"
| "exc_parent Exc_UserNameRequired = Some Exc_AuthError"
| "exc_parent Exc_InvalidOauthMessage = Some Exc_AuthError"
| "exc_parent Exc_OAuthAuthenticationFailed = Some Exc_AuthError"
| "exc_parent Exc_OAuthValidationError = Some Exc_AuthError"
| "exc_parent Exc_OauthAuthzIdError = Some Exc_AuthError"
| "exc_parent Exc_PortalNotFound = Some Exc_Error"
| "exc_parent Exc_PortalNotStarted = Some Exc_Error"
| "exc_parent Exc_StatementNotFound = Some Exc_Error"
| "exc_parent Exc_ParameterIndexOutOfBound = Some Exc_Error"
| "exc_parent Exc_InvalidRustTypeForParameter = Some Exc_Error"
| "exc_parent Exc_FailedToParseParameter = Some Exc_Error"
| "exc_parent Exc_QueryCanceled = Some Exc_Error"
| "exc_parent Exc_ApiError = Some Exc_Error"
| "exc_parent Exc_UserError = Some Exc_Error"
| "exc_parent Py_Exception = None"
| "exc_parent Py_OSError = Some Py_Exception"
| "exc_parent Py_ValueError = Some Py_Exception"
| "exc_parent Py_RuntimeError = Some Py_Exception"

fun exc_name :: "exc_class \<Rightarrow> string" where
  "exc_name Exc_Error = ''Error''"
| "exc_name Exc_ProtocolError = ''ProtocolError''"
| "exc_name Exc_AuthError = ''AuthError''"
| "exc_name Exc_UnsupportedProtocolVersion = ''UnsupportedProtocolVersion''"
| "exc_name Exc_InvalidCancelRequest = ''InvalidCancelRequest''"
| "exc_name Exc_InvalidMessageType = ''InvalidMessageType''"
| "exc_name Exc_MessageTooLarge = ''MessageTooLarge''"
| "exc_name Exc_InvalidElementCount = ''InvalidElementCount''"
| "exc_name Exc_InvalidTargetType = ''InvalidTargetType''"
| "exc_name Exc_InvalidTransactionStatus = ''InvalidTransactionStatus''"
| "exc_name Exc_InvalidSSLRequestMessage = ''InvalidSSLRequestMessage''"
| "exc_name Exc_InvalidGssEncRequestMessage = ''InvalidGssEncRequestMessage''"
| "exc_name Exc_InvalidStartupMessage = ''InvalidStartupMessage''"
| "exc_name Exc_InvalidAuthenticationMessageCode = ''InvalidAuthenticationMessageCode''"
| "exc_name Exc_InvalidSecretKey = ''InvalidSecretKey''"
| "exc_name Exc_NotReadyForQuery = ''NotReadyForQuery''"
| "exc_name Exc_InvalidOptionValue = ''InvalidOptionValue''"
| "exc_name Exc_FailedToCoercePasswordMessage = ''FailedToCoercePasswordMessage''"
| "exc_name Exc_InvalidSASLState = ''InvalidSASLState''"
| "exc_name Exc_UnsupportedSASLAuthMethod = ''UnsupportedSASLAuthMethod''"
| "exc_name Exc_InvalidScramMessage = ''InvalidScramMessage''"
| "exc_name Exc_InvalidPassword = ''InvalidPassword''"
| "exc_name Exc_UnsupportedCertificateSignatureAlgorithm = ''UnsupportedCertificateSignatureAlgorithm''"
| "exc_name Exc_UserNameRequired = ''UserNameRequired''"
| "exc_name Exc_InvalidOauthMessage = ''InvalidOauthMessage''"
| "exc_name Exc_OAuthAuthenticationFailed = ''OAuthAuthenticationFailed''"
| "exc_name Exc_OAuthValidationError = ''OAuthValidationError''"
| "exc_name Exc_OauthAuthzIdError = ''OauthAuthzIdError''"
| "exc_name Exc_PortalNotFound = ''PortalNotFound''"
| "exc_name Exc_PortalNotStarted = ''PortalNotStarted''"
| "exc_name Exc_StatementNotFound = ''StatementNotFound''"
| "exc_name Exc_ParameterIndexOutOfBound = ''ParameterIndexOutOfBound''"
| "exc_name Exc_InvalidRustTypeForParameter = ''InvalidRustTypeForParameter''"
| "exc_name Exc_FailedToParseParameter = ''FailedToParseParameter''"
| "exc_name Exc_QueryCanceled = ''QueryCanceled''"
| "exc_name Exc_ApiError = ''ApiError''"
| "exc_name Exc_UserError = ''UserError''"
| "exc_name Py_Exception = ''Exception''"
| "exc_name Py_OSError = ''OSError''"
| "exc_name Py_ValueError = ''ValueError''"
| "exc_name Py_RuntimeError = ''RuntimeError''"

text \<open>\<open>isinstance\<close>: the class itself or a class above it. No chain is longer than four classes.\<close>

fun exc_chain :: "nat \<Rightarrow> exc_class \<Rightarrow> exc_class list" where
  "exc_chain 0 c = []"
| "exc_chain (Suc n) c = c # (case exc_parent c of None \<Rightarrow> [] | Some p \<Rightarrow> exc_chain n p)"

definition is_instance :: "exc_class \<Rightarrow> exc_class \<Rightarrow> bool" where
  "is_instance c d \<longleftrightarrow> d \<in> set (exc_chain 4 c)"

text \<open>The classes \<open>register\<close> adds to the module \<open>pywire.errors\<close>, in its order.\<close>

definition registered :: "exc_class list" where
  "registered =
     [Exc_Error,
      Exc_ProtocolError,
      Exc_UnsupportedProtocolVersion,
      Exc_InvalidCancelRequest,
      Exc_InvalidMessageType,
      Exc_MessageTooLarge,
      Exc_InvalidElementCount,
      Exc_InvalidTargetType,
      Exc_InvalidTransactionStatus,
      Exc_InvalidSSLRequestMessage,
      Exc_InvalidGssEncRequestMessage,
      Exc_InvalidStartupMessage,
      Exc_InvalidAuthenticationMessageCode,
      Exc_InvalidSecretKey,
      Exc_NotReadyForQuery,
      Exc_InvalidOptionValue,
      Exc_AuthError,
      Exc_FailedToCoercePasswordMessage,
      Exc_InvalidSASLState,
      Exc_UnsupportedSASLAuthMethod,
      Exc_InvalidScramMessage,
      Exc_InvalidPassword,
      Exc_UnsupportedCertificateSignatureAlgorithm,
      Exc_UserNameRequired,
      Exc_InvalidOauthMessage,
      Exc_OAuthAuthenticationFailed,
      Exc_OAuthValidationError,
      Exc_OauthAuthzIdError,
      Exc_PortalNotFound,
      Exc_PortalNotStarted,
      Exc_StatementNotFound,
      Exc_ParameterIndexOutOfBound,
      Exc_InvalidRustTypeForParameter,
      Exc_FailedToParseParameter,
      Exc_QueryCanceled,
      Exc_ApiError,
      Exc_UserError]"

section \<open>Python errors\<close>

text \<open>
  A \<open>PyErr\<close> is an exception the binding raised (\<open>new_err\<close>, with its class and message) or one
  that came out of Python code, which is opaque.
\<close>

datatype py_err = New_err exc_class string | Py_exc nat

record py_runtime =
  rt_display :: "pgwire_error \<Rightarrow> string"
  rt_qualname :: "py_err \<Rightarrow> string option"
  rt_to_string :: "py_err \<Rightarrow> string"
  rt_stop_iteration :: "py_err \<Rightarrow> bool"

text \<open>
  What pyo3 documents of an exception: its type's qualified name, and \<open>to_string\<close> in the form
  \<open>ClassName: payload\<close>.
\<close>

definition pyo3_formats :: "py_runtime \<Rightarrow> bool" where
  "pyo3_formats r \<longleftrightarrow>
     (\<forall>c m. rt_qualname r (New_err c m) = Some (exc_name c) \<and>
            rt_to_string r (New_err c m) = exc_name c @ '': '' @ m)"

definition pywire_to_py_err :: "py_runtime \<Rightarrow> pgwire_error \<Rightarrow> py_err" where
  "pywire_to_py_err r err =
     (let msg = rt_display r err
      in case err of

           UnsupportedProtocolVersion _ _ \<Rightarrow> New_err Exc_UnsupportedProtocolVersion msg
         | InvalidCancelRequest \<Rightarrow> New_err Exc_InvalidCancelRequest msg
         | InvalidSecretKey \<Rightarrow> New_err Exc_InvalidSecretKey msg
         | InvalidMessageType _ \<Rightarrow> New_err Exc_InvalidMessageType msg
         | MessageTooLarge _ _ \<Rightarrow> New_err Exc_MessageTooLarge msg
         | InvalidElementCount _ _ _ \<Rightarrow> New_err Exc_InvalidElementCount msg
         | InvalidTargetType _ \<Rightarrow> New_err Exc_InvalidTargetType msg
         | InvalidTransactionStatus _ \<Rightarrow> New_err Exc_InvalidTransactionStatus msg
         | InvalidSSLRequestMessage \<Rightarrow> New_err Exc_InvalidSSLRequestMessage msg
         | InvalidGssEncRequestMessage \<Rightarrow> New_err Exc_InvalidGssEncRequestMessage msg
         | InvalidStartupMessage \<Rightarrow> New_err Exc_InvalidStartupMessage msg
         | InvalidAuthenticationMessageCode _ \<Rightarrow> New_err Exc_InvalidAuthenticationMessageCode msg
         | FailedToCoercePasswordMessage \<Rightarrow> New_err Exc_FailedToCoercePasswordMessage msg
         | InvalidSASLState \<Rightarrow> New_err Exc_InvalidSASLState msg
         | UnsupportedSASLAuthMethod _ \<Rightarrow> New_err Exc_UnsupportedSASLAuthMethod msg
         | IoError io \<Rightarrow> New_err Py_OSError io
         | PortalNotFound _ \<Rightarrow> New_err Exc_PortalNotFound msg
         | PortalNotStarted \<Rightarrow> New_err Exc_PortalNotStarted msg
         | StatementNotFound _ \<Rightarrow> New_err Exc_StatementNotFound msg
         | ParameterIndexOutOfBound _ \<Rightarrow> New_err Exc_ParameterIndexOutOfBound msg
         | InvalidRustTypeForParameter _ \<Rightarrow> New_err Exc_InvalidRustTypeForParameter msg
         | FailedToParseParameter _ \<Rightarrow> New_err Exc_FailedToParseParameter msg
         | InvalidScramMessage _ \<Rightarrow> New_err Exc_InvalidScramMessage msg
         | InvalidPassword _ \<Rightarrow> New_err Exc_InvalidPassword msg
         | UnsupportedCertificateSignatureAlgorithm \<Rightarrow> New_err Exc_UnsupportedCertificateSignatureAlgorithm msg
         | UserNameRequired \<Rightarrow> New_err Exc_UserNameRequired msg
         | NotReadyForQuery \<Rightarrow> New_err Exc_NotReadyForQuery msg
         | QueryCanceled \<Rightarrow> New_err Exc_QueryCanceled msg
         | InvalidOptionValue _ \<Rightarrow> New_err Exc_InvalidOptionValue msg
         | InvalidOauthMessage _ \<Rightarrow> New_err Exc_InvalidOauthMessage msg
         | OAuthAuthenticationFailed _ \<Rightarrow> New_err Exc_OAuthAuthenticationFailed msg
         | OAuthValidationError _ \<Rightarrow> New_err Exc_OAuthValidationError msg
         | OauthAuthzIdError _ \<Rightarrow> New_err Exc_OauthAuthzIdError msg
         | ApiError _ \<Rightarrow> New_err Exc_ApiError msg
         | UserError _ \<Rightarrow> New_err Exc_UserError msg)"

definition py_err_to_pywire :: "py_runtime \<Rightarrow> py_err \<Rightarrow> pgwire_error" where
  "py_err_to_pywire r err =
     (let name = (case rt_qualname r err of Some s \<Rightarrow> s | None \<Rightarrow> '''');
          msg = rt_to_string r err;
          payload = (case strip_prefix (name @ '': '') msg of Some p \<Rightarrow> p | None \<Rightarrow> msg)
      in 
         if name = ''InvalidCancelRequest'' then InvalidCancelRequest
         else if name = ''InvalidSecretKey'' then InvalidSecretKey
         else if name = ''InvalidSSLRequestMessage'' then InvalidSSLRequestMessage
         else if name = ''InvalidGssEncRequestMessage'' then InvalidGssEncRequestMessage
         else if name = ''InvalidStartupMessage'' then InvalidStartupMessage
         else if name = ''FailedToCoercePasswordMessage'' then FailedToCoercePasswordMessage
         else if name = ''InvalidSASLState'' then InvalidSASLState
         else if name = ''UnsupportedCertificateSignatureAlgorithm'' then UnsupportedCertificateSignatureAlgorithm
         else if name = ''UserNameRequired'' then UserNameRequired
         else if name = ''NotReadyForQuery'' then NotReadyForQuery
         else if name = ''QueryCanceled'' then QueryCanceled
         else if name = ''PortalNotStarted'' then PortalNotStarted
         else if name = ''UnsupportedSASLAuthMethod'' then UnsupportedSASLAuthMethod payload
         else if name = ''PortalNotFound'' then PortalNotFound payload
         else if name = ''StatementNotFound'' then StatementNotFound payload
         else if name = ''InvalidRustTypeForParameter'' then InvalidRustTypeForParameter payload
         else if name = ''InvalidScramMessage'' then InvalidScramMessage payload
         else if name = ''InvalidPassword'' then InvalidPassword payload
         else if name = ''InvalidOptionValue'' then InvalidOptionValue payload
         else if name = ''InvalidOauthMessage'' then InvalidOauthMessage payload
         else if name = ''OAuthAuthenticationFailed'' then OAuthAuthenticationFailed payload
         else if name = ''OAuthValidationError'' then OAuthValidationError payload
         else if name = ''OauthAuthzIdError'' then OauthAuthzIdError payload
         else ApiError msg)"

section \<open>Test helpers of the module\<close>

text \<open>\<open>_test_raise_for\<close> always raises: its result is the exception.\<close>

definition test_raise_for :: "py_runtime \<Rightarrow> string \<Rightarrow> py_err" where
  "test_raise_for r variant =
     (case map_of

         [(''UnsupportedProtocolVersion'', UnsupportedProtocolVersion 3 4),
          (''InvalidCancelRequest'', InvalidCancelRequest),
          (''InvalidSecretKey'', InvalidSecretKey),
          (''InvalidMessageType'', InvalidMessageType 0xFF),
          (''MessageTooLarge'', MessageTooLarge 1024 2048),
          (''InvalidElementCount'', InvalidElementCount 3 12 4),
          (''InvalidTargetType'', InvalidTargetType 0xFF),
          (''InvalidTransactionStatus'', InvalidTransactionStatus 0xFF),
          (''InvalidSSLRequestMessage'', InvalidSSLRequestMessage),
          (''InvalidGssEncRequestMessage'', InvalidGssEncRequestMessage),
          (''InvalidStartupMessage'', InvalidStartupMessage),
          (''InvalidAuthenticationMessageCode'', InvalidAuthenticationMessageCode (-1)),
          (''FailedToCoercePasswordMessage'', FailedToCoercePasswordMessage),
          (''InvalidSASLState'', InvalidSASLState),
          (''UnsupportedSASLAuthMethod'', UnsupportedSASLAuthMethod ''test''),
          (''IoError'', IoError ''test io error''),
          (''PortalNotFound'', PortalNotFound ''p''),
          (''PortalNotStarted'', PortalNotStarted),
          (''StatementNotFound'', StatementNotFound ''s''),
          (''ParameterIndexOutOfBound'', ParameterIndexOutOfBound 7),
          (''InvalidRustTypeForParameter'', InvalidRustTypeForParameter ''text''),
          (''FailedToParseParameter'', FailedToParseParameter ''parse''),
          (''InvalidScramMessage'', InvalidScramMessage ''bad nonce''),
          (''InvalidPassword'', InvalidPassword ''alice''),
          (''UnsupportedCertificateSignatureAlgorithm'', UnsupportedCertificateSignatureAlgorithm),
          (''UserNameRequired'', UserNameRequired),
          (''NotReadyForQuery'', NotReadyForQuery),
          (''QueryCanceled'', QueryCanceled),
          (''InvalidOptionValue'', InvalidOptionValue ''opt''),
          (''InvalidOauthMessage'', InvalidOauthMessage ''m''),
          (''OAuthAuthenticationFailed'', OAuthAuthenticationFailed ''m''),
          (''OAuthValidationError'', OAuthValidationError ''m''),
          (''OauthAuthzIdError'', OauthAuthzIdError ''m''),
          (''ApiError'', ApiError ''api''),
          (''UserError'', UserError (error_info_new ''ERROR'' ''22000'' ''user-defined''))] variant of
        Some err \<Rightarrow> pywire_to_py_err r err
      | None \<Rightarrow> New_err Py_ValueError (''unknown variant for test: '' @ variant))"

definition test_py_err_to_pywire_tag :: "py_runtime \<Rightarrow> py_err \<Rightarrow> string" where
  "test_py_err_to_pywire_tag r e =
     (case py_err_to_pywire r e of

        InvalidCancelRequest \<Rightarrow> ''InvalidCancelRequest''
      | InvalidSecretKey \<Rightarrow> ''InvalidSecretKey''
      | InvalidSSLRequestMessage \<Rightarrow> ''InvalidSSLRequestMessage''
      | InvalidGssEncRequestMessage \<Rightarrow> ''InvalidGssEncRequestMessage''
      | InvalidStartupMessage \<Rightarrow> ''InvalidStartupMessage''
      | FailedToCoercePasswordMessage \<Rightarrow> ''FailedToCoercePasswordMessage''
      | InvalidSASLState \<Rightarrow> ''InvalidSASLState''
      | UnsupportedCertificateSignatureAlgorithm \<Rightarrow> ''UnsupportedCertificateSignatureAlgorithm''
      | UserNameRequired \<Rightarrow> ''UserNameRequired''
      | NotReadyForQuery \<Rightarrow> ''NotReadyForQuery''
      | QueryCanceled \<Rightarrow> ''QueryCanceled''
      | PortalNotStarted \<Rightarrow> ''PortalNotStarted''
      | UnsupportedSASLAuthMethod _ \<Rightarrow> ''UnsupportedSASLAuthMethod''
      | PortalNotFound _ \<Rightarrow> ''PortalNotFound''
      | StatementNotFound _ \<Rightarrow> ''StatementNotFound''
      | InvalidRustTypeForParameter _ \<Rightarrow> ''InvalidRustTypeForParameter''
      | InvalidScramMessage _ \<Rightarrow> ''InvalidScramMessage''
      | InvalidPassword _ \<Rightarrow> ''InvalidPassword''
      | InvalidOptionValue _ \<Rightarrow> ''InvalidOptionValue''
      | InvalidOauthMessage _ \<Rightarrow> ''InvalidOauthMessage''
      | OAuthAuthenticationFailed _ \<Rightarrow> ''OAuthAuthenticationFailed''
      | OAuthValidationError _ \<Rightarrow> ''OAuthValidationError''
      | OauthAuthzIdError _ \<Rightarrow> ''OauthAuthzIdError''
      | _ \<Rightarrow> ''ApiError'')"

section \<open>Translation back and forth\<close>

text \<open>
  Specification of \<open>py_err_to_pywire\<close> on exceptions of known classes: twelve variants carry
  nothing, eleven carry the text of the exception, everything else becomes an \<open>ApiError\<close>.
\<close>

fun from_class :: "exc_class \<Rightarrow> string \<Rightarrow> pgwire_error" where
  "from_class Exc_InvalidCancelRequest m = InvalidCancelRequest"
| "from_class Exc_InvalidSecretKey m = InvalidSecretKey"
| "from_class Exc_InvalidSSLRequestMessage m = InvalidSSLRequestMessage"
| "from_class Exc_InvalidGssEncRequestMessage m = InvalidGssEncRequestMessage"
| "from_class Exc_InvalidStartupMessage m = InvalidStartupMessage"
| "from_class Exc_FailedToCoercePasswordMessage m = FailedToCoercePasswordMessage"
| "from_class Exc_InvalidSASLState m = InvalidSASLState"
| "from_class Exc_UnsupportedCertificateSignatureAlgorithm m = UnsupportedCertificateSignatureAlgorithm"
| "from_class Exc_UserNameRequired m = UserNameRequired"
| "from_class Exc_NotReadyForQuery m = NotReadyForQuery"
| "from_class Exc_QueryCanceled m = QueryCanceled"
| "from_class Exc_PortalNotStarted m = PortalNotStarted"
| "from_class Exc_UnsupportedSASLAuthMethod m = UnsupportedSASLAuthMethod m"
| "from_class Exc_PortalNotFound m = PortalNotFound m"
| "from_class Exc_StatementNotFound m = StatementNotFound m"
| "from_class Exc_InvalidRustTypeForParameter m = InvalidRustTypeForParameter m"
| "from_class Exc_InvalidScramMessage m = InvalidScramMessage m"
| "from_class Exc_InvalidPassword m = InvalidPassword m"
| "from_class Exc_InvalidOptionValue m = InvalidOptionValue m"
| "from_class Exc_InvalidOauthMessage m = InvalidOauthMessage m"
| "from_class Exc_OAuthAuthenticationFailed m = OAuthAuthenticationFailed m"
| "from_class Exc_OAuthValidationError m = OAuthValidationError m"
| "from_class Exc_OauthAuthzIdError m = OauthAuthzIdError m"
| "from_class c m = ApiError (exc_name c @ '': '' @ m)"

fun exc_of :: "pgwire_error \<Rightarrow> exc_class" where
  "exc_of (UnsupportedProtocolVersion _ _) = Exc_UnsupportedProtocolVersion"
| "exc_of InvalidCancelRequest = Exc_InvalidCancelRequest"
| "exc_of InvalidSecretKey = Exc_InvalidSecretKey"
| "exc_of (InvalidMessageType _) = Exc_InvalidMessageType"
| "exc_of (MessageTooLarge _ _) = Exc_MessageTooLarge"
| "exc_of (InvalidElementCount _ _ _) = Exc_InvalidElementCount"
| "exc_of (InvalidTargetType _) = Exc_InvalidTargetType"
| "exc_of (InvalidTransactionStatus _) = Exc_InvalidTransactionStatus"
| "exc_of InvalidSSLRequestMessage = Exc_InvalidSSLRequestMessage"
| "exc_of InvalidGssEncRequestMessage = Exc_InvalidGssEncRequestMessage"
| "exc_of InvalidStartupMessage = Exc_InvalidStartupMessage"
| "exc_of (InvalidAuthenticationMessageCode _) = Exc_InvalidAuthenticationMessageCode"
| "exc_of FailedToCoercePasswordMessage = Exc_FailedToCoercePasswordMessage"
| "exc_of InvalidSASLState = Exc_InvalidSASLState"
| "exc_of (UnsupportedSASLAuthMethod _) = Exc_UnsupportedSASLAuthMethod"
| "exc_of (IoError io) = Py_OSError"
| "exc_of (PortalNotFound _) = Exc_PortalNotFound"
| "exc_of PortalNotStarted = Exc_PortalNotStarted"
| "exc_of (StatementNotFound _) = Exc_StatementNotFound"
| "exc_of (ParameterIndexOutOfBound _) = Exc_ParameterIndexOutOfBound"
| "exc_of (InvalidRustTypeForParameter _) = Exc_InvalidRustTypeForParameter"
| "exc_of (FailedToParseParameter _) = Exc_FailedToParseParameter"
| "exc_of (InvalidScramMessage _) = Exc_InvalidScramMessage"
| "exc_of (InvalidPassword _) = Exc_InvalidPassword"
| "exc_of UnsupportedCertificateSignatureAlgorithm = Exc_UnsupportedCertificateSignatureAlgorithm"
| "exc_of UserNameRequired = Exc_UserNameRequired"
| "exc_of NotReadyForQuery = Exc_NotReadyForQuery"
| "exc_of QueryCanceled = Exc_QueryCanceled"
| "exc_of (InvalidOptionValue _) = Exc_InvalidOptionValue"
| "exc_of (InvalidOauthMessage _) = Exc_InvalidOauthMessage"
| "exc_of (OAuthAuthenticationFailed _) = Exc_OAuthAuthenticationFailed"
| "exc_of (OAuthValidationError _) = Exc_OAuthValidationError"
| "exc_of (OauthAuthzIdError _) = Exc_OauthAuthzIdError"
| "exc_of (ApiError _) = Exc_ApiError"
| "exc_of (UserError _) = Exc_UserError"

fun exc_text :: "py_runtime \<Rightarrow> pgwire_error \<Rightarrow> string" where
  "exc_text r (IoError io) = io"
| "exc_text r e = rt_display r e"

lemma pywire_to_py_err_eq: "pywire_to_py_err r e = New_err (exc_of e) (exc_text r e)"
  by (cases e) (simp_all add: pywire_to_py_err_def Let_def)

lemma strip_own_name: "strip_prefix (p @ q) (p @ q @ m) = Some m"
  using strip_prefix_append [of "p @ q" m] by simp

lemma py_err_to_pywire_new_err:
  "pyo3_formats r \<Longrightarrow> py_err_to_pywire r (New_err c m) = from_class c m"
  by (cases c) (simp_all add: py_err_to_pywire_def pyo3_formats_def Let_def strip_own_name
    del: append.simps strip_prefix.simps)

text \<open>The classes whose variant a Python exception can be turned into.\<close>

definition restorable :: "exc_class list" where
  "restorable =
     [Exc_InvalidCancelRequest, Exc_InvalidSecretKey, Exc_InvalidSSLRequestMessage,
      Exc_InvalidGssEncRequestMessage, Exc_InvalidStartupMessage,
      Exc_FailedToCoercePasswordMessage, Exc_InvalidSASLState,
      Exc_UnsupportedCertificateSignatureAlgorithm, Exc_UserNameRequired, Exc_NotReadyForQuery,
      Exc_QueryCanceled, Exc_PortalNotStarted, Exc_UnsupportedSASLAuthMethod, Exc_PortalNotFound,
      Exc_StatementNotFound, Exc_InvalidRustTypeForParameter, Exc_InvalidScramMessage,
      Exc_InvalidPassword, Exc_InvalidOptionValue, Exc_InvalidOauthMessage,
      Exc_OAuthAuthenticationFailed, Exc_OAuthValidationError, Exc_OauthAuthzIdError]"

lemma from_class_exc_of: "c \<in> set restorable \<Longrightarrow> exc_of (from_class c m) = c"
  by (cases c) (simp_all add: restorable_def)

lemma from_class_other: "c \<notin> set restorable \<Longrightarrow> from_class c m = ApiError (exc_name c @ '': '' @ m)"
  by (cases c) (simp_all add: restorable_def)

text \<open>An exception of no known class keeps its whole text in an \<open>ApiError\<close>.\<close>

lemma py_err_to_pywire_foreign:
  assumes "rt_qualname r e = Some n" and "n \<notin> exc_name ` set restorable"
  shows "py_err_to_pywire r e = ApiError (rt_to_string r e)"
  using assms by (simp add: py_err_to_pywire_def restorable_def Let_def)

lemma exc_of_instance: "is_instance (exc_of e) Exc_Error \<longleftrightarrow> (\<forall>io. e \<noteq> IoError io)"
  by (cases e) (simp_all add: is_instance_def numeral_eq_Suc)

lemma exc_of_registered: "exc_of e \<in> set (Py_OSError # registered)"
  by (cases e) (simp_all add: registered_def)


definition sample_runtime :: py_runtime where
  "sample_runtime =
     \<lparr>rt_display = (\<lambda>_. ''pgwire error''),
      rt_qualname = (\<lambda>e. case e of New_err c m \<Rightarrow> Some (exc_name c) | Py_exc n \<Rightarrow> Some ''KeyError''),
      rt_to_string = (\<lambda>e. case e of New_err c m \<Rightarrow> exc_name c @ '': '' @ m | Py_exc n \<Rightarrow> ''KeyError: x''),
      rt_stop_iteration = (\<lambda>e. e = Py_exc 0)\<rparr>"

lemma sample_runtime_exc [simp]:
  "rt_qualname sample_runtime (Py_exc n) = Some ''KeyError''"
  "rt_to_string sample_runtime (Py_exc n) = ''KeyError: x''"
  by (simp_all add: sample_runtime_def)

lemma sample_runtime_ok: "pyo3_formats sample_runtime"
  by (simp add: pyo3_formats_def sample_runtime_def)


text \<open>C35: A handler that raises one of the exception classes of the binding with a message gets
  the variant of that name on the wire, with exactly its message where the variant carries a text;
  any other exception, whatever its class, becomes an \<open>ApiError\<close> with the whole text of the
  exception.\<close>

theorem raised_exception_reaches_wire:
  assumes "pyo3_formats r"
    and "rt_qualname r e = Some n" and "n \<notin> exc_name ` set restorable"
  shows "py_err_to_pywire r (New_err c m) = from_class c m \<and>
         py_err_to_pywire r e = ApiError (rt_to_string r e)"
  using assms by (simp add: py_err_to_pywire_new_err py_err_to_pywire_foreign)

lemma raised_exception_reaches_wire_witness:
  "py_err_to_pywire sample_runtime (New_err Exc_InvalidPassword ''bob'') = InvalidPassword ''bob'' \<and>
   py_err_to_pywire sample_runtime (Py_exc 7) = ApiError ''KeyError: x''"
  using raised_exception_reaches_wire
    [OF sample_runtime_ok, of "Py_exc 7" "''KeyError''" Exc_InvalidPassword "''bob''"]
  by (simp add: restorable_def)


text \<open>The field set of an error response survives the way from pgwire to the Python class and
  back, and the way from the Python class to pgwire and back, with all eighteen fields.\<close>

theorem error_info_round_trip:
  "pg_error_info_of_py (py_error_info_of_pg e) = e \<and> py_error_info_of_pg (pg_error_info_of_py p) = p"
  by (simp add: pg_error_info_of_py_def py_error_info_of_pg_def error_info_new_def Let_def)

text \<open>The test helpers: the tag of a translated exception is its class name or \<open>ApiError\<close>, and
  each known variant name raises the exception of that class.\<close>

lemma tag_of_new_err:
  assumes "pyo3_formats r"
  shows "test_py_err_to_pywire_tag r (New_err c m) =
    (if c \<in> set restorable then exc_name c else ''ApiError'')"
  using assms
  by (cases c) (simp_all add: test_py_err_to_pywire_tag_def py_err_to_pywire_new_err restorable_def)

lemma test_raise_for_class:
  "c \<in> set (tl (tl registered)) - {Exc_AuthError} \<Longrightarrow> \<exists>m. test_raise_for r (exc_name c) = New_err c m"
  by (cases c) (simp_all add: registered_def test_raise_for_def pywire_to_py_err_eq)

end
