(* ===== verification/Auth.thy ===== *)
theory Auth
  imports Errors
begin

text \<open>
  The data of \<open>src/auth.rs\<close>: who logs in, the password material a Python \<open>AuthSource\<close> returns, and
  their printed forms. The calls into Python are in the theory Bridge.
\<close>

section \<open>LoginInfo\<close>

record login_info =
  li_user :: "string option"
  li_database :: "string option"
  li_host :: string

text \<open>What pgwire's \<open>LoginInfo\<close> gives: the user and database of the startup message and the host.\<close>

record pg_login_info =
  pgl_user :: "string option"
  pgl_database :: "string option"
  pgl_host :: string

definition login_info_new :: "string option \<Rightarrow> string option \<Rightarrow> string option \<Rightarrow> login_info" where
  "login_info_new user database host =
     \<lparr>li_user = user, li_database = database,
      li_host = (case host of None \<Rightarrow> ''127.0.0.1'' | Some h \<Rightarrow> h)\<rparr>"

definition login_info_repr :: "(nat \<Rightarrow> bool) \<Rightarrow> login_info \<Rightarrow> string" where
  "login_info_repr escaped l =
     ''LoginInfo(user='' @ debug_opt_str escaped (li_user l) @
     '', database='' @ debug_opt_str escaped (li_database l) @
     '', host='' @ debug_str escaped (li_host l) @ '')''"

definition login_info_from_pg :: "pg_login_info \<Rightarrow> login_info" where
  "login_info_from_pg info =
     \<lparr>li_user = pgl_user info, li_database = pgl_database info, li_host = pgl_host info\<rparr>"

section \<open>Password\<close>

record py_password =
  pw_password :: bytes
  pw_salt :: "bytes option"

record pg_password =
  pgp_salt :: "bytes option"
  pgp_password :: bytes

definition password_new :: "bytes \<Rightarrow> bytes option \<Rightarrow> py_password" where
  "password_new password salt = \<lparr>pw_password = password, pw_salt = salt\<rparr>"

definition password_repr :: "py_password \<Rightarrow> string" where
  "password_repr p =
     (let salted = (if pw_salt p \<noteq> None then ''salted'' else ''cleartext'')
      in ''Password(<'' @ salted @ '' '' @ show_nat (length (pw_password p)) @ ''-byte password>)'')"

text \<open>\<open>From<PyPassword> for PgPassword\<close>: note the order of the constructor's arguments.\<close>

definition pg_password_of_py :: "py_password \<Rightarrow> pg_password" where
  "pg_password_of_py p = \<lparr>pgp_salt = pw_salt p, pgp_password = pw_password p\<rparr>"

lemma pg_password_fields [simp]:
  "pgp_salt (pg_password_of_py p) = pw_salt p"
  "pgp_password (pg_password_of_py p) = pw_password p"
  by (simp_all add: pg_password_of_py_def)

text \<open>The printed form of a password says nothing of its bytes or its salt: it is the same for
  any two passwords of one length that are both salted or both not.\<close>

theorem password_repr_hides_secret:
  assumes "length (pw_password p) = length (pw_password q)" and "pw_salt p = None \<longleftrightarrow> pw_salt q = None"
  shows "password_repr p = password_repr q"
  using assms by (simp add: password_repr_def)

lemma password_repr_hides_secret_witness:
  "password_repr (password_new [1, 2] (Some [3])) = password_repr (password_new [7, 9] (Some [4, 5]))"
  by (rule password_repr_hides_secret) (simp_all add: password_new_def)

end
