(* ===== verification/Query.thy ===== *)
theory Query
  imports Errors
begin

text \<open>
  The data of \<open>src/query.rs\<close>: column metadata, responses, the encoding of a row on the wire, and
  the conversion of a Python response into pgwire's. The calls into Python (\<open>do_query\<close>, the rows
  of a stream) are in the theory Bridge.
\<close>

type_synonym pyobj = nat

section \<open>FieldInfo\<close>

record py_field_info =
  fi_name :: string
  fi_type_id :: u32
  fi_format :: i16

definition field_info_new :: "string \<Rightarrow> u32 \<Rightarrow> i16 \<Rightarrow> py_err + py_field_info" where
  "field_info_new name type_id format =
     (if \<not> (format = 0 \<or> format = 1)
      then Inl (New_err Py_ValueError ''format must be 0 (text) or 1 (binary)'')
      else Inr \<lparr>fi_name = name, fi_type_id = type_id, fi_format = format\<rparr>)"

definition field_info_repr :: "(nat \<Rightarrow> bool) \<Rightarrow> py_field_info \<Rightarrow> string" where
  "field_info_repr escaped f =
     ''FieldInfo(name='' @ debug_str escaped (fi_name f) @ '', type_id='' @ show_u32 (fi_type_id f) @
     '', format='' @ show_i16 (fi_format f) @ '')''"

text \<open>
  A type of postgres-types: its OID and name. The built-in types, which \<open>Type::from_oid\<close> looks up,
  are a parameter; \<open>Type::new\<close> makes a type with the given OID.
\<close>

record pg_type =
  ty_name :: string
  ty_oid :: u32
  ty_schema :: string

record type_table =
  tt_from_oid :: "u32 \<Rightarrow> pg_type option"
  tt_unknown :: pg_type

definition type_table_ok :: "type_table \<Rightarrow> bool" where
  "type_table_ok tt \<longleftrightarrow> (\<forall>oid t. tt_from_oid tt oid = Some t \<longrightarrow> ty_oid t = oid)"

datatype field_format = Text | Binary

record pg_field_info =
  pgf_name :: string
  pgf_table_id :: "i32 option"
  pgf_column_id :: "i16 option"
  pgf_datatype :: pg_type
  pgf_format :: field_format

definition pg_field_info_of_py :: "type_table \<Rightarrow> py_field_info \<Rightarrow> pg_field_info" where
  "pg_field_info_of_py tt f =
     (let datatype =
            (case tt_from_oid tt (fi_type_id f) of
               Some t \<Rightarrow> t
             | None \<Rightarrow> \<lparr>ty_name = ''oid'' @ show_u32 (fi_type_id f), ty_oid = fi_type_id f,
                        ty_schema = ''pg_catalog''\<rparr>);
          format = (if fi_format f = 1 then Binary else Text)
      in \<lparr>pgf_name = fi_name f, pgf_table_id = None, pgf_column_id = None,
          pgf_datatype = datatype, pgf_format = format\<rparr>)"

section \<open>Responses\<close>

datatype transaction_effect = Start | End

record query_inner =
  q_fields :: "py_field_info list"
  q_rows :: "bytes option list list"
  q_command_tag :: string

record stream_inner =
  s_fields :: "py_field_info list"
  s_rows :: pyobj
  s_command_tag :: string

datatype py_response =
    Resp_Empty
  | Resp_Execution string "u32 option" "nat option" "transaction_effect option"
  | Resp_Query query_inner
  | Resp_Stream stream_inner
  | Resp_Error py_error_info

definition response_execution ::
  "(nat \<Rightarrow> bool) \<Rightarrow> string \<Rightarrow> u32 option \<Rightarrow> nat option \<Rightarrow> string option \<Rightarrow> py_err + py_response" where
  "response_execution escaped command oid rows transaction =
     (case transaction of
        None \<Rightarrow> Inr (Resp_Execution command oid rows None)
      | Some value \<Rightarrow>
          if value = ''start'' then Inr (Resp_Execution command oid rows (Some Start))
          else if value = ''end'' then Inr (Resp_Execution command oid rows (Some End))
          else Inl (New_err Py_ValueError
            (''transaction must be '' @ [CHR 0x27] @ ''start'' @ [CHR 0x27] @ '' or '' @ [CHR 0x27] @ ''end'' @
             [CHR 0x27] @ '', got '' @ debug_str escaped value)))"

definition response_query :: "py_field_info list \<Rightarrow> bytes option list list \<Rightarrow> string option \<Rightarrow> py_response" where
  "response_query flds rows command_tag =
     Resp_Query \<lparr>q_fields = flds, q_rows = rows,
                 q_command_tag = (case command_tag of None \<Rightarrow> ''SELECT'' | Some t \<Rightarrow> t)\<rparr>"

definition response_stream :: "py_field_info list \<Rightarrow> pyobj \<Rightarrow> string option \<Rightarrow> py_response" where
  "response_stream flds rows command_tag =
     Resp_Stream \<lparr>s_fields = flds, s_rows = rows,
                  s_command_tag = (case command_tag of None \<Rightarrow> ''SELECT'' | Some t \<Rightarrow> t)\<rparr>"

fun response_kind :: "py_response \<Rightarrow> string" where
  "response_kind Resp_Empty = ''empty''"
| "response_kind (Resp_Execution _ _ _ _) = ''execution''"
| "response_kind (Resp_Query _) = ''query''"
| "response_kind (Resp_Stream _) = ''stream''"
| "response_kind (Resp_Error _) = ''error''"

definition response_empty :: py_response where
  "response_empty = Resp_Empty"

definition response_error :: "py_error_info \<Rightarrow> py_response" where
  "response_error info = Resp_Error info"

text \<open>\<open>{:?}\<close> of an \<open>Option\<close>, given the printed form of its content.\<close>

definition debug_option :: "string option \<Rightarrow> string" where
  "debug_option s = (case s of None \<Rightarrow> ''None'' | Some t \<Rightarrow> ''Some('' @ t @ '')'')"

fun effect_name :: "transaction_effect \<Rightarrow> string" where
  "effect_name Start = ''Start''"
| "effect_name End = ''End''"

fun response_repr :: "(nat \<Rightarrow> bool) \<Rightarrow> py_response \<Rightarrow> string" where
  "response_repr esc Resp_Empty = ''Response.empty()''"
| "response_repr esc (Resp_Execution command oid rows transaction) =
     ''Response.execution(command='' @ debug_str esc command @
     '', oid='' @ debug_option (map_option show_u32 oid) @
     '', rows='' @ debug_option (map_option show_nat rows) @
     '', transaction='' @ debug_option (map_option effect_name transaction) @ '')''"
| "response_repr esc (Resp_Query q) =
     ''Response.query(command_tag='' @ debug_str esc (q_command_tag q) @
     '', fields='' @ show_nat (length (q_fields q)) @ '', rows='' @ show_nat (length (q_rows q)) @ '')''"
| "response_repr esc (Resp_Stream q) =
     ''Response.stream(command_tag='' @ debug_str esc (s_command_tag q) @
     '', fields='' @ show_nat (length (s_fields q)) @ '')''"
| "response_repr esc (Resp_Error info) = ''Response.error(...)''"

text \<open>The summary that the test helper \<open>_test_drive_handler\<close> makes of a response.\<close>

fun drive_summary :: "py_response \<Rightarrow> string" where
  "drive_summary Resp_Empty = []"
| "drive_summary (Resp_Execution command oid rows transaction) =
     command @ (case oid of None \<Rightarrow> [] | Some oid \<Rightarrow> '' oid='' @ show_u32 oid) @
     (case rows of None \<Rightarrow> [] | Some rows \<Rightarrow> '' rows='' @ show_nat rows)"
| "drive_summary (Resp_Query q) =
     ''tag='' @ q_command_tag q @ '' fields='' @ show_nat (length (q_fields q)) @
     '' rows='' @ show_nat (length (q_rows q))"
| "drive_summary (Resp_Stream q) =
     ''tag='' @ s_command_tag q @ '' fields='' @ show_nat (length (s_fields q)) @ '' stream''"
| "drive_summary (Resp_Error info) =
     pei_severity info @ ''/'' @ pei_code info @ ''/'' @ pei_message info"

section \<open>Rows on the wire\<close>

text \<open>Big-endian bytes of a 32-bit value (\<open>put_i32\<close>), and the value of four bytes.\<close>

definition be32 :: "32 word \<Rightarrow> bytes" where
  "be32 w = (let n = unat w in map (\<lambda>k. of_nat (n div k)) [16777216, 65536, 256, 1])"

definition be32_value :: "bytes \<Rightarrow> 32 word" where
  "be32_value b = of_nat (foldl (\<lambda>n x. n * 256 + unat x) 0 b)"

record pg_data_row =
  dr_data :: bytes
  dr_field_count :: i16

fun encode_cell :: "bytes option \<Rightarrow> bytes" where
  "encode_cell None = be32 (-1)"
| "encode_cell (Some b) = be32 (of_nat (length b)) @ b"

text \<open>The casts \<open>as i32\<close> and \<open>as i16\<close> keep the low bits.\<close>

definition encode_data_row :: "bytes option list \<Rightarrow> pg_data_row" where
  "encode_data_row cells =
     \<lparr>dr_data = concat (map encode_cell cells), dr_field_count = of_nat (length cells)\<rparr>"

section \<open>Conversion into pgwire's response\<close>

record pg_tag =
  tag_command :: string
  tag_oid :: "u32 option"
  tag_rows :: "nat option"

text \<open>
  The rows of a query are an iterator over finished results, or the state of the \<open>stream::unfold\<close>:
  the Python iterator, or nothing once the stream has ended.
\<close>

datatype row_stream = Rows "(pgwire_error + pg_data_row) list" | Unfold "pyobj option"

record pg_query_response =
  qr_fields :: "pg_field_info list"
  qr_stream :: row_stream
  qr_command_tag :: string

datatype pg_response =
    EmptyQuery
  | Execution pg_tag
  | TransactionStart pg_tag
  | TransactionEnd pg_tag
  | Query_Response pg_query_response
  | Error_Response error_info

definition is_transaction_end :: "pg_response \<Rightarrow> bool" where
  "is_transaction_end r = (case r of TransactionEnd _ \<Rightarrow> True | _ \<Rightarrow> False)"

fun into_pg :: "type_table \<Rightarrow> py_response \<Rightarrow> pg_response" where
  "into_pg tt Resp_Empty = EmptyQuery"
| "into_pg tt (Resp_Execution command oid rows transaction) =
     (let tag = \<lparr>tag_command = command, tag_oid = None, tag_rows = None\<rparr>;
          tag = (case oid of Some oid \<Rightarrow> tag\<lparr>tag_oid := Some oid\<rparr> | None \<Rightarrow> tag);
          tag = (case rows of Some rows \<Rightarrow> tag\<lparr>tag_rows := Some rows\<rparr> | None \<Rightarrow> tag)
      in case transaction of
           Some Start \<Rightarrow> TransactionStart tag
         | Some End \<Rightarrow> TransactionEnd tag
         | None \<Rightarrow> Execution tag)"
| "into_pg tt (Resp_Query q) =
     Query_Response \<lparr>qr_fields = map (pg_field_info_of_py tt) (q_fields q),
                     qr_stream = Rows (map (\<lambda>cells. Inr (encode_data_row cells)) (q_rows q)),
                     qr_command_tag = q_command_tag q\<rparr>"
| "into_pg tt (Resp_Stream q) =
     Query_Response \<lparr>qr_fields = map (pg_field_info_of_py tt) (s_fields q),
                     qr_stream = Unfold (Some (s_rows q)),
                     qr_command_tag = s_command_tag q\<rparr>"
| "into_pg tt (Resp_Error info) = Error_Response (pg_error_info_of_py info)"

section \<open>Properties\<close>

text \<open>The fields of a \<open>FieldInfo\<close> that its constructor accepts.\<close>

definition field_info_ok :: "py_field_info \<Rightarrow> bool" where
  "field_info_ok f \<longleftrightarrow> fi_format f = 0 \<or> fi_format f = 1"

lemma field_info_new_ok: "field_info_new n t f = Inr i \<Longrightarrow> field_info_ok i"
  by (auto simp: field_info_new_def field_info_ok_def split: if_splits)

text \<open>A column the constructor accepts keeps its name, its type OID (also one that the table of
  built-in types does not know) and its format code on the way to pgwire.\<close>

theorem field_info_keeps_oid:
  assumes "type_table_ok tt" and "field_info_new name oid format = Inr f"
  shows "pgf_name (pg_field_info_of_py tt f) = name \<and>
         ty_oid (pgf_datatype (pg_field_info_of_py tt f)) = oid \<and>
         (pgf_format (pg_field_info_of_py tt f) = Binary \<longleftrightarrow> format = 1) \<and>
         (pgf_format (pg_field_info_of_py tt f) = Text \<longleftrightarrow> format = 0)"
  using assms
  by (auto simp: field_info_new_def pg_field_info_of_py_def type_table_ok_def Let_def
      split: if_splits option.splits)

definition sample_types :: type_table where
  "sample_types =
     \<lparr>tt_from_oid = (\<lambda>oid. if oid = 23 then Some \<lparr>ty_name = ''int4'', ty_oid = 23, ty_schema = ''pg_catalog''\<rparr>
                          else None),
      tt_unknown = \<lparr>ty_name = ''unknown'', ty_oid = 705, ty_schema = ''pg_catalog''\<rparr>\<rparr>"

lemma sample_types_ok: "type_table_ok sample_types"
  by (simp add: type_table_ok_def sample_types_def)

lemma field_info_keeps_oid_witness:
  "ty_oid (pgf_datatype (pg_field_info_of_py sample_types
     \<lparr>fi_name = ''custom'', fi_type_id = 99999, fi_format = 1\<rparr>)) = 99999"
  using field_info_keeps_oid [OF sample_types_ok, of "''custom''" 99999 1
      "\<lparr>fi_name = ''custom'', fi_type_id = 99999, fi_format = 1\<rparr>"]
  by (simp add: field_info_new_def)

subsection \<open>The row encoding\<close>

lemma length_be32 [simp]: "length (be32 w) = 4"
  by (simp add: be32_def Let_def)

lemma be32_digits:
  fixes n :: nat
  assumes "n < 4294967296"
  shows "foldl (\<lambda>m x. m * 256 + unat x) 0
           (map (\<lambda>k. of_nat (n div k) :: u8) [16777216, 65536, 256, 1]) = n"
proof -
  have "n div 16777216 mod 256 = n div 256 div 256 div 256"
    using assms by (simp add: div_mult2_eq [symmetric])
  moreover have "n div 65536 = n div 256 div 256" by (simp add: div_mult2_eq [symmetric])
  ultimately show ?thesis by (simp add: unat_of_nat take_bit_nat_def)
qed

lemma be32_value_be32 [simp]: "be32_value (be32 w) = w"
proof -
  have "unat w < 4294967296" using unsigned_less [of w, where ?'a = nat] by simp
  then have "foldl (\<lambda>m x. m * 256 + unat x) 0 (be32 w) = unat w"
    unfolding be32_def Let_def by (rule be32_digits)
  then show ?thesis by (simp add: be32_value_def)
qed

text \<open>
  The \<open>DataRow\<close> format of the PostgreSQL protocol, as a reader: a field count, then for each field
  a signed length, \<open>-1\<close> for NULL, and that many bytes.
\<close>

fun read_cells :: "nat \<Rightarrow> bytes \<Rightarrow> bytes option list option" where
  "read_cells 0 b = (if b = [] then Some [] else None)"
| "read_cells (Suc n) b =
     (let len = sint (be32_value (take 4 b)); rest = drop 4 b
      in if length b < 4 then None
         else if len = -1 then map_option (Cons None) (read_cells n rest)
         else if len < 0 \<or> length rest < nat len then None
         else map_option (Cons (Some (take (nat len) rest))) (read_cells n (drop (nat len) rest)))"

definition read_data_row :: "pg_data_row \<Rightarrow> bytes option list option" where
  "read_data_row r =
     (if sint (dr_field_count r) < 0 then None
      else read_cells (nat (sint (dr_field_count r))) (dr_data r))"

lemma sint_of_nat32: "n < 2 ^ 31 \<Longrightarrow> sint (of_nat n :: 32 word) = int n"
  by (simp add: signed_of_nat signed_take_bit_int_eq_self)

lemma sint_of_nat16: "n < 2 ^ 15 \<Longrightarrow> sint (of_nat n :: 16 word) = int n"
  by (simp add: signed_of_nat signed_take_bit_int_eq_self)

definition cell_fits :: "bytes option \<Rightarrow> bool" where
  "cell_fits c = (case c of None \<Rightarrow> True | Some b \<Rightarrow> length b < 2 ^ 31)"

lemma read_cells_encode:
  "list_all cell_fits cells \<Longrightarrow>
   read_cells (length cells) (concat (map encode_cell cells)) = Some cells"
proof (induction cells)
  case Nil
  then show ?case by simp
next
  case (Cons c cells)
  then show ?case
    by (cases c) (simp_all add: cell_fits_def Let_def sint_of_nat32)
qed

text \<open>C29: A row with fewer than 32768 cells, each of less than two gigabytes, is read back from the
  wire by the protocol's rules as exactly the cells the Python handler gave, NULLs included.\<close>

theorem data_row_round_trip:
  assumes "length cells < 2 ^ 15" and "list_all cell_fits cells"
  shows "read_data_row (encode_data_row cells) = Some cells"
  using assms read_cells_encode [OF assms(2)]
  by (simp add: read_data_row_def encode_data_row_def sint_of_nat16)

lemma data_row_round_trip_witness:
  "read_data_row (encode_data_row [Some [97], None, Some [104, 105]]) = Some [Some [97], None, Some [104, 105]]"
  by (rule data_row_round_trip) (simp_all add: cell_fits_def)

text \<open>C38: The size of an encoded row is four bytes for each cell plus the bytes of the values, but
  the field count is kept in sixteen bits only: with 65536 cells the row says it has none.\<close>

theorem data_row_size_and_count:
  "length (dr_data (encode_data_row cells)) =
     (\<Sum>c\<leftarrow>cells. 4 + (case c of None \<Rightarrow> 0 | Some b \<Rightarrow> length b)) \<and>
   unat (dr_field_count (encode_data_row cells)) = length cells mod 65536"
proof -
  have "length (encode_cell c) = 4 + (case c of None \<Rightarrow> 0 | Some b \<Rightarrow> length b)" for c
    by (cases c) simp_all
  then have "length (concat (map encode_cell cells)) =
      (\<Sum>c\<leftarrow>cells. 4 + (case c of None \<Rightarrow> 0 | Some b \<Rightarrow> length b))"
    by (simp add: length_concat o_def)
  then show ?thesis by (simp add: encode_data_row_def unat_of_nat take_bit_nat_def)
qed

subsection \<open>Responses\<close>

text \<open>The transaction argument of \<open>Response.execution\<close> alone decides which transaction change
  reaches pgwire: \<open>start\<close>, \<open>end\<close> or none, whatever the command text says, and any other value is
  refused with a \<open>ValueError\<close>. The tag carries the command, OID and row count as given.\<close>

theorem execution_response:
  "(case response_execution escaped command oid rows transaction of
      Inl e \<Rightarrow> transaction \<notin> {None, Some ''start'', Some ''end''} \<and> (\<exists>m. e = New_err Py_ValueError m)
    | Inr r \<Rightarrow>
        (let tag = \<lparr>tag_command = command, tag_oid = oid, tag_rows = rows\<rparr>
         in (transaction = None \<and> into_pg tt r = Execution tag) \<or>
            (transaction = Some ''start'' \<and> into_pg tt r = TransactionStart tag) \<or>
            (transaction = Some ''end'' \<and> into_pg tt r = TransactionEnd tag)))"
  by (simp add: response_execution_def Let_def split: option.splits)

lemma into_pg_transaction_end:
  "is_transaction_end (into_pg tt r) \<longleftrightarrow> (\<exists>c o' n. r = Resp_Execution c o' n (Some End))"
  by (cases r) (auto simp: is_transaction_end_def Let_def
      split: option.splits transaction_effect.splits)

end
