(* ===== verification/Base64.thy ===== *)
theory Base64
  imports Prelude
begin

text \<open>
  Base64 with the standard alphabet and mandatory padding (RFC 4648, section 4): the documented
  function of the crate \<open>base64\<close>. The model takes it as a parameter; the definitions here are the
  reference instance on which the interface of the SCRAM exchange is interpreted.
\<close>

section \<open>Base64\<close>

definition b64_alphabet :: string where
  "b64_alphabet = ''ABCDEFGHIJKLMNOPQRSTUVWXYZabcdefghijklmnopqrstuvwxyz0123456789+/''"

definition b64_char :: "nat \<Rightarrow> char" where
  "b64_char n = b64_alphabet ! n"

definition b64_value :: "char \<Rightarrow> nat option" where
  "b64_value c = map_of (zip b64_alphabet [0..<64]) c"

fun b64_encode_nats :: "nat list \<Rightarrow> string" where
  "b64_encode_nats [] = []"
| "b64_encode_nats [a] = [b64_char (a div 4), b64_char (a mod 4 * 16), CHR ''='', CHR ''='']"
| "b64_encode_nats [a, b] =
     [b64_char (a div 4), b64_char (a mod 4 * 16 + b div 16), b64_char (b mod 16 * 4), CHR ''='']"
| "b64_encode_nats (a # b # c # r) =
     b64_char (a div 4) # b64_char (a mod 4 * 16 + b div 16) #
     b64_char (b mod 16 * 4 + c div 64) # b64_char (c mod 64) # b64_encode_nats r"

text \<open>The last group may be padded; the bits the padding drops must be zero.\<close>

definition b64_decode_last :: "char \<Rightarrow> char \<Rightarrow> char \<Rightarrow> char \<Rightarrow> nat list option" where
  "b64_decode_last w x y z =
     (case (b64_value w, b64_value x) of
        (Some i, Some j) \<Rightarrow>
          (if y = CHR ''='' then
             (if z = CHR ''='' \<and> j mod 16 = 0 then Some [i * 4 + j div 16] else None)
           else
             (case b64_value y of
                None \<Rightarrow> None
              | Some k \<Rightarrow>
                  if z = CHR ''='' then
                    (if k mod 4 = 0 then Some [i * 4 + j div 16, j mod 16 * 16 + k div 4] else None)
                  else
                    map_option (\<lambda>l. [i * 4 + j div 16, j mod 16 * 16 + k div 4, k mod 4 * 64 + l])
                      (b64_value z)))
      | _ \<Rightarrow> None)"

fun b64_decode_nats :: "string \<Rightarrow> nat list option" where
  "b64_decode_nats [] = Some []"
| "b64_decode_nats (w # x # y # z # r) =
     (if r = [] then b64_decode_last w x y z
      else
        (case (b64_value w, b64_value x, b64_value y, b64_value z) of
           (Some i, Some j, Some k, Some l) \<Rightarrow>
             map_option (\<lambda>d. (i * 4 + j div 16) # (j mod 16 * 16 + k div 4) # (k mod 4 * 64 + l) # d)
               (b64_decode_nats r)
         | _ \<Rightarrow> None))"
| "b64_decode_nats _ = None"

definition b64_encode :: "bytes \<Rightarrow> string" where
  "b64_encode b = b64_encode_nats (map unat b)"

definition b64_decode :: "string \<Rightarrow> bytes option" where
  "b64_decode s = map_option (map of_nat) (b64_decode_nats s)"

lemma b64_value_char [simp]: "n < 64 \<Longrightarrow> b64_value (b64_char n) = Some n"
proof -
  have "list_all (\<lambda>n. b64_value (b64_char n) = Some n) [0..<64]" by code_simp
  then show "n < 64 \<Longrightarrow> b64_value (b64_char n) = Some n" by (simp add: list_all_iff)
qed

lemma b64_char_not_pad [simp]: "n < 64 \<Longrightarrow> b64_char n \<noteq> CHR ''=''"
proof -
  have "b64_value CHR ''='' = None" by code_simp
  then show "n < 64 \<Longrightarrow> b64_char n \<noteq> CHR ''=''" by (metis b64_value_char option.distinct(1))
qed

lemma b64_decode_last_char:
  "i < 64 \<Longrightarrow> j < 64 \<Longrightarrow> k < 64 \<Longrightarrow> l < 64 \<Longrightarrow>
   b64_decode_last (b64_char i) (b64_char j) (b64_char k) (b64_char l) =
     Some [i * 4 + j div 16, j mod 16 * 16 + k div 4, k mod 4 * 64 + l]"
  by (simp add: b64_decode_last_def)

lemma b64_group:
  fixes a b c :: nat
  assumes "a < 256" "b < 256" "c < 256"
  shows "a div 4 < 64" "a mod 4 * 16 + b div 16 < 64" "b mod 16 * 4 + c div 64 < 64" "c mod 64 < 64"
    "a div 4 * 4 + (a mod 4 * 16 + b div 16) div 16 = a"
    "(a mod 4 * 16 + b div 16) mod 16 * 16 + (b mod 16 * 4 + c div 64) div 4 = b"
    "(b mod 16 * 4 + c div 64) mod 4 * 64 + c mod 64 = c"
proof -
  have b16: "b div 16 < 16" and c64: "c div 64 < 4" using assms by simp_all
  have a4: "a mod 4 \<le> 3" and bm: "b mod 16 \<le> 15" by (simp_all add: less_Suc_eq_le [symmetric])
  have x: "(a mod 4 * 16 + b div 16) div 16 = a mod 4" "(a mod 4 * 16 + b div 16) mod 16 = b div 16"
    using b16 by simp_all
  have y: "(b mod 16 * 4 + c div 64) div 4 = b mod 16" "(b mod 16 * 4 + c div 64) mod 4 = c div 64"
    using c64 by simp_all
  show "a div 4 < 64" "c mod 64 < 64" using assms by simp_all
  show "a mod 4 * 16 + b div 16 < 64" using a4 b16 by linarith
  show "b mod 16 * 4 + c div 64 < 64" using bm c64 by linarith
  show "a div 4 * 4 + (a mod 4 * 16 + b div 16) div 16 = a"
    "(a mod 4 * 16 + b div 16) mod 16 * 16 + (b mod 16 * 4 + c div 64) div 4 = b"
    "(b mod 16 * 4 + c div 64) mod 4 * 64 + c mod 64 = c"
    by (simp_all add: x y mod_less [OF b16] mod_less [OF c64])
qed

lemma b64_decode_encode_nats:
  "\<forall>x \<in> set b. x < 256 \<Longrightarrow> b64_decode_nats (b64_encode_nats b) = Some b"
proof (induction b rule: b64_encode_nats.induct)
  case 1
  then show ?case by simp
next
  case (2 a)
  then have "a < 256" by simp
  with b64_group [of a 0 0] show ?case by (simp add: b64_decode_last_def)
next
  case (3 a b)
  then have "a < 256" "b < 256" by simp_all
  with b64_group [of a b 0] show ?case by (simp add: b64_decode_last_def)
next
  case (4 a b c r)
  then have lt: "a < 256" "b < 256" "c < 256" and IH: "b64_decode_nats (b64_encode_nats r) = Some r"
    by simp_all
  note g = b64_group [OF lt]
  show ?case
  proof (cases "r = []")
    case True
    with g show ?thesis by (simp add: b64_decode_last_char)
  next
    case False
    then have "b64_encode_nats r \<noteq> []" by (cases r rule: b64_encode_nats.cases) auto
    with g IH show ?thesis by simp
  qed
qed

lemma b64_decode_encode [simp]: "b64_decode (b64_encode b) = Some b"
proof -
  have "unat x < 256" for x :: u8 using unsigned_less [of x, where ?'a = nat] by simp
  then show ?thesis
    using b64_decode_encode_nats [of "map unat b"]
    by (simp add: b64_decode_def b64_encode_def o_def)
qed

text \<open>The characters of an encoding: the alphabet and the padding.\<close>

lemma b64_encode_nats_chars:
  "\<forall>x \<in> set b. x < 256 \<Longrightarrow> set (b64_encode_nats b) \<subseteq> set (CHR ''='' # b64_alphabet)"
proof (induction b rule: b64_encode_nats.induct)
  case 1
  then show ?case by simp
next
  case (2 a)
  have "b64_char n \<in> set b64_alphabet" if "n < 64" for n
    using that unfolding b64_char_def by (intro nth_mem) (simp add: b64_alphabet_def)
  with 2 b64_group [of a 0 0] show ?case by simp
next
  case (3 a b)
  have "b64_char n \<in> set b64_alphabet" if "n < 64" for n
    using that unfolding b64_char_def by (intro nth_mem) (simp add: b64_alphabet_def)
  with 3 b64_group [of a b 0] show ?case by simp
next
  case (4 a b c r)
  have "b64_char n \<in> set b64_alphabet" if "n < 64" for n
    using that unfolding b64_char_def by (intro nth_mem) (simp add: b64_alphabet_def)
  with 4 b64_group [of a b c] show ?case by simp
qed

lemma b64_encode_chars: "c \<in> set (b64_encode b) \<Longrightarrow> c \<in> set (CHR ''='' # b64_alphabet)"
proof -
  have "unat x < 256" for x :: u8 using unsigned_less [of x, where ?'a = nat] by simp
  then show "c \<in> set (b64_encode b) \<Longrightarrow> c \<in> set (CHR ''='' # b64_alphabet)"
    using b64_encode_nats_chars [of "map unat b"] unfolding b64_encode_def by auto
qed

lemma b64_value_alphabet: "b64_value c = Some n \<Longrightarrow> c \<in> set b64_alphabet"
  unfolding b64_value_def by (auto dest!: map_of_SomeD set_zip_leftD)

lemma b64_decode_nats_chars:
  "b64_decode_nats s = Some d \<Longrightarrow> set s \<subseteq> set (CHR ''='' # b64_alphabet)"
proof (induction s arbitrary: d rule: b64_decode_nats.induct)
  case (2 w x y z r)
  show ?case
  proof (cases "r = []")
    case True
    with 2 show ?thesis
      by (auto simp: b64_decode_last_def dest: b64_value_alphabet split: option.splits if_splits)
  next
    case False
    with "2.prems" obtain i j k l d' where v: "b64_value w = Some i" "b64_value x = Some j"
      "b64_value y = Some k" "b64_value z = Some l" and d': "b64_decode_nats r = Some d'"
      by (auto split: option.splits)
    have "set r \<subseteq> set (CHR ''='' # b64_alphabet)"
      by (rule "2.IH" [OF False _ v(1) _ v(2) _ v(3) v(4) d']) simp_all
    with v show ?thesis by (auto dest: b64_value_alphabet)
  qed
qed auto

lemma b64_decode_chars: "b64_decode s = Some d \<Longrightarrow> set s \<subseteq> set (CHR ''='' # b64_alphabet)"
  unfolding b64_decode_def by (auto dest!: b64_decode_nats_chars)

end
