(* ===== verification/Sha256.thy ===== *)
theory Sha256
  imports Prelude
begin

text \<open>
  SHA-256 (FIPS 180-4) and HMAC with it (RFC 2104): the documented functions of the crate \<open>ring\<close>
  that the SCRAM exchange calls. The model takes them as parameters; the definitions here are the
  reference instance on which the interface of the exchange is interpreted.
\<close>

unbundle bit_operations_syntax

text \<open>
  The constants are, as the standard defines them, the first 32 bits of the fractional parts of the
  roots of the first primes: the integer root is found bit by bit from the top.
\<close>

primrec root_bits :: "nat \<Rightarrow> nat \<Rightarrow> int \<Rightarrow> int \<Rightarrow> int" where
  "root_bits e 0 n r = r"
| "root_bits e (Suc k) n r = root_bits e k n (if (r + 2 ^ k) ^ e \<le> n then r + 2 ^ k else r)"

definition small_primes :: "int list" where
  "small_primes = [p \<leftarrow> [2..311]. list_all (\<lambda>d. p mod d \<noteq> 0) [2..p - 1]]"

definition sha_k :: "u32 list" where
  "sha_k = map (\<lambda>p. of_int (root_bits 3 35 (p * 2 ^ 96) 0)) small_primes"

definition sha_init :: "u32 list" where
  "sha_init =
     map (\<lambda>p. of_int (root_bits 2 35 (p * 2 ^ 64) 0)) [2, 3, 5, 7, 11, 13, 17, 19]"

definition rotr :: "nat \<Rightarrow> u32 \<Rightarrow> u32" where
  "rotr n x = drop_bit n x OR push_bit (32 - n) x"

definition big_sigma0 :: "u32 \<Rightarrow> u32" where
  "big_sigma0 x = rotr 2 x XOR rotr 13 x XOR rotr 22 x"

definition big_sigma1 :: "u32 \<Rightarrow> u32" where
  "big_sigma1 x = rotr 6 x XOR rotr 11 x XOR rotr 25 x"

definition small_sigma0 :: "u32 \<Rightarrow> u32" where
  "small_sigma0 x = rotr 7 x XOR rotr 18 x XOR drop_bit 3 x"

definition small_sigma1 :: "u32 \<Rightarrow> u32" where
  "small_sigma1 x = rotr 17 x XOR rotr 19 x XOR drop_bit 10 x"

definition choice :: "u32 \<Rightarrow> u32 \<Rightarrow> u32 \<Rightarrow> u32" where
  "choice x y z = (x AND y) XOR ((NOT x) AND z)"

definition majority :: "u32 \<Rightarrow> u32 \<Rightarrow> u32 \<Rightarrow> u32" where
  "majority x y z = (x AND y) XOR (x AND z) XOR (y AND z)"

text \<open>The message schedule, latest word first.\<close>

fun schedule :: "nat \<Rightarrow> u32 list \<Rightarrow> u32 list" where
  "schedule 0 w = w"
| "schedule (Suc n) w =
     schedule n ((small_sigma1 (w ! 1) + w ! 6 + small_sigma0 (w ! 14) + w ! 15) # w)"

definition sha_round :: "u32 list \<Rightarrow> u32 \<times> u32 \<Rightarrow> u32 list" where
  "sha_round s kw =
     (let a = s ! 0; b = s ! 1; c = s ! 2; d = s ! 3; e = s ! 4; f = s ! 5; g = s ! 6; h = s ! 7;
          t1 = h + big_sigma1 e + choice e f g + fst kw + snd kw;
          t2 = big_sigma0 a + majority a b c
      in [t1 + t2, a, b, c, d + t1, e, f, g])"

definition sha_block :: "u32 list \<Rightarrow> u32 list \<Rightarrow> u32 list" where
  "sha_block s block =
     map2 (+) s (foldl sha_round s (zip sha_k (rev (schedule 48 (rev block)))))"

fun be_word :: "u8 \<Rightarrow> u8 \<Rightarrow> u8 \<Rightarrow> u8 \<Rightarrow> u32" where
  "be_word a b c d =
     push_bit 24 (ucast a) OR push_bit 16 (ucast b) OR push_bit 8 (ucast c) OR ucast d"

fun be_words :: "u8 list \<Rightarrow> u32 list" where
  "be_words (a # b # c # d # r) = be_word a b c d # be_words r"
| "be_words _ = []"

definition word_be :: "u32 \<Rightarrow> u8 list" where
  "word_be w = [ucast (drop_bit 24 w), ucast (drop_bit 16 w), ucast (drop_bit 8 w), ucast w]"

definition sha_pad :: "bytes \<Rightarrow> bytes" where
  "sha_pad m =
     (let n = length m; bits = 8 * of_nat n :: 64 word
      in m @ [0x80] @ replicate ((119 - n mod 64) mod 64) 0 @
         map (\<lambda>k. ucast (drop_bit k bits)) [56, 48, 40, 32, 24, 16, 8, 0])"

fun sha_blocks :: "nat \<Rightarrow> u32 list \<Rightarrow> u32 list \<Rightarrow> u32 list" where
  "sha_blocks 0 s w = s"
| "sha_blocks (Suc n) s w = sha_blocks n (sha_block s (take 16 w)) (drop 16 w)"

definition sha256 :: "bytes \<Rightarrow> bytes" where
  "sha256 m =
     (let w = be_words (sha_pad m)
      in concat (map word_be (sha_blocks (length w div 16) sha_init w)))"

definition hmac_sha256 :: "bytes \<Rightarrow> bytes \<Rightarrow> bytes" where
  "hmac_sha256 key m =
     (let k = (if length key > 64 then sha256 key else key);
          k = k @ replicate (64 - length k) 0
      in sha256 (map (\<lambda>x. x XOR 0x5c) k @ sha256 (map (\<lambda>x. x XOR 0x36) k @ m)))"

section \<open>The length of the result\<close>

lemma length_sha_round [simp]: "length (sha_round s kw) = 8"
  by (simp add: sha_round_def Let_def)

lemma length_sha_rounds: "length s = 8 \<Longrightarrow> length (foldl sha_round s kws) = 8"
  by (induction kws rule: rev_induct) simp_all

lemma length_sha_block: "length s = 8 \<Longrightarrow> length (sha_block s b) = 8"
  by (simp add: sha_block_def length_sha_rounds)

lemma length_sha_blocks: "length s = 8 \<Longrightarrow> length (sha_blocks n s w) = 8"
  by (induction n s w rule: sha_blocks.induct) (simp_all add: length_sha_block)

lemma length_word_be: "map (length \<circ> word_be) ws = replicate (length ws) 4"
  by (induction ws) (simp_all add: word_be_def)

lemma length_sha256 [simp]: "length (sha256 m) = 32"
  using length_sha_blocks [of sha_init]
  by (simp add: sha256_def Let_def length_concat length_word_be sum_list_replicate sha_init_def)

lemma length_hmac_sha256 [simp]: "length (hmac_sha256 k m) = 32"
  by (simp add: hmac_sha256_def Let_def)

end
