(* ===== verification/Scram.thy ===== *)
theory Scram
  imports Errors Base64 Sha256
begin

text \<open>
  The pure half of \<open>src/scram_verifier.rs\<close>: stored verifiers and their text form, the parsing of
  the client's first message, the negotiation of channel binding, and the server's side of the
  SCRAM-SHA-256 exchange. Base64, HMAC and the digests are crates the source calls; they are the
  parameter \<open>scram_prims\<close>, and what the exchange relies on is the locale \<open>scram_crypto\<close>.
\<close>

record scram_prims =
  sp_b64_encode :: "bytes \<Rightarrow> string"
  sp_b64_decode :: "string \<Rightarrow> bytes option"
  sp_hmac :: "bytes \<Rightarrow> bytes \<Rightarrow> bytes"
  sp_sha256 :: "bytes \<Rightarrow> bytes"

section \<open>Stored verifiers\<close>

record scram_verifier =
  sv_iterations :: u32
  sv_salt :: bytes
  sv_stored_key :: bytes
  sv_server_key :: bytes

definition verifier_new :: "u32 \<Rightarrow> bytes \<Rightarrow> bytes \<Rightarrow> bytes \<Rightarrow> string + scram_verifier" where
  "verifier_new iterations salt stored_key server_key =
     (if iterations = 0 then Inl ''iterations must be positive''
      else if salt = [] then Inl ''salt must not be empty''
      else if length stored_key \<noteq> 32 \<or> length server_key \<noteq> 32
        then Inl ''stored_key and server_key must be 32-byte SHA-256 values''
      else Inr \<lparr>sv_iterations = iterations, sv_salt = salt, sv_stored_key = stored_key,
                sv_server_key = server_key\<rparr>)"

definition INVALID :: string where
  "INVALID = ''not a SCRAM-SHA-256$<iterations>:<salt>$<StoredKey>:<ServerKey> verifier''"

definition verifier_parse :: "scram_prims \<Rightarrow> string \<Rightarrow> string + scram_verifier" where
  "verifier_parse P text =
     (let fields =
        Option.bind (Option.bind (strip_prefix ''SCRAM-SHA-256$'' text) (split_once CHR ''$''))
          (\<lambda>(params, keys).
             Option.bind (split_once CHR '':'' params) (\<lambda>p.
             Option.bind (split_once CHR '':'' keys) (\<lambda>k. Some (p, k))))
      in case fields of
           None \<Rightarrow> Inl INVALID
         | Some ((iterations, salt), (stored_key, server_key)) \<Rightarrow>
             (case parse_u32 iterations of
                None \<Rightarrow> Inl INVALID
              | Some iterations \<Rightarrow>
             (case sp_b64_decode P salt of
                None \<Rightarrow> Inl INVALID
              | Some salt \<Rightarrow>
             (case sp_b64_decode P stored_key of
                None \<Rightarrow> Inl INVALID
              | Some stored_key \<Rightarrow>
             (case sp_b64_decode P server_key of
                None \<Rightarrow> Inl INVALID
              | Some server_key \<Rightarrow> verifier_new iterations salt stored_key server_key)))))"

definition verifier_py_new :: "u32 \<Rightarrow> bytes \<Rightarrow> bytes \<Rightarrow> bytes \<Rightarrow> py_err + scram_verifier" where
  "verifier_py_new iterations salt stored_key server_key =
     (case verifier_new iterations salt stored_key server_key of
        Inl m \<Rightarrow> Inl (New_err Py_ValueError m) | Inr v \<Rightarrow> Inr v)"

definition verifier_py_parse :: "scram_prims \<Rightarrow> string \<Rightarrow> py_err + scram_verifier" where
  "verifier_py_parse P text =
     (case verifier_parse P text of Inl m \<Rightarrow> Inl (New_err Py_ValueError m) | Inr v \<Rightarrow> Inr v)"

definition verifier_repr :: "scram_verifier \<Rightarrow> string" where
  "verifier_repr v =
     ''ScramVerifier(iterations='' @ show_u32 (sv_iterations v) @ '', <'' @
     show_nat (length (sv_salt v)) @ ''-byte salt>)''"

text \<open>The text form PostgreSQL stores in \<open>pg_authid.rolpassword\<close>.\<close>

definition verifier_text :: "scram_prims \<Rightarrow> scram_verifier \<Rightarrow> string" where
  "verifier_text P v =
     ''SCRAM-SHA-256$'' @ show_u32 (sv_iterations v) @ '':'' @ sp_b64_encode P (sv_salt v) @ ''$'' @
     sp_b64_encode P (sv_stored_key v) @ '':'' @ sp_b64_encode P (sv_server_key v)"

section \<open>The exchange\<close>

definition invalid :: "string \<Rightarrow> pgwire_error" where
  "invalid message = InvalidScramMessage message"

definition utf8 :: "bytes \<Rightarrow> pgwire_error + string" where
  "utf8 d = (if utf8_valid d then Inr (str_of_bytes d) else Inl (invalid ''SCRAM message is not UTF-8''))"

record client_first =
  cf_cbind_flag :: string
  cf_gs2_header :: string
  cf_bare :: string
  cf_nonce :: string

definition client_first_parse :: "string \<Rightarrow> pgwire_error + client_first" where
  "client_first_parse message =
     (let malformed = invalid ''malformed SCRAM client-first-message''
      in case split_once CHR '','' message of
           None \<Rightarrow> Inl malformed
         | Some (cbind_flag, rest) \<Rightarrow>
         (case split_once CHR '','' rest of
           None \<Rightarrow> Inl malformed
         | Some (authzid, bare) \<Rightarrow>
         (if \<not> (authzid = [] \<or> starts_with ''a='' authzid) then Inl malformed
          else
            (let parts = split_on CHR '','' bare;
                 username = (case parts of p # _ \<Rightarrow> strip_prefix ''n='' p | _ \<Rightarrow> None);
                 nonce = (case parts of _ # p # _ \<Rightarrow> strip_prefix ''r='' p | _ \<Rightarrow> None)
             in case (username, nonce) of
                  (Some _, Some nonce) \<Rightarrow>
                    (if nonce \<noteq> []
                     then Inr \<lparr>cf_cbind_flag = cbind_flag,
                               cf_gs2_header = take (length message - length bare) message,
                               cf_bare = bare, cf_nonce = nonce\<rparr>
                     else Inl malformed)
                | _ \<Rightarrow> Inl malformed))))"

text \<open>The mechanism names are pgwire's constants.\<close>

definition SCRAM_SHA_256_METHOD :: string where
  "SCRAM_SHA_256_METHOD = ''SCRAM-SHA-256''"

definition SCRAM_SHA_256_PLUS_METHOD :: string where
  "SCRAM_SHA_256_PLUS_METHOD = ''SCRAM-SHA-256-PLUS''"

definition negotiate :: "string \<Rightarrow> string \<Rightarrow> bytes option \<Rightarrow> pgwire_error + bytes" where
  "negotiate mechanism cbind_flag certificate =
     (case certificate of
        Some signature \<Rightarrow>
          (if mechanism = SCRAM_SHA_256_PLUS_METHOD \<and> cbind_flag = ''p=tls-server-end-point''
             then Inr signature
           else if mechanism = SCRAM_SHA_256_METHOD \<and> cbind_flag = ''n'' then Inr []
           else if mechanism = SCRAM_SHA_256_METHOD \<or> mechanism = SCRAM_SHA_256_PLUS_METHOD
             then Inl (invalid ''SCRAM channel binding negotiation error'')
           else Inl (UnsupportedSASLAuthMethod mechanism))
      | None \<Rightarrow>
          (if mechanism = SCRAM_SHA_256_METHOD \<and> cbind_flag = ''n'' then Inr []
           else if mechanism = SCRAM_SHA_256_METHOD \<and> cbind_flag = ''y'' then Inr []
           else if mechanism = SCRAM_SHA_256_METHOD \<or> mechanism = SCRAM_SHA_256_PLUS_METHOD
             then Inl (invalid ''SCRAM channel binding negotiation error'')
           else Inl (UnsupportedSASLAuthMethod mechanism)))"

record exchange =
  ex_user :: string
  ex_verifier :: scram_verifier
  ex_mock :: bool
  ex_nonce :: string
  ex_channel_binding :: string
  ex_server_first :: string
  ex_auth_prefix :: string

definition exchange_new ::
  "scram_prims \<Rightarrow> client_first \<Rightarrow> bytes \<Rightarrow> string \<Rightarrow> string \<Rightarrow> scram_verifier \<Rightarrow> bool \<Rightarrow> exchange" where
  "exchange_new P first cbind_data server_nonce user verifier mock =
     (let nonce = cf_nonce first @ server_nonce;
          server_first = ''r='' @ nonce @ '',s='' @ sp_b64_encode P (sv_salt verifier) @
            '',i='' @ show_u32 (sv_iterations verifier);
          channel_binding = sp_b64_encode P (bytes_of_str (cf_gs2_header first) @ cbind_data)
      in \<lparr>ex_user = user, ex_verifier = verifier, ex_mock = mock, ex_nonce = nonce,
          ex_channel_binding = channel_binding, ex_server_first = server_first,
          ex_auth_prefix = cf_bare first @ '','' @ server_first\<rparr>)"

definition xor_bytes :: "bytes \<Rightarrow> bytes \<Rightarrow> bytes" where
  "xor_bytes a b = map (\<lambda>(x, y). xor x y) (zip a b)"

definition verify :: "scram_prims \<Rightarrow> exchange \<Rightarrow> bytes \<Rightarrow> pgwire_error + string" where
  "verify P ex message =
     (let malformed = invalid ''malformed SCRAM client-final-message''
      in case utf8 message of
           Inl e \<Rightarrow> Inl e
         | Inr text \<Rightarrow>
         (case rsplit_once '',p='' text of
           None \<Rightarrow> Inl malformed
         | Some (without_proof, proof) \<Rightarrow>
         (let parts = split_on CHR '','' without_proof
          in case (case parts of p # _ \<Rightarrow> strip_prefix ''c='' p | _ \<Rightarrow> None,
                   case parts of _ # p # _ \<Rightarrow> strip_prefix ''r='' p | _ \<Rightarrow> None) of
               (Some channel_binding, Some nonce) \<Rightarrow>
                 (if channel_binding \<noteq> ex_channel_binding ex
                    then Inl (invalid ''SCRAM channel binding check failed'')
                  else if nonce \<noteq> ex_nonce ex then Inl (invalid ''SCRAM nonce mismatch'')
                  else
                    (case sp_b64_decode P proof of
                       None \<Rightarrow> Inl malformed
                     | Some proof \<Rightarrow>
                       (if length proof \<noteq> 32 then Inl malformed
                        else
                          (let auth_message = ex_auth_prefix ex @ '','' @ without_proof;
                               client_signature = sp_hmac P (sv_stored_key (ex_verifier ex)) (bytes_of_str auth_message);
                               client_key = xor_bytes proof client_signature;
                               computed = sp_sha256 P client_key;
                               proof_ok = (computed = sv_stored_key (ex_verifier ex))
                           in if \<not> proof_ok \<or> ex_mock ex then Inl (InvalidPassword (ex_user ex))
                              else
                                (let server_signature =
                                   sp_hmac P (sv_server_key (ex_verifier ex)) (bytes_of_str auth_message)
                                 in Inr (''v='' @ sp_b64_encode P server_signature))))))
             | _ \<Rightarrow> Inl malformed)))"

definition mock_verifier :: "scram_prims \<Rightarrow> bytes \<Rightarrow> string \<Rightarrow> u32 \<Rightarrow> scram_verifier" where
  "mock_verifier P secret user iterations =
     (let salt = sp_hmac P secret (bytes_of_str (''salt'' @ [CHR 0x00] @ user));
          key = sp_hmac P secret (bytes_of_str (''key'' @ [CHR 0x00] @ user))
      in \<lparr>sv_iterations = iterations, sv_salt = take 16 salt, sv_stored_key = key, sv_server_key = key\<rparr>)"

text \<open>How far the exchange of a connection has come (\<open>State\<close> of the startup handler).\<close>

datatype scram_state = Initial | ServerFirstSent exchange | Done

section \<open>The certificate hash\<close>

text \<open>The x509-certificate crate is a parameter: it reads PEM text into certificates or fails.\<close>

datatype signature_algorithm =
  RsaSha1 | RsaSha256 | EcdsaSha256 | RsaSha384 | EcdsaSha384 | RsaSha512 | OtherAlgorithm nat

record certificate =
  cert_algorithm :: "signature_algorithm option"
  cert_data :: bytes

record digests =
  dg_sha256 :: "bytes \<Rightarrow> bytes"
  dg_sha384 :: "bytes \<Rightarrow> bytes"
  dg_sha512 :: "bytes \<Rightarrow> bytes"

definition compute_cert_signature ::
  "digests \<Rightarrow> (bytes \<Rightarrow> string + certificate list) \<Rightarrow> bytes \<Rightarrow> pgwire_error + bytes" where
  "compute_cert_signature D from_pem pem =
     (case from_pem pem of
        Inl error \<Rightarrow> Inl (ApiError error)
      | Inr [] \<Rightarrow> Inl UnsupportedCertificateSignatureAlgorithm
      | Inr (certificate # _) \<Rightarrow>
          (case cert_algorithm certificate of
             Some RsaSha1 \<Rightarrow> Inr (dg_sha256 D (cert_data certificate))
           | Some RsaSha256 \<Rightarrow> Inr (dg_sha256 D (cert_data certificate))
           | Some EcdsaSha256 \<Rightarrow> Inr (dg_sha256 D (cert_data certificate))
           | Some RsaSha384 \<Rightarrow> Inr (dg_sha384 D (cert_data certificate))
           | Some EcdsaSha384 \<Rightarrow> Inr (dg_sha384 D (cert_data certificate))
           | Some RsaSha512 \<Rightarrow> Inr (dg_sha512 D (cert_data certificate))
           | _ \<Rightarrow> Inl UnsupportedCertificateSignatureAlgorithm))"

section \<open>Properties of verifiers\<close>

text \<open>
  What the exchange relies on: Base64 decoding inverts encoding, the encoding uses none of the
  separators of the messages and decoding accepts no comma, and HMAC-SHA-256 and SHA-256 have 32 bytes.
\<close>

locale scram_crypto =
  fixes P :: scram_prims
  assumes b64_round_trip: "sp_b64_decode P (sp_b64_encode P b) = Some b"
    and b64_chars: "c \<in> set (sp_b64_encode P b) \<Longrightarrow> of_char c < (128 :: nat) \<and> c \<notin> {CHR '','', CHR ''$'', CHR '':''}"
    and b64_decode_chars: "sp_b64_decode P s = Some b \<Longrightarrow> CHR '','' \<notin> set s"
    and hmac_length: "length (sp_hmac P k m) = 32"
    and sha256_length: "length (sp_sha256 P m) = 32"
begin

lemma b64_no_sep [simp]:
  "CHR '','' \<notin> set (sp_b64_encode P b)"
  "CHR ''$'' \<notin> set (sp_b64_encode P b)"
  "CHR '':'' \<notin> set (sp_b64_encode P b)"
  using b64_chars by fastforce+

lemma b64_ascii [simp]: "is_ascii (sp_b64_encode P b)"
  using b64_chars by (auto simp: is_ascii_def)

end

definition verifier_ok :: "scram_verifier \<Rightarrow> bool" where
  "verifier_ok v \<longleftrightarrow>
     sv_iterations v \<noteq> 0 \<and> sv_salt v \<noteq> [] \<and> length (sv_stored_key v) = 32 \<and> length (sv_server_key v) = 32"

lemma verifier_new_Inr:
  "verifier_new i s k v = Inr w \<longleftrightarrow>
     w = \<lparr>sv_iterations = i, sv_salt = s, sv_stored_key = k, sv_server_key = v\<rparr> \<and> verifier_ok w"
  by (auto simp: verifier_new_def verifier_ok_def)

lemma verifier_parse_ok: "verifier_parse P text = Inr v \<Longrightarrow> verifier_ok v"
  by (auto simp: verifier_parse_def Let_def verifier_new_Inr split: option.splits)

lemma show_u32_no_colon [simp]: "CHR '':'' \<notin> set (show_u32 n)"
  by (simp add: show_u32_def)

lemma show_u32_no_dollar [simp]: "CHR ''$'' \<notin> set (show_u32 n)"
  by (simp add: show_u32_def)

context scram_crypto
begin

lemma verifier_parse_text:
  assumes "verifier_ok v"
  shows "verifier_parse P (verifier_text P v) = Inr v"
proof -
  have strip: "strip_prefix ''SCRAM-SHA-256$'' (verifier_text P v) =
      Some ((show_u32 (sv_iterations v) @ '':'' @ sp_b64_encode P (sv_salt v)) @ CHR ''$'' #
            sp_b64_encode P (sv_stored_key v) @ '':'' @ sp_b64_encode P (sv_server_key v))"
    by (simp add: verifier_text_def)
  have "split_once CHR ''$'' ((show_u32 (sv_iterations v) @ '':'' @ sp_b64_encode P (sv_salt v)) @ CHR ''$'' #
            sp_b64_encode P (sv_stored_key v) @ '':'' @ sp_b64_encode P (sv_server_key v)) =
      Some (show_u32 (sv_iterations v) @ '':'' @ sp_b64_encode P (sv_salt v),
            sp_b64_encode P (sv_stored_key v) @ '':'' @ sp_b64_encode P (sv_server_key v))"
    by (rule split_once_append) simp
  with strip assms show ?thesis
    by (simp add: verifier_parse_def b64_round_trip verifier_new_Inr)
qed

lemma mock_verifier_ok: "iterations \<noteq> 0 \<Longrightarrow> verifier_ok (mock_verifier P secret user iterations)"
proof -
  have "sp_hmac P secret m \<noteq> []" for m using hmac_length [of secret m] by force
  then show "iterations \<noteq> 0 \<Longrightarrow> verifier_ok (mock_verifier P secret user iterations)"
    by (simp add: mock_verifier_def verifier_ok_def Let_def hmac_length)
qed

end

section \<open>Properties of the first message\<close>

text \<open>The grammar of RFC 5802 for the client's first message, as far as the server reads it.\<close>

definition client_first_text :: "string \<Rightarrow> string \<Rightarrow> string \<Rightarrow> string \<Rightarrow> string \<Rightarrow> string" where
  "client_first_text flag authzid user nonce ext =
     flag @ '','' @ authzid @ '',n='' @ user @ '',r='' @ nonce @ ext"

definition client_first_wf :: "string \<Rightarrow> string \<Rightarrow> string \<Rightarrow> string \<Rightarrow> string \<Rightarrow> bool" where
  "client_first_wf flag authzid user nonce ext \<longleftrightarrow>
     CHR '','' \<notin> set flag \<and> CHR '','' \<notin> set authzid \<and> CHR '','' \<notin> set user \<and> CHR '','' \<notin> set nonce \<and>
     nonce \<noteq> [] \<and> (authzid = [] \<or> starts_with ''a='' authzid) \<and> (ext = [] \<or> hd ext = CHR '','')"

lemma split_on_two:
  "split_on c s = a # b # ps \<longleftrightarrow>
     (\<exists>r. s = a @ c # r \<and> c \<notin> set a \<and> split_on c r = b # ps)"
proof -
  have "split_on c s = a # b # ps \<longleftrightarrow> (\<exists>r. split_once c s = Some (a, r) \<and> split_on c r = b # ps)"
    by (auto simp: split_on_once [of c s] split: option.splits)
  then show ?thesis by (simp add: split_once_Some conj_assoc)
qed

lemma split_on_head:
  "(\<exists>ps. split_on c s = a # ps) \<longleftrightarrow> (\<exists>ext. s = a @ ext \<and> c \<notin> set a \<and> (ext = [] \<or> hd ext = c))"
proof
  assume "\<exists>ps. split_on c s = a # ps"
  then show "\<exists>ext. s = a @ ext \<and> c \<notin> set a \<and> (ext = [] \<or> hd ext = c)"
    by (auto simp: split_on_once [of c s] split_once_None split_once_Some split: option.splits)
next
  assume "\<exists>ext. s = a @ ext \<and> c \<notin> set a \<and> (ext = [] \<or> hd ext = c)"
  then obtain ext where "s = a @ ext" "c \<notin> set a" "ext = [] \<or> hd ext = c" by blast
  then show "\<exists>ps. split_on c s = a # ps" by (cases ext) auto
qed

lemma client_first_parse_text:
  assumes "client_first_wf flag authzid user nonce ext"
  shows "client_first_parse (client_first_text flag authzid user nonce ext) =
    Inr \<lparr>cf_cbind_flag = flag, cf_gs2_header = flag @ '','' @ authzid @ '','',
         cf_bare = ''n='' @ user @ '',r='' @ nonce @ ext, cf_nonce = nonce\<rparr>"
proof -
  have n: "CHR '','' \<notin> set (''n='' @ user)" and r: "CHR '','' \<notin> set (''r='' @ nonce)"
    using assms by (simp_all add: client_first_wf_def)
  have "\<exists>ps. split_on CHR '','' (''r='' @ nonce @ ext) = (''r='' @ nonce) # ps"
    unfolding split_on_head using assms r by (auto simp: client_first_wf_def)
  then obtain ps where ps: "split_on CHR '','' (''r='' @ nonce @ ext) = (''r='' @ nonce) # ps" by blast
  have "split_on CHR '','' ((''n='' @ user) @ CHR '','' # (''r='' @ nonce @ ext)) =
      (''n='' @ user) # (''r='' @ nonce) # ps"
    by (subst split_on_append [OF n]) (simp only: ps)
  then have split: "split_on CHR '','' (''n='' @ user @ '',r='' @ nonce @ ext) =
      (''n='' @ user) # (''r='' @ nonce) # ps" by simp
  have "split_once CHR '','' (client_first_text flag authzid user nonce ext) =
      Some (flag, authzid @ CHR '','' # ''n='' @ user @ '',r='' @ nonce @ ext)"
    using assms by (simp add: client_first_text_def client_first_wf_def split_once_Some)
  moreover have "split_once CHR '','' (authzid @ CHR '','' # ''n='' @ user @ '',r='' @ nonce @ ext) =
      Some (authzid, ''n='' @ user @ '',r='' @ nonce @ ext)"
    using assms by (simp add: client_first_wf_def split_once_Some)
  moreover have "take (length (client_first_text flag authzid user nonce ext) -
        length (''n='' @ user @ '',r='' @ nonce @ ext)) (client_first_text flag authzid user nonce ext) =
      flag @ '','' @ authzid @ '',''"
    by (simp add: client_first_text_def)
  ultimately show ?thesis
    using assms split by (simp add: client_first_parse_def client_first_wf_def Let_def)
qed

lemma client_first_parse_Inr:
  assumes "client_first_parse m = Inr cf"
  shows "\<exists>authzid user ext.
    client_first_wf (cf_cbind_flag cf) authzid user (cf_nonce cf) ext \<and>
    m = client_first_text (cf_cbind_flag cf) authzid user (cf_nonce cf) ext"
proof -
  note cfp = client_first_parse_def Let_def
  from assms obtain flag rest where s1: "split_once CHR '','' m = Some (flag, rest)"
    by (auto simp: cfp split: option.splits)
  with assms obtain authzid bare where s2: "split_once CHR '','' rest = Some (authzid, bare)"
    by (auto simp: cfp split: option.splits)
  with assms s1 have az: "authzid = [] \<or> starts_with ''a='' authzid"
    by (simp add: cfp split: if_splits)
  with assms s1 s2 obtain p q ps where pq: "split_on CHR '','' bare = p # q # ps"
    by (auto simp: cfp split: list.splits option.splits)
  with assms s1 s2 az obtain user nonce where p: "p = ''n='' @ user" and q: "q = ''r='' @ nonce"
    by (auto simp: cfp strip_prefix_Some split: option.splits)
  with assms s1 s2 az pq have ne: "nonce \<noteq> []" and cf: "cf_cbind_flag cf = flag" "cf_nonce cf = nonce"
    by (auto simp: cfp split: if_splits)
  from pq p q have sp: "split_on CHR '','' bare = (''n='' @ user) # (''r='' @ nonce) # ps" by simp
  from sp obtain r where r: "bare = (''n='' @ user) @ CHR '','' # r" "CHR '','' \<notin> set (''n='' @ user)"
    and r': "split_on CHR '','' r = (''r='' @ nonce) # ps"
    unfolding split_on_two by blast
  then obtain ext where "r = (''r='' @ nonce) @ ext" "CHR '','' \<notin> set (''r='' @ nonce)"
    "ext = [] \<or> hd ext = CHR '',''"
    using split_on_head [of "CHR '',''" r "''r='' @ nonce"] by blast
  with s1 s2 az ne r cf show ?thesis
    unfolding split_once_Some
    by (intro exI [of _ authzid] exI [of _ user] exI [of _ ext])
      (simp add: client_first_wf_def client_first_text_def)
qed

text \<open>C27: The server accepts exactly the client-first-messages of the grammar of RFC 5802 (a flag, an
  empty authorization identity or one marked \<open>a=\<close>, a user name, a non-empty nonce, any
  extensions after it, and no mandatory extension before the name), and keeps the header and the
  bare message verbatim.\<close>

theorem client_first_grammar:
  "(\<exists>cf. client_first_parse m = Inr cf) \<longleftrightarrow>
   (\<exists>flag authzid user nonce ext.
      client_first_wf flag authzid user nonce ext \<and> m = client_first_text flag authzid user nonce ext \<and>
      client_first_parse m =
        Inr \<lparr>cf_cbind_flag = flag, cf_gs2_header = flag @ '','' @ authzid @ '','',
             cf_bare = ''n='' @ user @ '',r='' @ nonce @ ext, cf_nonce = nonce\<rparr>)"
  by (blast dest: client_first_parse_Inr intro: client_first_parse_text)

section \<open>Properties of the final message\<close>

definition final_without_proof :: "string \<Rightarrow> string \<Rightarrow> string \<Rightarrow> string" where
  "final_without_proof cb nonce ext = ''c='' @ cb @ '',r='' @ nonce @ ext"

definition client_final_text :: "string \<Rightarrow> string \<Rightarrow> string \<Rightarrow> string \<Rightarrow> string" where
  "client_final_text cb nonce ext p = final_without_proof cb nonce ext @ '',p='' @ p"

text \<open>The message both sides sign, and the check of RFC 5802: the proof, unmasked with the client
  signature, hashes to StoredKey.\<close>

definition auth_message :: "exchange \<Rightarrow> string \<Rightarrow> bytes" where
  "auth_message ex ext = bytes_of_str
     (ex_auth_prefix ex @ '','' @ final_without_proof (ex_channel_binding ex) (ex_nonce ex) ext)"

definition proof_checks :: "scram_prims \<Rightarrow> exchange \<Rightarrow> string \<Rightarrow> bytes \<Rightarrow> bool" where
  "proof_checks P ex ext pf \<longleftrightarrow>
     sp_sha256 P (xor_bytes pf (sp_hmac P (sv_stored_key (ex_verifier ex)) (auth_message ex ext))) =
     sv_stored_key (ex_verifier ex)"

definition server_final :: "scram_prims \<Rightarrow> exchange \<Rightarrow> string \<Rightarrow> string" where
  "server_final P ex ext =
     ''v='' @ sp_b64_encode P (sp_hmac P (sv_server_key (ex_verifier ex)) (auth_message ex ext))"

definition exchange_wf :: "exchange \<Rightarrow> bool" where
  "exchange_wf ex \<longleftrightarrow> CHR '','' \<notin> set (ex_channel_binding ex) \<and> CHR '','' \<notin> set (ex_nonce ex)"

text \<open>What a client-final-message looks like that gets as far as the proof check.\<close>

definition final_matches :: "scram_prims \<Rightarrow> exchange \<Rightarrow> bytes \<Rightarrow> string \<Rightarrow> bytes \<Rightarrow> bool" where
  "final_matches P ex message ext pf \<longleftrightarrow>
     (\<exists>p. utf8_valid message \<and>
          message = bytes_of_str (client_final_text (ex_channel_binding ex) (ex_nonce ex) ext p) \<and>
          exchange_wf ex \<and> (ext = [] \<or> hd ext = CHR '','') \<and>
          sp_b64_decode P p = Some pf \<and> length pf = 32)"

context scram_crypto
begin

lemma verify_matching:
  assumes "final_matches P ex message ext pf"
  shows "verify P ex message =
    (if proof_checks P ex ext pf \<and> \<not> ex_mock ex then Inr (server_final P ex ext)
     else Inl (InvalidPassword (ex_user ex)))"
proof -
  let ?wp = "final_without_proof (ex_channel_binding ex) (ex_nonce ex) ext"
  from assms obtain p where u: "utf8_valid message"
    and m: "message = bytes_of_str (client_final_text (ex_channel_binding ex) (ex_nonce ex) ext p)"
    and wf: "exchange_wf ex" and ext: "ext = [] \<or> hd ext = CHR '',''"
    and p: "sp_b64_decode P p = Some pf" and len: "length pf = 32"
    by (auto simp: final_matches_def)
  have rs: "rsplit_once '',p='' (client_final_text (ex_channel_binding ex) (ex_nonce ex) ext p) = Some (?wp, p)"
    unfolding client_final_text_def using b64_decode_chars [OF p] by (intro rsplit_once_last) simp_all
  have "\<exists>ps. split_on CHR '','' (''r='' @ ex_nonce ex @ ext) = (''r='' @ ex_nonce ex) # ps"
    unfolding split_on_head using wf ext by (auto simp: exchange_wf_def)
  then obtain ps where "split_on CHR '','' (''r='' @ ex_nonce ex @ ext) = (''r='' @ ex_nonce ex) # ps"
    by blast
  moreover have "CHR '','' \<notin> set (''c='' @ ex_channel_binding ex)" using wf by (simp add: exchange_wf_def)
  ultimately have sp: "split_on CHR '','' ?wp = (''c='' @ ex_channel_binding ex) # (''r='' @ ex_nonce ex) # ps"
    using split_on_append [of "CHR '',''" "''c='' @ ex_channel_binding ex" "''r='' @ ex_nonce ex @ ext"]
    by (simp add: final_without_proof_def)
  show ?thesis
    using u m rs sp p len
    by (simp add: verify_def utf8_def Let_def proof_checks_def auth_message_def server_final_def)
qed

end

lemma verify_not_matching:
  assumes "verify P ex message = Inr out \<or> verify P ex message = Inl (InvalidPassword u)"
  shows "\<exists>ext pf. final_matches P ex message ext pf"
proof -
  note vd = verify_def utf8_def Let_def invalid_def
  from assms have u: "utf8_valid message" by (auto simp: vd split: if_splits)
  with assms obtain wp p where rs: "rsplit_once '',p='' (str_of_bytes message) = Some (wp, p)"
    by (auto simp: vd split: option.splits)
  with assms u obtain a b ps where ab: "split_on CHR '','' wp = a # b # ps"
    by (auto simp: vd split: list.splits option.splits)
  with assms u rs obtain cb n where cb: "a = ''c='' @ cb" "b = ''r='' @ n"
    by (auto simp: vd strip_prefix_Some split: option.splits)
  with assms u rs ab have eq: "cb = ex_channel_binding ex" "n = ex_nonce ex"
    by (auto simp: vd split: if_splits)
  with assms u rs ab cb obtain pf where pf: "sp_b64_decode P p = Some pf" "length pf = 32"
    by (auto simp: vd split: option.splits if_splits)
  from ab cb eq obtain r where r: "wp = (''c='' @ ex_channel_binding ex) @ CHR '','' # r"
    "CHR '','' \<notin> set (''c='' @ ex_channel_binding ex)"
    "split_on CHR '','' r = (''r='' @ ex_nonce ex) # ps"
    unfolding split_on_two by blast
  then obtain ext where "r = (''r='' @ ex_nonce ex) @ ext" "CHR '','' \<notin> set (''r='' @ ex_nonce ex)"
    "ext = [] \<or> hd ext = CHR '',''"
    using split_on_head [of "CHR '',''" r "''r='' @ ex_nonce ex"] by blast
  moreover from rs have "str_of_bytes message = wp @ '',p='' @ p" by (rule rsplit_once_Some)
  then have "message = bytes_of_str (wp @ '',p='' @ p)" by (metis bytes_of_str_of_bytes)
  ultimately show ?thesis
    using u r pf unfolding final_matches_def client_final_text_def final_without_proof_def exchange_wf_def
    by (intro exI [of _ ext] exI [of _ pf] exI [of _ p]) simp
qed

section \<open>The reference instance\<close>

definition rfc_prims :: scram_prims where
  "rfc_prims =
     \<lparr>sp_b64_encode = b64_encode, sp_b64_decode = b64_decode, sp_hmac = hmac_sha256, sp_sha256 = sha256\<rparr>"

lemma rfc_prims_simps [simp]:
  "sp_b64_encode rfc_prims = b64_encode" "sp_b64_decode rfc_prims = b64_decode"
  "sp_hmac rfc_prims = hmac_sha256" "sp_sha256 rfc_prims = sha256"
  by (simp_all add: rfc_prims_def)

lemma b64_alphabet_plain:
  "c \<in> set (CHR ''='' # b64_alphabet) \<Longrightarrow> of_char c < (128 :: nat) \<and> c \<notin> {CHR '','', CHR ''$'', CHR '':''}"
proof -
  have "list_all (\<lambda>c. of_char c < (128 :: nat) \<and> c \<notin> {CHR '','', CHR ''$'', CHR '':''}) (CHR ''='' # b64_alphabet)"
    by code_simp
  then show "c \<in> set (CHR ''='' # b64_alphabet) \<Longrightarrow> of_char c < (128 :: nat) \<and> c \<notin> {CHR '','', CHR ''$'', CHR '':''}"
    unfolding list_all_iff by blast
qed

interpretation rfc: scram_crypto rfc_prims
proof unfold_locales
  show "sp_b64_decode rfc_prims (sp_b64_encode rfc_prims b) = Some b" for b by simp
  show "of_char c < (128 :: nat) \<and> c \<notin> {CHR '','', CHR ''$'', CHR '':''}"
    if "c \<in> set (sp_b64_encode rfc_prims b)" for c b
    using that b64_alphabet_plain [of c] b64_encode_chars [of c b] unfolding rfc_prims_simps by blast
  show "CHR '','' \<notin> set s" if "sp_b64_decode rfc_prims s = Some b" for s b
    using that b64_alphabet_plain [of "CHR '',''"] b64_decode_chars [of s b] by auto
  show "length (sp_hmac rfc_prims k m) = 32" for k m by simp
  show "length (sp_sha256 rfc_prims m) = 32" for m by simp
qed

section \<open>The properties\<close>

text \<open>C13: The server accepts a client-final-message exactly when it is UTF-8 text of the grammar that
  repeats the channel binding and the nonce of this exchange, the verifier is not the mock one,
  and the 32 bytes of the proof, unmasked with the HMAC of the whole signed transcript under
  StoredKey, hash to StoredKey; the answer is then the server's own signature of that transcript.\<close>

theorem verify_accepts_iff:
  assumes "scram_crypto P"
  shows "verify P ex message = Inr out \<longleftrightarrow>
    (\<exists>ext pf. final_matches P ex message ext pf \<and> proof_checks P ex ext pf \<and> \<not> ex_mock ex \<and>
       out = server_final P ex ext)"
proof
  assume v: "verify P ex message = Inr out"
  then obtain ext pf where "final_matches P ex message ext pf" using verify_not_matching by blast
  with v scram_crypto.verify_matching [OF assms this]
  show "\<exists>ext pf. final_matches P ex message ext pf \<and> proof_checks P ex ext pf \<and> \<not> ex_mock ex \<and>
      out = server_final P ex ext"
    by (metis Inl_Inr_False Inr_inject)
next
  assume "\<exists>ext pf. final_matches P ex message ext pf \<and> proof_checks P ex ext pf \<and> \<not> ex_mock ex \<and>
      out = server_final P ex ext"
  then show "verify P ex message = Inr out"
    using scram_crypto.verify_matching [OF assms] by auto
qed

text \<open>C25: A message is refused with \<open>InvalidPassword\<close> for the user of the exchange exactly when it is
  well formed and repeats binding and nonce, but its proof fails the check or the verifier is the
  mock one; every other refused message is an invalid SCRAM message.\<close>

theorem verify_refuses:
  assumes "scram_crypto P" and "verify P ex message = Inl e"
  shows "(\<exists>m. e = InvalidScramMessage m \<and> (\<forall>ext pf. \<not> final_matches P ex message ext pf)) \<or>
    (e = InvalidPassword (ex_user ex) \<and>
     (\<exists>ext pf. final_matches P ex message ext pf \<and> (ex_mock ex \<or> \<not> proof_checks P ex ext pf)))"
proof (cases "\<exists>ext pf. final_matches P ex message ext pf")
  case True
  then obtain ext pf where m: "final_matches P ex message ext pf" by blast
  with assms(2) scram_crypto.verify_matching [OF assms(1) m]
  have "e = InvalidPassword (ex_user ex)" and "ex_mock ex \<or> \<not> proof_checks P ex ext pf"
    by (auto split: if_splits)
  with m show ?thesis by blast
next
  case False
  then have "e \<noteq> InvalidPassword u" for u using verify_not_matching assms(2) by blast
  moreover have "(\<exists>m. e = InvalidScramMessage m) \<or> (\<exists>u. e = InvalidPassword u)"
    using assms(2) by (auto simp: verify_def utf8_def Let_def invalid_def
        split: option.splits list.splits if_splits)
  ultimately show ?thesis using False by blast
qed

text \<open>C26: The mock exchange of an unknown user answers every final message as the same exchange with a
  real verifier would, with one difference: where the real one accepts, it fails with the error of
  a wrong password.\<close>

theorem mock_exchange_indistinguishable:
  "verify P (ex\<lparr>ex_mock := True\<rparr>) message =
     (case verify P (ex\<lparr>ex_mock := False\<rparr>) message of
        Inr _ \<Rightarrow> Inl (InvalidPassword (ex_user ex))
      | Inl e \<Rightarrow> Inl e)"
  by (auto simp: verify_def Let_def split: sum.split option.split list.split)

section \<open>An honest client\<close>

text \<open>The proof RFC 5802 lets a client compute that knows ClientKey.\<close>

definition client_proof :: "scram_prims \<Rightarrow> bytes \<Rightarrow> exchange \<Rightarrow> string \<Rightarrow> bytes" where
  "client_proof P client_key ex ext =
     xor_bytes client_key (sp_hmac P (sp_sha256 P client_key) (auth_message ex ext))"

lemma xor_bytes_cancel: "length a = length b \<Longrightarrow> xor_bytes (xor_bytes a b) b = a"
  by (induction a b rule: list_induct2) (simp_all add: xor_bytes_def xor.assoc)

lemma length_xor_bytes [simp]: "length (xor_bytes a b) = min (length a) (length b)"
  by (simp add: xor_bytes_def)

lemma client_first_nonce:
  "client_first_parse m = Inr first \<Longrightarrow> CHR '','' \<notin> set (cf_nonce first) \<and> cf_nonce first \<noteq> []"
  by (auto dest!: client_first_parse_Inr simp: client_first_wf_def)

context scram_crypto
begin

lemma exchange_new_wf:
  "client_first_parse m = Inr first \<Longrightarrow>
   exchange_wf (exchange_new P first cbind (sp_b64_encode P rnd) user v mock)"
  by (simp add: exchange_new_def exchange_wf_def Let_def client_first_nonce)

lemma honest_final_matches:
  assumes "exchange_wf ex" and "is_ascii (ex_channel_binding ex)" and "is_ascii (ex_nonce ex)"
    and "is_ascii ext" and "ext = [] \<or> hd ext = CHR '',''" and "length client_key = 32"
  shows "final_matches P ex
    (bytes_of_str (client_final_text (ex_channel_binding ex) (ex_nonce ex) ext
       (sp_b64_encode P (client_proof P client_key ex ext)))) ext (client_proof P client_key ex ext)"
proof -
  let ?p = "sp_b64_encode P (client_proof P client_key ex ext)"
  have "is_ascii (client_final_text (ex_channel_binding ex) (ex_nonce ex) ext ?p)"
    using assms by (simp add: client_final_text_def final_without_proof_def)
  with assms show ?thesis
    unfolding final_matches_def
    by (intro exI [of _ ?p]) (simp add: utf8_valid_is_ascii b64_round_trip client_proof_def hmac_length)
qed

lemma honest_proof_checks:
  "length client_key = 32 \<Longrightarrow> sv_stored_key (ex_verifier ex) = sp_sha256 P client_key \<Longrightarrow>
   proof_checks P ex ext (client_proof P client_key ex ext)"
  by (simp add: proof_checks_def client_proof_def xor_bytes_cancel hmac_length)

lemma honest_accepts:
  assumes "client_first_parse m = Inr first" and "is_ascii (cf_nonce first)"
    and "length client_key = 32" and "sv_stored_key v = sp_sha256 P client_key"
    and "ex = exchange_new P first cbind (sp_b64_encode P rnd) user v False"
    and "is_ascii ext" and "ext = [] \<or> hd ext = CHR '',''"
  shows "verify P ex
    (bytes_of_str (client_final_text (ex_channel_binding ex) (ex_nonce ex) ext
       (sp_b64_encode P (client_proof P client_key ex ext)))) = Inr (server_final P ex ext)"
proof -
  have "exchange_wf ex" using exchange_new_wf [OF assms(1)] assms(5) by simp
  moreover have "is_ascii (ex_channel_binding ex)" "is_ascii (ex_nonce ex)" "\<not> ex_mock ex"
    "ex_verifier ex = v"
    using assms(2,5) by (simp_all add: exchange_new_def Let_def)
  ultimately show ?thesis
    using verify_matching [OF honest_final_matches] honest_proof_checks assms(3,4,6,7) by simp
qed

end

text \<open>A client that holds the key whose hash is the StoredKey, follows the protocol from any
  client-first-message the server accepts (with an ASCII nonce) and signs the transcript it has
  seen, with or without extensions, is accepted and receives the server's signature.\<close>

theorem honest_client_accepted:
  assumes "scram_crypto P" and "client_first_parse m = Inr first" and "is_ascii (cf_nonce first)"
    and "length client_key = 32" and "sv_stored_key v = sp_sha256 P client_key"
    and "ex = exchange_new P first cbind (sp_b64_encode P rnd) user v False"
    and "is_ascii ext" and "ext = [] \<or> hd ext = CHR '',''"
  shows "verify P ex
    (bytes_of_str (client_final_text (ex_channel_binding ex) (ex_nonce ex) ext
       (sp_b64_encode P (client_proof P client_key ex ext)))) = Inr (server_final P ex ext)"
  using scram_crypto.honest_accepts [OF assms(1)] assms(2-) by blast

definition sample_verifier :: scram_verifier where
  "sample_verifier =
     \<lparr>sv_iterations = 4096, sv_salt = [1, 2, 3], sv_stored_key = sha256 (replicate 32 7),
      sv_server_key = replicate 32 9\<rparr>"

definition sample_first :: client_first where
  "sample_first =
     \<lparr>cf_cbind_flag = ''n'', cf_gs2_header = ''n,,'', cf_bare = ''n=user,r=abc'', cf_nonce = ''abc''\<rparr>"

definition sample_exchange :: exchange where
  "sample_exchange = exchange_new rfc_prims sample_first [] (b64_encode [1, 2]) ''user'' sample_verifier False"

lemma sample_first_parse: "client_first_parse ''n,,n=user,r=abc'' = Inr sample_first"
  using client_first_parse_text [of "''n''" "[]" "''user''" "''abc''" "[]"]
  by (simp add: client_first_wf_def client_first_text_def sample_first_def)

lemma honest_client_accepted_witness:
  "verify rfc_prims sample_exchange
    (bytes_of_str (client_final_text (ex_channel_binding sample_exchange) (ex_nonce sample_exchange) '',x=1''
       (b64_encode (client_proof rfc_prims (replicate 32 7) sample_exchange '',x=1'')))) =
   Inr (server_final rfc_prims sample_exchange '',x=1'')"
  using honest_client_accepted [OF rfc.scram_crypto_axioms sample_first_parse, of "replicate 32 7"
      sample_verifier sample_exchange "[]" "[1, 2]" "''user''" "'',x=1''"]
  by (simp add: sample_exchange_def sample_verifier_def sample_first_def)


definition sample_final :: bytes where
  "sample_final = bytes_of_str
     (client_final_text (ex_channel_binding sample_exchange) (ex_nonce sample_exchange) '',x=1''
        (b64_encode (client_proof rfc_prims (replicate 32 7) sample_exchange '',x=1'')))"

lemma sample_exchange_facts:
  "exchange_wf sample_exchange" "is_ascii (ex_channel_binding sample_exchange)"
  "is_ascii (ex_nonce sample_exchange)" "ex_user sample_exchange = ''user''" "\<not> ex_mock sample_exchange"
  "sv_stored_key (ex_verifier sample_exchange) = sp_sha256 rfc_prims (replicate 32 7)"
proof -
  show "exchange_wf sample_exchange"
    using rfc.exchange_new_wf [OF sample_first_parse, of "[]" "[1, 2]"] by (simp add: sample_exchange_def)
  show "is_ascii (ex_channel_binding sample_exchange)" "is_ascii (ex_nonce sample_exchange)"
    using rfc.b64_ascii by (simp_all add: sample_exchange_def exchange_new_def Let_def sample_first_def is_ascii_def)
  show "ex_user sample_exchange = ''user''" "\<not> ex_mock sample_exchange"
    "sv_stored_key (ex_verifier sample_exchange) = sp_sha256 rfc_prims (replicate 32 7)"
    by (simp_all add: sample_exchange_def exchange_new_def Let_def sample_verifier_def)
qed

lemma sample_final_matches:
  "final_matches rfc_prims sample_exchange sample_final '',x=1''
     (client_proof rfc_prims (replicate 32 7) sample_exchange '',x=1'')"
  using rfc.honest_final_matches [OF sample_exchange_facts(1-3), of "'',x=1''" "replicate 32 7"]
  by (simp add: sample_final_def is_ascii_def)

lemma verify_accepts_iff_witness:
  "verify rfc_prims sample_exchange sample_final = Inr (server_final rfc_prims sample_exchange '',x=1'')"
  using verify_accepts_iff [OF rfc.scram_crypto_axioms] sample_final_matches sample_exchange_facts(5)
    rfc.honest_proof_checks [OF _ sample_exchange_facts(6), of "'',x=1''"] by auto

lemma verify_refuses_witness:
  "\<forall>ext pf. \<not> final_matches rfc_prims sample_exchange [0xFF] ext pf"
proof -
  have "verify rfc_prims sample_exchange [0xFF] = Inl (InvalidScramMessage ''SCRAM message is not UTF-8'')"
    by (simp add: verify_def utf8_def invalid_def utf8_valid.simps utf8_step_def utf8_follow_def)
  from verify_refuses [OF rfc.scram_crypto_axioms this] show ?thesis by auto
qed


section \<open>Stored verifiers and channel binding\<close>

lemma verifier_py_parse_Inr: "verifier_py_parse P text = Inr w \<longleftrightarrow> verifier_parse P text = Inr w"
  by (simp add: verifier_py_parse_def split: sum.split)

text \<open>C31: The text form of a verifier is read back as that verifier exactly when the verifier is one
  the constructor accepts (positive iterations, a salt, 32-byte keys), and whatever text is
  accepted gives such a verifier.\<close>

theorem verifier_text_round_trip:
  assumes "scram_crypto P"
  shows "(verifier_py_parse P (verifier_text P v) = Inr v \<longleftrightarrow>
      verifier_py_new (sv_iterations v) (sv_salt v) (sv_stored_key v) (sv_server_key v) = Inr v) \<and>
    (\<forall>text w. verifier_py_parse P text = Inr w \<longrightarrow> verifier_py_parse P (verifier_text P w) = Inr w)"
proof -
  have new: "verifier_py_new (sv_iterations v) (sv_salt v) (sv_stored_key v) (sv_server_key v) = Inr v \<longleftrightarrow>
      verifier_ok v"
    by (auto simp: verifier_py_new_def verifier_new_def verifier_ok_def)
  show ?thesis
    unfolding new verifier_py_parse_Inr
    using scram_crypto.verifier_parse_text [OF assms] verifier_parse_ok by blast
qed

lemma verifier_text_round_trip_witness:
  "verifier_py_parse rfc_prims (verifier_text rfc_prims
     \<lparr>sv_iterations = 4096, sv_salt = [1, 2], sv_stored_key = replicate 32 5, sv_server_key = replicate 32 6\<rparr>) =
   Inr \<lparr>sv_iterations = 4096, sv_salt = [1, 2], sv_stored_key = replicate 32 5, sv_server_key = replicate 32 6\<rparr>"
  using verifier_text_round_trip [OF rfc.scram_crypto_axioms, of
      "\<lparr>sv_iterations = 4096, sv_salt = [1, 2], sv_stored_key = replicate 32 5, sv_server_key = replicate 32 6\<rparr>"]
  by (simp add: verifier_py_new_def verifier_new_def)

text \<open>The channel binding data that a client and the server can agree on, by RFC 5802 section 6.\<close>

lemma negotiate_Inr:
  "negotiate mechanism flag certificate = Inr d \<longleftrightarrow>
     (case certificate of
        None \<Rightarrow> mechanism = SCRAM_SHA_256_METHOD \<and> flag \<in> {''n'', ''y''} \<and> d = []
      | Some signature \<Rightarrow>
          (mechanism = SCRAM_SHA_256_METHOD \<and> flag = ''n'' \<and> d = []) \<or>
          (mechanism = SCRAM_SHA_256_PLUS_METHOD \<and> flag = ''p=tls-server-end-point'' \<and> d = signature))"
  by (auto simp: negotiate_def SCRAM_SHA_256_METHOD_def SCRAM_SHA_256_PLUS_METHOD_def split: option.splits)

lemma exchange_new_simps [simp]:
  "ex_user (exchange_new P first cbind rnd user v mock) = user"
  "ex_verifier (exchange_new P first cbind rnd user v mock) = v"
  "ex_mock (exchange_new P first cbind rnd user v mock) = mock"
  "ex_nonce (exchange_new P first cbind rnd user v mock) = cf_nonce first @ rnd"
  "ex_channel_binding (exchange_new P first cbind rnd user v mock) =
     sp_b64_encode P (bytes_of_str (cf_gs2_header first) @ cbind)"
  by (simp_all add: exchange_new_def Let_def)

lemma client_first_header:
  assumes "client_first_parse m = Inr first"
  shows "\<exists>authzid. cf_gs2_header first = cf_cbind_flag first @ '','' @ authzid @ '',''"
proof -
  from client_first_parse_Inr [OF assms] obtain authzid user ext
    where wf: "client_first_wf (cf_cbind_flag first) authzid user (cf_nonce first) ext"
      and m: "m = client_first_text (cf_cbind_flag first) authzid user (cf_nonce first) ext" by blast
  from client_first_parse_text [OF wf] assms
  have "cf_gs2_header first = cf_cbind_flag first @ '','' @ authzid @ '',''"
    unfolding m by (cases first) simp
  then show ?thesis by blast
qed

text \<open>C15: On a TLS connection the exchange detects a downgrade and a man in the middle: a client that
  believes the server has no channel binding (flag \<open>y\<close>) is refused at once, and a client that
  binds to a certificate is accepted only if it used the PLUS mechanism and its final message
  repeats, in Base64, its own header followed by the hash of this server's certificate.\<close>

theorem channel_binding_enforced:
  assumes "scram_crypto P" and "client_first_parse m = Inr first"
    and "negotiate mechanism (cf_cbind_flag first) (Some signature) = Inr cbind"
    and "verify P (exchange_new P first cbind rnd user v mock) message = Inr out"
  shows "cf_cbind_flag first \<noteq> ''y'' \<and>
    (cf_cbind_flag first = ''n'' \<or>
     mechanism = SCRAM_SHA_256_PLUS_METHOD \<and>
     (\<exists>authzid rest. str_of_bytes message =
        ''c='' @ sp_b64_encode P
          (bytes_of_str (''p=tls-server-end-point,'' @ authzid @ '','') @ signature) @ '',r='' @ rest))"
proof -
  from verify_not_matching [of P _ message out] assms(4) obtain ext pf
    where fm: "final_matches P (exchange_new P first cbind rnd user v mock) message ext pf" by blast
  obtain authzid where h: "cf_gs2_header first = cf_cbind_flag first @ '','' @ authzid @ '',''"
    using client_first_header [OF assms(2)] by blast
  let ?cb = "sp_b64_encode P (bytes_of_str (cf_gs2_header first) @ cbind)"
  from fm obtain rest where msg: "str_of_bytes message = ''c='' @ ?cb @ '',r='' @ rest"
    by (auto simp: final_matches_def client_final_text_def final_without_proof_def)
  from assms(3) consider (none) "cf_cbind_flag first = ''n''"
    | (plus) "mechanism = SCRAM_SHA_256_PLUS_METHOD" "cf_cbind_flag first = ''p=tls-server-end-point''"
        "cbind = signature"
    by (auto simp: negotiate_Inr)
  then show ?thesis
  proof cases
    case none
    then show ?thesis by simp
  next
    case plus
    have "?cb = sp_b64_encode P (bytes_of_str (''p=tls-server-end-point,'' @ authzid @ '','') @ signature)"
      using plus h by simp
    with msg have "\<exists>authzid rest. str_of_bytes message = ''c='' @ sp_b64_encode P
        (bytes_of_str (''p=tls-server-end-point,'' @ authzid @ '','') @ signature) @ '',r='' @ rest"
      by metis
    with plus show ?thesis by simp
  qed
qed


definition sample_first_plus :: client_first where
  "sample_first_plus =
     \<lparr>cf_cbind_flag = ''p=tls-server-end-point'', cf_gs2_header = ''p=tls-server-end-point,,'',
      cf_bare = ''n=user,r=abc'', cf_nonce = ''abc''\<rparr>"

lemma sample_first_plus_parse:
  "client_first_parse ''p=tls-server-end-point,,n=user,r=abc'' = Inr sample_first_plus"
  using client_first_parse_text [of "''p=tls-server-end-point''" "[]" "''user''" "''abc''" "[]"]
  by (simp add: client_first_wf_def client_first_text_def sample_first_plus_def)

definition sample_exchange_plus :: exchange where
  "sample_exchange_plus =
     exchange_new rfc_prims sample_first_plus [5, 6, 7] (b64_encode [1, 2]) ''user'' sample_verifier False"

definition sample_final_plus :: bytes where
  "sample_final_plus = bytes_of_str
     (client_final_text (ex_channel_binding sample_exchange_plus) (ex_nonce sample_exchange_plus) []
        (b64_encode (client_proof rfc_prims (replicate 32 7) sample_exchange_plus [])))"

lemma sample_plus_accepted:
  "verify rfc_prims sample_exchange_plus sample_final_plus = Inr (server_final rfc_prims sample_exchange_plus [])"
  unfolding sample_final_plus_def rfc_prims_simps(1) [symmetric]
  by (rule rfc.honest_accepts [OF sample_first_plus_parse, where v = sample_verifier])
    (simp_all add: sample_exchange_plus_def sample_verifier_def sample_first_plus_def)

lemma channel_binding_enforced_witness:
  "\<exists>authzid rest. str_of_bytes sample_final_plus =
     ''c='' @ b64_encode (bytes_of_str (''p=tls-server-end-point,'' @ authzid @ '','') @ [5, 6, 7]) @ '',r='' @ rest"
proof -
  have n: "negotiate ''SCRAM-SHA-256-PLUS'' (cf_cbind_flag sample_first_plus) (Some [5, 6, 7]) = Inr [5, 6, 7]"
    by (simp add: negotiate_Inr sample_first_plus_def SCRAM_SHA_256_PLUS_METHOD_def)
  have flag: "cf_cbind_flag sample_first_plus \<noteq> ''n''" by (simp add: sample_first_plus_def)
  from channel_binding_enforced [OF rfc.scram_crypto_axioms sample_first_plus_parse n
      sample_plus_accepted [unfolded sample_exchange_plus_def]] flag
  show ?thesis unfolding rfc_prims_simps by blast
qed

end
