(* ===== verification/Empty_Query.thy ===== *)
theory Empty_Query
  imports Rust_Str
begin

text \<open>
  \<open>is_empty_query\<close> of \<open>src/extended.rs\<close>: whether the text of a Parse message holds nothing but white
  space, semicolons and comments, so that Python is not asked to parse it. The scanner counts the
  depth of nested comments; the reference is a grammar in which comments nest by recursion. The
  scanner compares with ASCII characters only, so it reads the same over the bytes of the text.
\<close>

section \<open>The scanner\<close>

definition is_ascii_whitespace :: "char \<Rightarrow> bool" where
  "is_ascii_whitespace c \<longleftrightarrow> c \<in> {CHR '' '', CHR 0x09, CHR 0x0A, CHR 0x0C, CHR 0x0D}"

text \<open>\<open>Peekable::next_if_eq\<close>: what is left when the next character is the given one.\<close>

definition next_if_eq :: "char \<Rightarrow> string \<Rightarrow> string option" where
  "next_if_eq c s = (case s of [] \<Rightarrow> None | d # r \<Rightarrow> if d = c then Some r else None)"

fun skip_line :: "string \<Rightarrow> string" where
  "skip_line [] = []"
| "skip_line (c # s) = (if c = CHR 0x0A \<or> c = CHR 0x0D then s else skip_line s)"

lemma next_if_eq_Some: "next_if_eq c s = Some r \<longleftrightarrow> s = c # r"
  by (auto simp: next_if_eq_def split: list.splits)

lemma next_if_eq_None: "next_if_eq c s = None \<longleftrightarrow> (\<forall>r. s \<noteq> c # r)"
  by (auto simp: next_if_eq_def split: list.splits)

text \<open>The loop over a block comment: the final depth and what is left.\<close>

function skip_block :: "nat \<Rightarrow> string \<Rightarrow> nat \<times> string" where
  "skip_block depth [] = (depth, [])"
| "skip_block depth (c # s) =
     (case (if c = CHR ''/'' then next_if_eq CHR ''*'' s else None) of
        Some r \<Rightarrow> skip_block (depth + 1) r
      | None \<Rightarrow>
          (case (if c = CHR ''*'' then next_if_eq CHR ''/'' s else None) of
             Some r \<Rightarrow> (if depth - 1 = 0 then (depth - 1, r) else skip_block (depth - 1) r)
           | None \<Rightarrow> skip_block depth s))"
  by pat_completeness auto
termination
  by (relation "measure (length \<circ> snd)") (auto simp: next_if_eq_Some split: if_splits)

lemma skip_line_length: "length (skip_line s) \<le> length s"
  by (induction s) auto

lemma skip_block_length: "length (snd (skip_block d s)) \<le> length s"
proof (induction d s rule: skip_block.induct)
  case (1 d)
  then show ?case by simp
next
  case (2 d c s)
  show ?case
  proof (cases "if c = CHR ''/'' then next_if_eq CHR ''*'' s else None")
    case open_mark: None
    show ?thesis
    proof (cases "if c = CHR ''*'' then next_if_eq CHR ''/'' s else None")
      case None
      have "length (snd (skip_block d s)) \<le> length s" using "2.IH" open_mark None by blast
      with open_mark None show ?thesis by simp
    next
      case (Some r)
      then have "length r < length s" by (auto simp: next_if_eq_Some split: if_splits)
      with Some open_mark "2.IH" show ?thesis by fastforce
    qed
  next
    case (Some r)
    then have "length r < length s" by (auto simp: next_if_eq_Some split: if_splits)
    with Some "2.IH" show ?thesis by fastforce
  qed
qed

function is_empty_query :: "string \<Rightarrow> bool" where
  "is_empty_query [] = True"
| "is_empty_query (c # s) =
     (if is_ascii_whitespace c \<or> c = CHR '';'' then is_empty_query s
      else
        (case (if c = CHR ''-'' then next_if_eq CHR ''-'' s else None) of
           Some r \<Rightarrow> is_empty_query (skip_line r)
         | None \<Rightarrow>
             (case (if c = CHR ''/'' then next_if_eq CHR ''*'' s else None) of
                Some r \<Rightarrow>
                  (if fst (skip_block 1 r) \<noteq> 0 then False
                   else is_empty_query (snd (skip_block 1 r)))
              | None \<Rightarrow> False)))"
  by pat_completeness auto
termination
proof (relation "measure length")
  show "wf (measure (length :: string \<Rightarrow> nat))" by simp
next
  fix c s r
  assume "(if c = CHR ''-'' then next_if_eq CHR ''-'' s else None) = Some r"
  then have "s = CHR ''-'' # r" by (auto simp: next_if_eq_Some split: if_splits)
  with skip_line_length [of r] show "(skip_line r, c # s) \<in> measure length" by simp
next
  fix c s r
  assume "(if c = CHR ''/'' then next_if_eq CHR ''*'' s else None) = Some r"
  then have "s = CHR ''*'' # r" by (auto simp: next_if_eq_Some split: if_splits)
  with skip_block_length [of 1 r] show "(snd (skip_block 1 r), c # s) \<in> measure length" by simp
qed auto

section \<open>The grammar\<close>

text \<open>
  \<open>block s r\<close>: \<open>s\<close> is a block comment followed by \<open>r\<close>; \<open>body s t\<close>: \<open>s\<close> is a piece of the inside
  of a comment followed by \<open>t\<close>, made of whole comments and of characters that start neither an
  opening nor a closing mark.
\<close>

inductive block :: "string \<Rightarrow> string \<Rightarrow> bool" and body :: "string \<Rightarrow> string \<Rightarrow> bool" where
  block: "body s (''*/'' @ r) \<Longrightarrow> block (''/*'' @ s) r"
| body_end: "body s s"
| body_comment: "block s t \<Longrightarrow> body t u \<Longrightarrow> body s u"
| body_char: "\<not> starts_with ''/*'' (c # s) \<Longrightarrow> \<not> starts_with ''*/'' (c # s) \<Longrightarrow> body s u \<Longrightarrow> body (c # s) u"

inductive blank :: "string \<Rightarrow> bool" where
  blank_end: "blank []"
| blank_space: "is_ascii_whitespace c \<or> c = CHR '';'' \<Longrightarrow> blank s \<Longrightarrow> blank (c # s)"
| blank_line: "CHR 0x0A \<notin> set l \<Longrightarrow> CHR 0x0D \<notin> set l \<Longrightarrow> e = CHR 0x0A \<or> e = CHR 0x0D \<Longrightarrow> blank s \<Longrightarrow>
    blank (''--'' @ l @ e # s)"
| blank_last_line: "CHR 0x0A \<notin> set l \<Longrightarrow> CHR 0x0D \<notin> set l \<Longrightarrow> blank (''--'' @ l)"
| blank_block: "block s r \<Longrightarrow> blank r \<Longrightarrow> blank s"

section \<open>The scanner reads the grammar\<close>

lemma skip_block_open [simp]: "skip_block d (CHR ''/'' # CHR ''*'' # s) = skip_block (Suc d) s"
  by (simp add: next_if_eq_def)

lemma skip_block_close [simp]:
  "skip_block d (CHR ''*'' # CHR ''/'' # s) = (if d - 1 = 0 then (0, s) else skip_block (d - 1) s)"
  by (simp add: next_if_eq_def)

lemma skip_block_char [simp]:
  assumes "\<not> starts_with ''/*'' (c # s)" and "\<not> starts_with ''*/'' (c # s)"
  shows "skip_block d (c # s) = skip_block d s"
proof -
  from assms have "(if c = CHR ''/'' then next_if_eq CHR ''*'' s else None) = None"
    and "(if c = CHR ''*'' then next_if_eq CHR ''/'' s else None) = None"
    by (auto simp: starts_with_iff next_if_eq_None)
  then show ?thesis unfolding skip_block.simps by simp
qed

declare skip_block.simps(2) [simp del]

text \<open>The text that closes \<open>d\<close> open comments.\<close>

primrec closes :: "nat \<Rightarrow> string \<Rightarrow> string \<Rightarrow> bool" where
  "closes 0 s r \<longleftrightarrow> s = r"
| "closes (Suc d) s r \<longleftrightarrow> (\<exists>t. body s (''*/'' @ t) \<and> closes d t r)"

lemma block_text_cases:
  obtains "s = []" | r where "s = CHR ''/'' # CHR ''*'' # r" | r where "s = CHR ''*'' # CHR ''/'' # r"
  | c r where "s = c # r" "\<not> starts_with ''/*'' s" "\<not> starts_with ''*/'' s"
  by (cases s) (auto simp: starts_with_iff)

lemma skip_block_closes: "skip_block (Suc d) s = (0, r) \<Longrightarrow> closes (Suc d) s r"
proof (induction "length s" arbitrary: d s rule: less_induct)
  case less
  show ?case
  proof (cases s rule: block_text_cases)
    case 1
    with less.prems show ?thesis by simp
  next
    case (2 t)
    with less.prems less.hyps [of t "Suc d"] have "closes (Suc (Suc d)) t r" by simp
    then obtain u v where "body t (''*/'' @ u)" "body u (''*/'' @ v)" "closes d v r" by auto
    with 2 body_comment [OF block [of t u]] show ?thesis by auto
  next
    case (3 t)
    have "closes d t r"
      using less.prems less.hyps [of t "d - 1"] 3 by (cases d) (auto split: if_splits)
    with 3 body_end [of s] show ?thesis by auto
  next
    case (4 c t)
    with less.prems less.hyps [of t d] have "closes (Suc d) t r" by simp
    with 4 show ?thesis by (auto intro: body_char)
  qed
qed

lemma closes_skip_block:
  "block s r \<Longrightarrow> skip_block (Suc d) s = skip_block (Suc d) r"
  "body s t \<Longrightarrow> skip_block (Suc d) s = skip_block (Suc d) t"
  by (induction arbitrary: d and d rule: block_body.inducts) simp_all

lemma skip_block_body: "fst (skip_block 1 s) = 0 \<longleftrightarrow> block (''/*'' @ s) (snd (skip_block 1 s))"
proof
  assume "fst (skip_block 1 s) = 0"
  then have "skip_block (Suc 0) s = (0, snd (skip_block 1 s))" by (simp add: prod_eq_iff)
  from skip_block_closes [OF this] block [of s "snd (skip_block 1 s)"]
  show "block (''/*'' @ s) (snd (skip_block 1 s))" by auto
next
  assume "block (''/*'' @ s) (snd (skip_block 1 s))"
  then have "body s (''*/'' @ snd (skip_block 1 s))" by (cases) auto
  from closes_skip_block(2) [OF this, of 0] have "skip_block 1 s = (0, snd (skip_block 1 s))" by simp
  then show "fst (skip_block 1 s) = 0" by (metis fst_conv)
qed

lemma block_skip_block: "block (''/*'' @ s) r \<Longrightarrow> skip_block 1 s = (0, r)"
proof -
  assume "block (''/*'' @ s) r"
  then have "body s (''*/'' @ r)" by (cases) auto
  from closes_skip_block(2) [OF this, of 0] show ?thesis by simp
qed

lemma skip_line_append:
  "CHR 0x0A \<notin> set l \<Longrightarrow> CHR 0x0D \<notin> set l \<Longrightarrow>
   skip_line (l @ s) = (case s of [] \<Rightarrow> [] | e # r \<Rightarrow> if e = CHR 0x0A \<or> e = CHR 0x0D then r else skip_line r)"
  by (induction l) (auto split: list.split)

lemma skip_line_split:
  "(CHR 0x0A \<notin> set s \<and> CHR 0x0D \<notin> set s \<and> skip_line s = []) \<or>
   (\<exists>l e. s = l @ e # skip_line s \<and> CHR 0x0A \<notin> set l \<and> CHR 0x0D \<notin> set l \<and> e \<in> {CHR 0x0A, CHR 0x0D})"
proof (induction s)
  case Nil
  then show ?case by simp
next
  case (Cons c s)
  show ?case
  proof (cases "c = CHR 0x0A \<or> c = CHR 0x0D")
    case True
    then have "c # s = [] @ c # skip_line (c # s)" by auto
    with True show ?thesis by (intro disjI2 exI [of _ "[]"] exI [of _ c]) simp
  next
    case False
    then have sk: "skip_line (c # s) = skip_line s" by simp
    from Cons.IH show ?thesis
    proof (elim disjE exE conjE)
      fix l e
      assume "s = l @ e # skip_line s" "CHR 0x0A \<notin> set l" "CHR 0x0D \<notin> set l" "e \<in> {CHR 0x0A, CHR 0x0D}"
      with False sk show ?thesis by (intro disjI2 exI [of _ "c # l"] exI [of _ e]) auto
    qed (use False sk in auto)
  qed
qed

lemma is_empty_query_blank: "is_empty_query s \<Longrightarrow> blank s"
proof (induction s rule: is_empty_query.induct)
  case 1
  show ?case by (rule blank_end)
next
  case (2 c s)
  consider (space) "is_ascii_whitespace c \<or> c = CHR '';''"
    | (line) r where "c = CHR ''-''" "s = CHR ''-'' # r" "\<not> (is_ascii_whitespace c \<or> c = CHR '';'')"
    | (comment) r where "c = CHR ''/''" "s = CHR ''*'' # r" "\<not> (is_ascii_whitespace c \<or> c = CHR '';'')"
    using "2.prems" by (auto simp: next_if_eq_Some split: if_splits option.splits)
  then show ?case
  proof cases
    case space
    with 2 show ?thesis by (auto intro: blank_space)
  next
    case (line r)
    with 2 have b: "blank (skip_line r)" by (simp add: next_if_eq_def)
    from skip_line_split [of r] show ?thesis
    proof (elim disjE exE conjE)
      assume "CHR 0x0A \<notin> set r" "CHR 0x0D \<notin> set r"
      with blank_last_line [of r] line show ?thesis by simp
    next
      fix l e
      assume r: "r = l @ e # skip_line r" and "CHR 0x0A \<notin> set l" "CHR 0x0D \<notin> set l"
        "e \<in> {CHR 0x0A, CHR 0x0D}"
      with b have "blank (''--'' @ l @ e # skip_line r)" by (intro blank_line) auto
      with r line show ?thesis by simp
    qed
  next
    case (comment r)
    with 2 have "blank (snd (skip_block 1 r))" "fst (skip_block 1 r) = 0"
      by (auto simp: next_if_eq_def split: if_splits)
    with comment skip_block_body [of r] show ?thesis by (auto intro: blank_block)
  qed
qed

lemma not_space: "\<not> is_ascii_whitespace CHR ''-''" "\<not> is_ascii_whitespace CHR ''/''"
  by (simp_all add: is_ascii_whitespace_def)

lemma blank_is_empty_query: "blank s \<Longrightarrow> is_empty_query s"
proof (induction rule: blank.induct)
  case (blank_line l e s)
  then show ?case by (auto simp: not_space next_if_eq_def skip_line_append)
next
  case (blank_last_line l)
  then show ?case using skip_line_append [of l "[]"] by (simp add: not_space next_if_eq_def)
next
  case (blank_block s r)
  then obtain t where t: "s = ''/*'' @ t" by (auto elim: block.cases)
  with blank_block(1) have "skip_block 1 t = (0, r)" by (intro block_skip_block) simp
  with blank_block t show ?case by (simp add: not_space next_if_eq_def)
qed simp_all

text \<open>C28: Python is not asked to parse a text exactly when the grammar says it is blank: white space,
  semicolons, line comments up to a newline or carriage return, and properly nested block
  comments. A block comment left open is not blank.\<close>

theorem empty_query_is_blank: "is_empty_query sql \<longleftrightarrow> blank sql"
  using is_empty_query_blank blank_is_empty_query by blast

end
