(* ===== verification/Bridge.thy ===== *)
theory Bridge
  imports Auth Query Scram
begin

text \<open>
  How the Rust side reaches Python and the client. A call of a Python coroutine has two halves:
  it is dispatched under the GIL (which may raise at once) and its result is awaited. Python, the
  client's socket and the request to shut down are an environment (\<open>py_env\<close>) that acts on a world
  of its own. Every await is a point at which the accept loop of \<open>serve\<close> may drop the task, but
  not while the task holds the lock \<open>closing\<close>: then the shutdown waits for it. A request that pgwire
  cancels, and a task that is aborted, is dropped at any await.

  The callers here are those of \<open>src/auth.rs\<close> and \<open>src/query.rs\<close>: \<open>get_password\<close>,
  \<open>do_query_on\<close> and the rows of a stream.
\<close>

section \<open>Calls, messages and events\<close>

text \<open>Each call names the receiver first.\<close>

datatype py_call =
    Call_open pyobj login_info
  | Call_get_password pyobj login_info
  | Call_get_scram_verifier pyobj login_info
  | Call_do_query pyobj string
  | Call_parse_statement pyobj string string "u32 list"
  | Call_bind_portal pyobj string pyobj "bytes option list" "i16 list" "i16 list"
  | Call_describe_statement pyobj pyobj
  | Call_describe_portal pyobj pyobj
  | Call_portal_query pyobj pyobj nat
  | Call_close_portal pyobj string
  | Call_close_statement pyobj string
  | Call_close pyobj
  | Call_anext pyobj

datatype call_result = Dispatch_error py_err | Await_error py_err | Returned pyobj

text \<open>pgwire's transaction status, the states of a connection the code tests or sets, and the
  messages it sends.\<close>

datatype transaction_status = Idle | Transaction | Failed

datatype conn_state = AuthenticationInProgress | ReadyForQuery | Other_state nat

datatype backend_msg =
    ParseComplete
  | BindComplete
  | CloseComplete
  | ReadyForQuery_msg transaction_status
  | Auth_SASL "string list"
  | Auth_SASLContinue bytes
  | Auth_SASLFinal bytes

text \<open>
  \<open>Ev_call c ok\<close>: the call was dispatched and awaited to its end, and returned a value or failed;
  \<open>Ev_dropped c\<close>: the task was dropped while it awaited the call.
\<close>

datatype event =
    Ev_call py_call bool
  | Ev_dropped py_call
  | Ev_send backend_msg bool
  | Ev_flush bool

text \<open>How a program ends early: an error of pgwire, a failed \<open>expect\<close>, the drop of the task at an
  await, or an await that never ends because the task itself holds the lock.\<close>

datatype failure = Pg pgwire_error | Panic | Dropped | Deadlock

record 'w py_env =
  rt :: py_runtime
  escaped :: "nat \<Rightarrow> bool"
  types :: type_table
  do_call :: "py_call \<Rightarrow> 'w \<Rightarrow> call_result \<times> 'w"
  has_close :: "pyobj \<Rightarrow> 'w \<Rightarrow> bool \<times> 'w"
  do_send :: "backend_msg \<Rightarrow> 'w \<Rightarrow> (pgwire_error + unit) \<times> 'w"
  do_flush :: "'w \<Rightarrow> (pgwire_error + unit) \<times> 'w"
  stopping :: "'w \<Rightarrow> bool"
  aborting :: "'w \<Rightarrow> bool"
  hash_order :: "'w \<Rightarrow> string list \<Rightarrow> string list"
  x_password :: "pyobj \<Rightarrow> py_err + py_password"
  x_verifier :: "pyobj \<Rightarrow> py_err + scram_verifier option"
  x_responses :: "pyobj \<Rightarrow> py_err + py_response list"
  x_response :: "pyobj \<Rightarrow> py_err + py_response"
  x_cells :: "pyobj \<Rightarrow> py_err + bytes option list"
  x_parameter_types :: "pyobj \<Rightarrow> py_err + u32 list"
  x_fields :: "pyobj \<Rightarrow> py_err + py_field_info list"

record 'w bridge =
  b_world :: 'w
  b_trace :: "event list"
  b_held :: bool

type_synonym ('w, 'z, 'a) io = "(('w, 'z) bridge_scheme, failure, 'a) prog"

section \<open>Awaiting\<close>

definition log_event :: "event \<Rightarrow> ('w, 'z) bridge_scheme \<Rightarrow> ('w, 'z) bridge_scheme" where
  "log_event ev s = s\<lparr>b_trace := b_trace s @ [ev]\<rparr>"

text \<open>Whether the future is dropped at an await: shutdown was requested and the lock is free, or its
  owner drops it without asking (pgwire cancels the request, or the accept loop fails and aborts its
  tasks), whatever lock it holds.\<close>

definition dropped :: "'w py_env \<Rightarrow> ('w, 'z) bridge_scheme \<Rightarrow> bool" where
  "dropped E s \<longleftrightarrow> stopping E (b_world s) \<and> \<not> b_held s \<or> aborting E (b_world s)"

definition py_await :: "'w py_env \<Rightarrow> py_call \<Rightarrow> ('w, 'z, call_result) io" where
  "py_await E c = (\<lambda>s.
     case do_call E c (b_world s) of
       (r, w) \<Rightarrow>
         (let s = s\<lparr>b_world := w\<rparr>
          in case r of
               Dispatch_error e \<Rightarrow> (Inr r, log_event (Ev_call c False) s)
             | Await_error e \<Rightarrow>
                 if dropped E s then (Inl Dropped, log_event (Ev_dropped c) s)
                 else (Inr r, log_event (Ev_call c False) s)
             | Returned v \<Rightarrow>
                 if dropped E s then (Inl Dropped, log_event (Ev_dropped c) s)
                 else (Inr r, log_event (Ev_call c True) s)))"

definition py_fail :: "'w py_env \<Rightarrow> py_err \<Rightarrow> ('w, 'z, 'a) io" where
  "py_fail E e = throw (Pg (py_err_to_pywire (rt E) e))"

text \<open>\<open>map_err(py_error)\<close> on the result of an extraction.\<close>

definition py_lift :: "'w py_env \<Rightarrow> py_err + 'a \<Rightarrow> ('w, 'z, 'a) io" where
  "py_lift E r = (case r of Inl e \<Rightarrow> py_fail E e | Inr x \<Rightarrow> ret x)"

text \<open>Dispatch, await, and translate the exception of either half.\<close>

definition call :: "'w py_env \<Rightarrow> py_call \<Rightarrow> ('w, 'z, pyobj) io" where
  "call E c =
     bindE (py_await E c) (\<lambda>r.
       case r of
         Dispatch_error e \<Rightarrow> py_fail E e
       | Await_error e \<Rightarrow> py_fail E e
       | Returned v \<Rightarrow> ret v)"

text \<open>A message that fails to be sent is an error of the handler (\<open>client.send(..).await?\<close>).\<close>

definition send :: "'w py_env \<Rightarrow> backend_msg \<Rightarrow> ('w, 'z, unit) io" where
  "send E m = (\<lambda>s.
     case do_send E m (b_world s) of
       (r, w) \<Rightarrow>
         (let s = s\<lparr>b_world := w\<rparr>
          in if dropped E s then (Inl Dropped, s)
             else (case r of
                     Inl e \<Rightarrow> (Inl (Pg e), log_event (Ev_send m False) s)
                   | Inr u \<Rightarrow> (Inr (), log_event (Ev_send m True) s))))"

definition flush :: "'w py_env \<Rightarrow> ('w, 'z, unit) io" where
  "flush E = (\<lambda>s.
     case do_flush E (b_world s) of
       (r, w) \<Rightarrow>
         (let s = s\<lparr>b_world := w\<rparr>
          in if dropped E s then (Inl Dropped, s)
             else (case r of
                     Inl e \<Rightarrow> (Inl (Pg e), log_event (Ev_flush False) s)
                   | Inr u \<Rightarrow> (Inr (), log_event (Ev_flush True) s))))"

text \<open>
  \<open>let _closing = closing.lock().await\<close>: waiting for the lock is an await; the guard is dropped at
  the end of the block on every path. The lock is not reentrant.
\<close>

definition with_closing :: "'w py_env \<Rightarrow> ('w, 'z, 'a) io \<Rightarrow> ('w, 'z, 'a) io" where
  "with_closing E m = (\<lambda>s.
     if b_held s then (Inl Deadlock, s)
     else if dropped E s then (Inl Dropped, s)
     else (case m (s\<lparr>b_held := True\<rparr>) of (r, t) \<Rightarrow> (r, t\<lparr>b_held := False\<rparr>)))"

section \<open>Callers\<close>

text \<open>\<open>PyAuthSource::get_password\<close>.\<close>

definition get_password :: "'w py_env \<Rightarrow> pyobj \<Rightarrow> pg_login_info \<Rightarrow> ('w, 'z, pg_password) io" where
  "get_password E instance login =
     bindE (call E (Call_get_password instance (login_info_from_pg login))) (\<lambda>result.
     bindE (py_lift E (x_password E result)) (\<lambda>pwd.
     ret (pg_password_of_py pwd)))"

text \<open>\<open>PyQueryHandler::do_query_on\<close> keeps the Python exception; its caller translates it.\<close>

definition do_query_on :: "'w py_env \<Rightarrow> pyobj \<Rightarrow> string \<Rightarrow> ('w, 'z, py_err + py_response list) io" where
  "do_query_on E instance query =
     bindE (py_await E (Call_do_query instance query)) (\<lambda>r.
       case r of
         Dispatch_error e \<Rightarrow> ret (Inl e)
       | Await_error e \<Rightarrow> ret (Inl e)
       | Returned result \<Rightarrow> ret (x_responses E result))"

text \<open>The test helpers of the two modules: they drive the adapters and turn the outcome into Python
  values, an error of pgwire back into an exception.\<close>

definition test_drive_handler :: "'w py_env \<Rightarrow> pyobj \<Rightarrow> string \<Rightarrow> ('w, 'z, py_err + (string \<times> string) list) io" where
  "test_drive_handler E handler query =
     bindE (do_query_on E handler query) (\<lambda>r.
     ret (map_sum id (map (\<lambda>r. (response_kind r, drive_summary r))) r))"

definition to_py :: "'w py_env \<Rightarrow> ('s, failure, 'a) prog \<Rightarrow> ('s, failure, py_err + 'a) prog" where
  "to_py E m = (\<lambda>s.
     case m s of
       (Inr x, t) \<Rightarrow> (Inr (Inr x), t)
     | (Inl (Pg e), t) \<Rightarrow> (Inr (Inl (pywire_to_py_err (rt E) e)), t)
     | (Inl f, t) \<Rightarrow> (Inl f, t))"

definition test_call_get_password ::
  "'w py_env \<Rightarrow> pyobj \<Rightarrow> string option \<Rightarrow> string option \<Rightarrow> string \<Rightarrow> ('w, 'z, py_err + py_password) io" where
  "test_call_get_password E auth_source user database host =
     bindE (to_py E (get_password E auth_source \<lparr>pgl_user = user, pgl_database = database, pgl_host = host\<rparr>)) (\<lambda>r.
     ret (map_sum id (\<lambda>pg_pass. \<lparr>pw_password = pgp_password pg_pass, pw_salt = pgp_salt pg_pass\<rparr>) r))"

text \<open>
  One step of the \<open>stream::unfold\<close> of a streamed response: the item and the next state, or the end
  of the stream. An exception that is a \<open>StopAsyncIteration\<close> ends the stream only when it comes out
  of the awaited result.
\<close>

definition stream_item ::
  "'w py_env \<Rightarrow> pyobj \<Rightarrow> call_result \<Rightarrow> ((pgwire_error + pg_data_row) \<times> pyobj option) option" where
  "stream_item E rows r =
     (case r of
        Returned value \<Rightarrow>
          (case x_cells E value of
             Inr cells \<Rightarrow> Some (Inr (encode_data_row cells), Some rows)
           | Inl err \<Rightarrow> Some (Inl (py_err_to_pywire (rt E) err), None))
      | Await_error err \<Rightarrow>
          if rt_stop_iteration (rt E) err then None
          else Some (Inl (py_err_to_pywire (rt E) err), None)
      | Dispatch_error err \<Rightarrow> Some (Inl (py_err_to_pywire (rt E) err), None))"

definition stream_next ::
  "'w py_env \<Rightarrow> pyobj option \<Rightarrow> ('w, 'z, ((pgwire_error + pg_data_row) \<times> pyobj option) option) io" where
  "stream_next E state =
     (case state of
        None \<Rightarrow> ret None
      | Some rows \<Rightarrow> bindE (py_await E (Call_anext rows)) (\<lambda>r. ret (stream_item E rows r)))"

text \<open>
  Polling a stream to its end, as its consumer does: the items so far and whether it has ended. A
  Python iterator need not end, so the number of polls is bounded by fuel.
\<close>

fun stream_collect ::
  "'w py_env \<Rightarrow> nat \<Rightarrow> pyobj option \<Rightarrow> ('w, 'z, (pgwire_error + pg_data_row) list \<times> bool) io" where
  "stream_collect E 0 state = ret ([], state = None)"
| "stream_collect E (Suc n) state =
     bindE (stream_next E state) (\<lambda>step.
       case step of
         None \<Rightarrow> ret ([], True)
       | Some (item, next) \<Rightarrow>
           bindE (stream_collect E n next) (\<lambda>(items, ended). ret (item # items, ended)))"

section \<open>Rules\<close>

lemma py_await_trace:
  "py_await E c s = (Inr r, t) \<Longrightarrow> b_trace t = b_trace s @ [Ev_call c (\<exists>v. r = Returned v)]"
  by (auto simp: py_await_def log_event_def Let_def split: prod.splits call_result.splits if_splits)

lemma bindE_Inr:
  "bindE m f s = (Inr y, t) \<longleftrightarrow> (\<exists>x u. m s = (Inr x, u) \<and> f x u = (Inr y, t))"
  by (auto simp: bindE_def split: prod.splits sum.splits)

lemma bindE_InrE:
  assumes "bindE m f s = (Inr y, t)"
  obtains x u where "m s = (Inr x, u)" "f x u = (Inr y, t)"
  using assms by (auto simp: bindE_Inr)

lemma ret_eq [simp]: "ret x s = (Inr y, t) \<longleftrightarrow> y = x \<and> t = s"
  by (auto simp: ret_def)

lemma throw_eq [simp]: "throw e s \<noteq> (Inr y, t)"
  by (simp add: throw_def)

lemma py_fail_eq [simp]: "py_fail E e s \<noteq> (Inr y, t)"
  by (simp add: py_fail_def)

lemma stream_collect_None: "stream_collect E n None s = (Inr ([], True), s)"
  by (cases n) (simp_all add: stream_next_def ret_def bindE_def)

text \<open>What one poll of a live stream can do.\<close>

lemma stream_next_cases:
  assumes "stream_next E (Some rows) s = (Inr step, t)"
  shows "\<exists>ok. b_trace t = b_trace s @ [Ev_call (Call_anext rows) ok] \<and>
    (step = None \<or> (\<exists>e. step = Some (Inl e, None)) \<or> (\<exists>cells. step = Some (Inr (encode_data_row cells), Some rows)))"
proof -
  from assms have "bindE (py_await E (Call_anext rows)) (\<lambda>r. ret (stream_item E rows r)) s = (Inr step, t)"
    by (simp add: stream_next_def)
  then obtain r where r: "py_await E (Call_anext rows) s = (Inr r, t)" and "step = stream_item E rows r"
    by (auto elim: bindE_InrE)
  with py_await_trace [OF r] show ?thesis
    by (auto simp: stream_item_def split: call_result.splits sum.splits)
qed

section \<open>Which calls a program makes\<close>

text \<open>
  \<open>adds G tr s\<close>: since the trace was \<open>tr\<close>, every call that was made, finished or dropped, is one
  that \<open>G\<close> allows. The rules carry this through a program.
\<close>

fun allowed :: "(py_call \<Rightarrow> bool) \<Rightarrow> event \<Rightarrow> bool" where
  "allowed G (Ev_call c ok) \<longleftrightarrow> G c"
| "allowed G (Ev_dropped c) \<longleftrightarrow> G c"
| "allowed G _ \<longleftrightarrow> True"

definition adds :: "(py_call \<Rightarrow> bool) \<Rightarrow> event list \<Rightarrow> ('w, 'z) bridge_scheme \<Rightarrow> bool" where
  "adds G tr s \<longleftrightarrow> (\<exists>evs. b_trace s = tr @ evs \<and> list_all (allowed G) evs)"

lemma adds_refl [simp]: "adds G (b_trace s) s"
  by (simp add: adds_def)

lemma adds_trace:
  "adds G tr s \<Longrightarrow> b_trace t = b_trace s @ evs \<Longrightarrow> list_all (allowed G) evs \<Longrightarrow> adds G tr t"
  by (auto simp: adds_def)

lemma keeps_adds_await [keeps_rules]:
  fixes E :: "'w py_env"
  shows "G c \<Longrightarrow> keeps (adds G tr) (py_await E c)"
  unfolding keeps_def
proof (intro allI impI)
  fix s :: "('w, 'z) bridge_scheme"
  assume G: "G c" and "adds G tr s"
  obtain r w where d: "do_call E c (b_world s) = (r, w)" by fastforce
  have "\<exists>ev. b_trace (snd (py_await E c s)) = b_trace s @ [ev] \<and> allowed G ev"
    using d G by (cases r) (auto simp: py_await_def log_event_def Let_def)
  with \<open>adds G tr s\<close> show "adds G tr (snd (py_await E c s))" by (auto intro: adds_trace)
qed

lemma keeps_adds_call [keeps_rules]: "G c \<Longrightarrow> keeps (adds G tr) (call E c)"
  unfolding call_def py_fail_def
  by (intro keeps_rules) (auto split: call_result.split intro: keeps_rules)

lemma keeps_adds_lift [keeps_rules]: "keeps (adds G tr) (py_lift E r)"
  unfolding py_lift_def py_fail_def by (auto split: sum.split intro: keeps_rules)

lemma keeps_adds_send [keeps_rules]:
  fixes E :: "'w py_env"
  shows "keeps (adds G tr) (send E m)"
  unfolding keeps_def
proof (intro allI impI)
  fix s :: "('w, 'z) bridge_scheme"
  assume "adds G tr s"
  obtain r w where d: "do_send E m (b_world s) = (r, w)" by fastforce
  have "\<exists>evs. b_trace (snd (send E m s)) = b_trace s @ evs \<and> list_all (allowed G) evs"
    using d by (cases r) (auto simp: send_def log_event_def Let_def)
  with \<open>adds G tr s\<close> show "adds G tr (snd (send E m s))" by (auto intro: adds_trace)
qed

lemma keeps_adds_closing [keeps_rules]:
  fixes m :: "('w, 'z, 'a) io"
  shows "keeps (adds G tr) m \<Longrightarrow> keeps (adds G tr) (with_closing E m)"
  unfolding keeps_def
proof (intro allI impI)
  fix s :: "('w, 'z) bridge_scheme"
  assume m: "\<forall>s. adds G tr s \<longrightarrow> adds G tr (snd (m s))" and s: "adds G tr s"
  then have "adds G tr (s\<lparr>b_held := True\<rparr>)" by (simp add: adds_def)
  with m have "adds G tr (snd (m (s\<lparr>b_held := True\<rparr>)))" by blast
  with s show "adds G tr (snd (with_closing E m s))"
    by (cases "m (s\<lparr>b_held := True\<rparr>)") (simp add: with_closing_def adds_def)
qed

lemma keeps_adds_modify:
  "(\<And>s. b_trace (f s) = b_trace s) \<Longrightarrow> keeps (adds G tr) (modify f)"
  by (rule keeps_modify) (simp add: adds_def)

section \<open>Properties\<close>


section \<open>An environment\<close>

text \<open>
  A concrete environment, on which the interfaces of the model are interpreted: a Python side that
  answers every call, an iterator that gives as many rows as the world counts, a socket that takes
  every message, and no request to shut down.
\<close>

definition sample_env :: "nat py_env" where
  "sample_env =
     \<lparr>rt = sample_runtime, escaped = (\<lambda>_. False), types = sample_types,
      do_call = (\<lambda>c w. case c of
          Call_anext _ \<Rightarrow> if w = 0 then (Await_error (Py_exc 0), 0) else (Returned 1, w - 1)
        | _ \<Rightarrow> (Returned 1, w)),
      has_close = (\<lambda>_ w. (True, w)), do_send = (\<lambda>_ w. (Inr (), w)), do_flush = (\<lambda>w. (Inr (), w)),
      stopping = (\<lambda>_. False), aborting = (\<lambda>_. False), hash_order = (\<lambda>_ ks. ks),
      x_password = (\<lambda>_. Inr (password_new [112, 119] None)),
      x_verifier = (\<lambda>_. Inr None), x_responses = (\<lambda>_. Inr [Resp_Empty]), x_response = (\<lambda>_. Inr Resp_Empty),
      x_cells = (\<lambda>_. Inr [Some [65], None]), x_parameter_types = (\<lambda>_. Inr [23]),
      x_fields = (\<lambda>_. Inr [\<lparr>fi_name = ''c'', fi_type_id = 23, fi_format = 0\<rparr>])\<rparr>"


end
