(* ===== verification/Portals.thy ===== *)
theory Portals
  imports Bridge
begin

text \<open>
  The resources of a connection and their end: \<open>PythonPortals\<close> of \<open>src/extended.rs\<close> (the tables of
  portals and prepared statements that Python holds, its session, the lock \<open>closing\<close>), closing a
  portal, all portals or a statement, and the cleanup when the connection ends. pgwire's portal
  store is an interface: its operations are a record, what it promises the locale \<open>portal_store\<close>.
\<close>

section \<open>pgwire's portal store\<close>

datatype format = UnifiedText | UnifiedBinary | Individual "i16 list"

record stored_statement =
  ss_id :: string
  ss_statement :: pyobj
  ss_types :: "pg_type option list"

record pg_portal =
  po_name :: string
  po_statement :: stored_statement
  po_parameter_format :: format
  po_parameters :: "bytes option list"
  po_result_format :: format

record bind_msg =
  bm_portal_name :: "string option"
  bm_statement_name :: "string option"
  bm_parameter_format_codes :: "i16 list"
  bm_parameters :: "bytes option list"
  bm_result_column_format_codes :: "i16 list"

datatype 'a entry = Value 'a | Empty

record 'st store_ops =
  st_default_name :: string
  st_get_statement :: "'st \<Rightarrow> string \<Rightarrow> stored_statement entry option"
  st_put_statement :: "stored_statement \<Rightarrow> 'st \<Rightarrow> 'st"
  st_put_empty_statement :: "string \<Rightarrow> 'st \<Rightarrow> 'st"
  st_rm_statement :: "string \<Rightarrow> 'st \<Rightarrow> 'st"
  st_get_portal :: "'st \<Rightarrow> string \<Rightarrow> pg_portal entry option"
  st_put_portal :: "pg_portal \<Rightarrow> 'st \<Rightarrow> 'st"
  st_put_empty_portal :: "string \<Rightarrow> 'st \<Rightarrow> 'st"
  st_rm_portal :: "string \<Rightarrow> 'st \<Rightarrow> 'st"
  st_try_new :: "bind_msg \<Rightarrow> stored_statement \<Rightarrow> pgwire_error + pg_portal"

section \<open>The state of a connection\<close>

record bound_portal =
  bp_instance :: pyobj
  bp_portal :: pyobj

record portal_entry =
  pe_statement_name :: string
  pe_bound :: "bound_portal option"

text \<open>
  What the handlers of one connection share: pgwire's view of the client (state, transaction
  status, whether the connection is secure, the login, its process id and secret key), its session
  extensions (the Python session, whether the resources are installed, under which key it is
  registered for cancel requests), the state of its SCRAM exchange, the resources themselves, and
  pgwire's store.
\<close>

record ('w, 'st) conn = "'w bridge" +
  c_state :: conn_state
  c_status :: transaction_status
  c_secure :: bool
  c_login :: pg_login_info
  c_key :: "(nat \<times> nat) option"
  c_ext_session :: "pyobj option"
  c_registered :: "(nat \<times> nat) option"
  c_scram :: scram_state
  c_installed :: bool
  c_portals :: "portal_entry table"
  c_statements :: "pyobj table"
  c_session :: "pyobj option"
  c_store :: 'st

type_synonym ('w, 'st, 'a) handler = "(('w, 'st) conn, failure, 'a) prog"

definition update_store :: "('st \<Rightarrow> 'st) \<Rightarrow> ('w, 'st, unit) handler" where
  "update_store f = modify (\<lambda>s. s\<lparr>c_store := f (c_store s)\<rparr>)"

section \<open>Operations\<close>

definition set_session :: "pyobj \<Rightarrow> ('w, 'st, unit) handler" where
  "set_session instance = modify (\<lambda>s. s\<lparr>c_session := Some instance\<rparr>)"

text \<open>The session of this connection, or the handler the server was given (\<open>inst\<close>).\<close>

definition instance_for :: "pyobj option \<Rightarrow> ('w, 'st) conn \<Rightarrow> pyobj option" where
  "instance_for inst s = (case c_ext_session s of Some i \<Rightarrow> Some i | None \<Rightarrow> inst)"

definition bound_at :: "portal_entry table \<Rightarrow> string \<Rightarrow> bound_portal option" where
  "bound_at t name = Option.bind (table_get t name) pe_bound"

definition portal_for :: "string \<Rightarrow> ('w, 'st, pyobj) handler" where
  "portal_for name =
     bindE (gets c_installed) (\<lambda>installed.
       if \<not> installed then throw (Pg (PortalNotFound name))
       else
         bindE (gets (\<lambda>s. bound_at (c_portals s) name)) (\<lambda>b.
           case b of
             Some b \<Rightarrow> ret (bp_portal b)
           | None \<Rightarrow> throw (Pg (PortalNotFound name))))"

definition call_python :: "'w py_env \<Rightarrow> py_call \<Rightarrow> ('w, 'z, unit) io" where
  "call_python E c = bindE (call E c) (\<lambda>_. ret ())"

definition close_portal :: "'w py_env \<Rightarrow> string \<Rightarrow> ('w, 'st, unit) handler" where
  "close_portal E name =
     bindE (gets c_installed) (\<lambda>installed.
       if \<not> installed then ret ()
       else
         with_closing E
           (bindE (gets (\<lambda>s. map_option bp_instance (bound_at (c_portals s) name))) (\<lambda>instance.
            thenE (case instance of
                     Some i \<Rightarrow> call_python E (Call_close_portal i name)
                   | None \<Rightarrow> ret ())
                  (modify (\<lambda>s. s\<lparr>c_portals := table_remove name (c_portals s)\<rparr>)))))"

text \<open>Closing a portal in Python and then in pgwire's store, as every caller does.\<close>

definition close_and_rm :: "'w py_env \<Rightarrow> 'st store_ops \<Rightarrow> string \<Rightarrow> ('w, 'st, unit) handler" where
  "close_and_rm E S name = thenE (close_portal E name) (update_store (st_rm_portal S name))"

definition close_all_portals :: "'w py_env \<Rightarrow> 'st store_ops \<Rightarrow> ('w, 'st, unit) handler" where
  "close_all_portals E S =
     bindE (gets (\<lambda>s. if c_installed s then hash_order E (b_world s) (table_keys (c_portals s)) else []))
       (\<lambda>portal_names.
          thenE (for_each (close_and_rm E S) portal_names)
                (update_store (st_rm_portal S (st_default_name S))))"

definition portals_of :: "'w py_env \<Rightarrow> string \<Rightarrow> ('w, 'st) conn \<Rightarrow> string list" where
  "portals_of E name s =
     [n \<leftarrow> hash_order E (b_world s) (table_keys (c_portals s)).
        map_option pe_statement_name (table_get (c_portals s) n) = Some name]"

definition is_value :: "'a entry option \<Rightarrow> bool" where
  "is_value e = (case e of Some (Value _) \<Rightarrow> True | _ \<Rightarrow> False)"

text \<open>The part of \<open>close_statement\<close> after its portals are closed, under the lock.\<close>

definition drop_statement ::
  "'w py_env \<Rightarrow> 'st store_ops \<Rightarrow> pyobj option \<Rightarrow> string \<Rightarrow> ('w, 'st, unit) handler" where
  "drop_statement E S inst name =
     with_closing E
       (bindE (gets (\<lambda>s. if is_value (st_get_statement S (c_store s) name)
                         then instance_for inst s else None)) (\<lambda>instance.
        thenE (case instance of
                 Some i \<Rightarrow> call_python E (Call_close_statement i name)
               | None \<Rightarrow> ret ())
       (thenE (modify (\<lambda>s. s\<lparr>c_statements := table_remove name (c_statements s)\<rparr>))
              (update_store (st_rm_statement S name)))))"

definition close_statement ::
  "'w py_env \<Rightarrow> 'st store_ops \<Rightarrow> pyobj option \<Rightarrow> string \<Rightarrow> ('w, 'st, unit) handler" where
  "close_statement E S inst name =
     bindE (gets c_installed) (\<lambda>installed.
       if \<not> installed then ret ()
       else
         bindE (gets (portals_of E name)) (\<lambda>portal_names.
         thenE (for_each (close_and_rm E S) portal_names)
               (drop_statement E S inst name)))"

section \<open>The end of a connection\<close>

text \<open>The session's \<open>close\<close> is called, not awaited, if it has one.\<close>

definition close_session :: "'w py_env \<Rightarrow> pyobj \<Rightarrow> ('w, 'z, unit) io" where
  "close_session E instance = (\<lambda>s.
     case has_close E instance (b_world s) of
       (has, w) \<Rightarrow>
         if \<not> has then (Inr (), s\<lparr>b_world := w\<rparr>)
         else (case do_call E (Call_close instance) w of
                 (r, w) \<Rightarrow>
                   (Inr (), log_event (Ev_call (Call_close instance) (\<exists>v. r = Returned v)) (s\<lparr>b_world := w\<rparr>))))"

text \<open>\<open>cleanup_entries\<close> runs in a task of its own, which nothing drops; it ignores every error.\<close>

definition undisturbed :: "'w py_env \<Rightarrow> 'w py_env" where
  "undisturbed E = E\<lparr>stopping := (\<lambda>_. False), aborting := (\<lambda>_. False)\<rparr>"

definition cleanup_entries ::
  "'w py_env \<Rightarrow> portal_entry table \<Rightarrow> pyobj table \<Rightarrow> pyobj option \<Rightarrow> ('w, 'z, unit) io" where
  "cleanup_entries E portals statements session =
     bindE (gets (\<lambda>s. hash_order E (b_world s) (table_keys portals))) (\<lambda>names.
     thenE (for_each (\<lambda>name.
              case bound_at portals name of
                Some bound \<Rightarrow> ignore_err (call_python E (Call_close_portal (bp_instance bound) name))
              | None \<Rightarrow> ret ()) names)
    (bindE (gets (\<lambda>s. hash_order E (b_world s) (table_keys statements))) (\<lambda>names.
     thenE (for_each (\<lambda>name.
              case table_get statements name of
                Some instance \<Rightarrow> ignore_err (call_python E (Call_close_statement instance name))
              | None \<Rightarrow> ret ()) names)
           (case session of Some instance \<Rightarrow> close_session E instance | None \<Rightarrow> ret ()))))"

definition cleanup :: "'w py_env \<Rightarrow> ('w, 'st, unit) handler" where
  "cleanup E =
     bindE (gets (\<lambda>s. (c_portals s, c_statements s, c_session s))) (\<lambda>(portals, statements, session).
     thenE (modify (\<lambda>s. s\<lparr>c_portals := [], c_statements := [], c_session := None\<rparr>))
           (cleanup_entries (undisturbed E) portals statements session))"

text \<open>\<open>Drop\<close>: whatever is left when the resources are freed is closed, if a runtime is there.\<close>

definition drop_portals :: "'w py_env \<Rightarrow> bool \<Rightarrow> ('w, 'st, unit) handler" where
  "drop_portals E runtime =
     bindE (gets (\<lambda>s. (c_portals s, c_statements s, c_session s))) (\<lambda>(portals, statements, session).
     thenE (modify (\<lambda>s. s\<lparr>c_portals := [], c_statements := [], c_session := None\<rparr>))
           (if portals = [] \<and> statements = [] \<and> session = None then ret ()
            else only_if runtime (cleanup_entries (undisturbed E) portals statements session)))"

section \<open>The interface of the store\<close>

locale portal_store =
  fixes S :: "'st store_ops"
  assumes get_put_statement:
      "st_get_statement S (st_put_statement S v st) n =
         (if n = ss_id v then Some (Value v) else st_get_statement S st n)"
    and get_put_empty_statement:
      "st_get_statement S (st_put_empty_statement S k st) n =
         (if n = k then Some Empty else st_get_statement S st n)"
    and get_rm_statement:
      "st_get_statement S (st_rm_statement S k st) n = (if n = k then None else st_get_statement S st n)"
    and statement_put_portal: "st_get_statement S (st_put_portal S p st) n = st_get_statement S st n"
    and statement_put_empty_portal: "st_get_statement S (st_put_empty_portal S k st) n = st_get_statement S st n"
    and statement_rm_portal: "st_get_statement S (st_rm_portal S k st) n = st_get_statement S st n"
    and get_put_portal:
      "st_get_portal S (st_put_portal S p st) n = (if n = po_name p then Some (Value p) else st_get_portal S st n)"
    and get_put_empty_portal:
      "st_get_portal S (st_put_empty_portal S k st) n = (if n = k then Some Empty else st_get_portal S st n)"
    and get_rm_portal: "st_get_portal S (st_rm_portal S k st) n = (if n = k then None else st_get_portal S st n)"
    and portal_put_statement: "st_get_portal S (st_put_statement S v st) n = st_get_portal S st n"
    and portal_put_empty_statement: "st_get_portal S (st_put_empty_statement S k st) n = st_get_portal S st n"
    and portal_rm_statement: "st_get_portal S (st_rm_statement S k st) n = st_get_portal S st n"
    and try_new_name:
      "st_try_new S m v = Inr p \<Longrightarrow>
         po_name p = (case bm_portal_name m of Some n \<Rightarrow> n | None \<Rightarrow> st_default_name S) \<and> po_statement p = v"
begin

lemmas store_laws [simp] = get_put_statement get_put_empty_statement get_rm_statement statement_put_portal
  statement_put_empty_portal statement_rm_portal get_put_portal get_put_empty_portal get_rm_portal
  portal_put_statement portal_put_empty_statement portal_rm_statement

end

text \<open>The order of a hash map is any order of its keys.\<close>

definition hash_order_ok :: "'w py_env \<Rightarrow> bool" where
  "hash_order_ok E \<longleftrightarrow> (\<forall>w ks. set (hash_order E w ks) = set ks \<and> (distinct ks \<longrightarrow> distinct (hash_order E w ks)))"

section \<open>The invariant of a connection\<close>

subsection \<open>The ledger of callbacks\<close>

definition calls_ok :: "(py_call \<Rightarrow> bool) \<Rightarrow> event list \<Rightarrow> nat" where
  "calls_ok P tr = length [e \<leftarrow> tr. case e of Ev_call c ok \<Rightarrow> ok \<and> P c | _ \<Rightarrow> False]"

fun bind_of :: "string \<Rightarrow> py_call \<Rightarrow> bool" where
  "bind_of n (Call_bind_portal _ m _ _ _ _) \<longleftrightarrow> m = n"
| "bind_of n _ \<longleftrightarrow> False"

fun close_of :: "string \<Rightarrow> py_call \<Rightarrow> bool" where
  "close_of n (Call_close_portal _ m) \<longleftrightarrow> m = n"
| "close_of n _ \<longleftrightarrow> False"

fun parse_of :: "string \<Rightarrow> py_call \<Rightarrow> bool" where
  "parse_of n (Call_parse_statement _ m _ _) \<longleftrightarrow> m = n"
| "parse_of n _ \<longleftrightarrow> False"

fun close_statement_of :: "string \<Rightarrow> py_call \<Rightarrow> bool" where
  "close_statement_of n (Call_close_statement _ m) \<longleftrightarrow> m = n"
| "close_statement_of n _ \<longleftrightarrow> False"

text \<open>Events that open or close nothing.\<close>

definition quiet :: "event list \<Rightarrow> bool" where
  "quiet evs \<longleftrightarrow>
     (\<forall>n. calls_ok (bind_of n) evs = 0 \<and> calls_ok (close_of n) evs = 0 \<and>
          calls_ok (parse_of n) evs = 0 \<and> calls_ok (close_statement_of n) evs = 0)"

lemma calls_ok_append [simp]: "calls_ok P (a @ b) = calls_ok P a + calls_ok P b"
  by (simp add: calls_ok_def)

lemma calls_ok_Nil [simp]: "calls_ok P [] = 0"
  by (simp add: calls_ok_def)

lemma calls_ok_Cons [simp]:
  "calls_ok P (e # tr) = (case e of Ev_call c ok \<Rightarrow> if ok \<and> P c then 1 else 0 | _ \<Rightarrow> 0) + calls_ok P tr"
  by (simp add: calls_ok_def split: event.split)

lemma quiet_Nil [simp]: "quiet []"
  by (simp add: quiet_def)

lemma quiet_append [simp]: "quiet (a @ b) \<longleftrightarrow> quiet a \<and> quiet b"
  by (auto simp: quiet_def)

lemma quiet_failed [simp]: "quiet [Ev_call c False]" "quiet [Ev_dropped c]" "quiet [Ev_send m ok]"
  "quiet [Ev_flush ok]"
  by (simp_all add: quiet_def)

definition ledger :: "event list \<Rightarrow> portal_entry table \<Rightarrow> pyobj table \<Rightarrow> bool" where
  "ledger tr portals statements \<longleftrightarrow>
     (\<forall>n. calls_ok (bind_of n) tr = calls_ok (close_of n) tr + (if bound_at portals n \<noteq> None then 1 else 0)) \<and>
     (\<forall>n. calls_ok (parse_of n) tr =
          calls_ok (close_statement_of n) tr + (if table_get statements n \<noteq> None then 1 else 0))"

subsection \<open>Tables and store agree\<close>

definition portals_synced :: "'st store_ops \<Rightarrow> ('w, 'st) conn \<Rightarrow> bool" where
  "portals_synced S s \<longleftrightarrow>
     (\<forall>n. map_option (\<lambda>e. pe_bound e \<noteq> None) (table_get (c_portals s) n) =
          map_option (\<lambda>e. e \<noteq> Empty) (st_get_portal S (c_store s) n))"

definition statements_synced :: "'st store_ops \<Rightarrow> ('w, 'st) conn \<Rightarrow> bool" where
  "statements_synced S s \<longleftrightarrow>
     (\<forall>n. table_get (c_statements s) n \<noteq> None \<longleftrightarrow> is_value (st_get_statement S (c_store s) n))"

definition no_dangling :: "'st store_ops \<Rightarrow> ('w, 'st) conn \<Rightarrow> bool" where
  "no_dangling S s \<longleftrightarrow>
     (\<forall>n e. table_get (c_portals s) n = Some e \<longrightarrow>
        (\<exists>v. st_get_statement S (c_store s) (pe_statement_name e) = Some v \<and>
             (v \<noteq> Empty \<longleftrightarrow> pe_bound e \<noteq> None)))"

definition owned :: "pyobj option \<Rightarrow> ('w, 'st) conn \<Rightarrow> bool" where
  "owned inst s \<longleftrightarrow>
     (\<forall>n i. table_get (c_statements s) n = Some i \<longrightarrow> instance_for inst s = Some i) \<and>
     (\<forall>n b. bound_at (c_portals s) n = Some b \<longrightarrow> instance_for inst s = Some (bp_instance b))"

text \<open>
  The invariant of a connection that has started: the resources are installed, nobody holds the
  lock, the tables agree with pgwire's store, no portal outlives its statement, every entry is held
  by the instance that serves the connection, and the ledger balances: a portal is live exactly
  when it was bound once more than it was closed, and the same for statements.
\<close>

definition conn_inv :: "'st store_ops \<Rightarrow> pyobj option \<Rightarrow> ('w, 'st) conn \<Rightarrow> bool" where
  "conn_inv S inst s \<longleftrightarrow>
     c_installed s \<and> \<not> b_held s \<and> table_ok (c_portals s) \<and> table_ok (c_statements s) \<and>
     portals_synced S s \<and> statements_synced S s \<and> no_dangling S s \<and> owned inst s \<and>
     ledger (b_trace s) (c_portals s) (c_statements s)"

lemmas conn_defs = portals_synced_def statements_synced_def no_dangling_def owned_def ledger_def

lemma conn_inv_installed: "conn_inv S inst s \<Longrightarrow> c_installed s"
  by (simp add: conn_inv_def)

lemma conn_inv_free: "conn_inv S inst s \<Longrightarrow> \<not> b_held s"
  by (simp add: conn_inv_def)

lemma conn_inv_unlock: "conn_inv S inst s \<Longrightarrow> conn_inv S inst (s\<lparr>b_held := False\<rparr>)"
  unfolding conn_inv_def conn_defs by (simp add: instance_for_def)

lemma portals_synced_None:
  "portals_synced S s \<Longrightarrow> table_get (c_portals s) n = None \<longleftrightarrow> st_get_portal S (c_store s) n = None"
  unfolding portals_synced_def by (metis option.map_disc_iff)

text \<open>The invariant does not see the world, the client's state, nor events that open or close nothing.\<close>

lemma instance_for_cong: "c_ext_session t = c_ext_session s \<Longrightarrow> instance_for inst t = instance_for inst s"
  by (simp add: instance_for_def)

lemma conn_inv_quiet:
  assumes "conn_inv S inst s" and "quiet evs"
  shows "conn_inv S inst (s\<lparr>b_world := w, b_trace := b_trace s @ evs\<rparr>)"
  using assms unfolding conn_inv_def conn_defs quiet_def by (simp add: instance_for_def)

lemma conn_inv_state:
  "conn_inv S inst (s\<lparr>c_state := cs, c_status := ts\<rparr>) = conn_inv S inst s"
  unfolding conn_inv_def conn_defs by (simp add: instance_for_def)

section \<open>What each operation does to the state\<close>

definition clean :: "failure \<Rightarrow> bool" where
  "clean e \<longleftrightarrow> e = Dropped \<or> (\<exists>x. e = Pg x)"

lemma clean_simps [simp]: "clean Dropped" "clean (Pg x)" "\<not> clean Panic" "\<not> clean Deadlock"
  by (simp_all add: clean_def)

lemma call_cases:
  assumes "call E c s = (r, t)"
  obtains (ok) w v where "r = Inr v" "t = s\<lparr>b_world := w, b_trace := b_trace s @ [Ev_call c True]\<rparr>"
  | (err) w e evs where "r = Inl e" "clean e" "quiet evs"
      "t = s\<lparr>b_world := w, b_trace := b_trace s @ evs\<rparr>"
proof -
  obtain cr w where d: "do_call E c (b_world s) = (cr, w)" by fastforce
  show thesis
  proof (cases cr)
    case (Dispatch_error x)
    with assms d err [of "Pg (py_err_to_pywire (rt E) x)" "[Ev_call c False]" w] show thesis
      by (auto simp: call_def py_await_def py_fail_def log_event_def prog_simps Let_def)
  next
    case (Await_error x)
    with assms d err [of "Pg (py_err_to_pywire (rt E) x)" "[Ev_call c False]" w]
      err [of Dropped "[Ev_dropped c]" w] show thesis
      by (auto simp: call_def py_await_def py_fail_def log_event_def prog_simps Let_def dropped_def
          split: if_splits)
  next
    case (Returned v)
    with assms d ok [of v w] err [of Dropped "[Ev_dropped c]" w] show thesis
      by (auto simp: call_def py_await_def log_event_def prog_simps Let_def dropped_def split: if_splits)
  qed
qed

lemma call_python_eq:
  "call_python E c s = (case call E c s of (Inl e, t) \<Rightarrow> (Inl e, t) | (Inr _, t) \<Rightarrow> (Inr (), t))"
  by (simp add: call_python_def prog_simps split: prod.split sum.split)

lemma call_python_cases:
  assumes "call_python E c s = (r, t)"
  obtains (ok) w where "r = Inr ()" "t = s\<lparr>b_world := w, b_trace := b_trace s @ [Ev_call c True]\<rparr>"
  | (err) w e evs where "r = Inl e" "clean e" "quiet evs" "t = s\<lparr>b_world := w, b_trace := b_trace s @ evs\<rparr>"
proof -
  obtain r' t' where c: "call E c s = (r', t')" by fastforce
  with assms have e: "(case r' of Inl e \<Rightarrow> (Inl e, t') | Inr _ \<Rightarrow> (Inr (), t')) = (r, t)"
    by (cases r') (simp_all add: call_python_eq)
  from c show thesis
    by (cases rule: call_cases) (use e ok err in auto)
qed

lemma send_cases:
  assumes "send E m s = (r, t)"
  obtains w evs where "quiet evs" "t = s\<lparr>b_world := w, b_trace := b_trace s @ evs\<rparr>"
    "\<forall>e. r = Inl e \<longrightarrow> clean e" "r = Inr () \<longrightarrow> evs = [Ev_send m True]"
proof -
  obtain sr w where d: "do_send E m (b_world s) = (sr, w)" by fastforce
  show thesis
    using assms d that [of "[]" w] that [of "[Ev_send m False]" w] that [of "[Ev_send m True]" w]
    by (cases sr) (auto simp: send_def log_event_def Let_def split: if_splits)
qed

lemma flush_cases:
  assumes "flush E s = (r, t)"
  obtains w evs where "quiet evs" "t = s\<lparr>b_world := w, b_trace := b_trace s @ evs\<rparr>"
    "\<forall>e. r = Inl e \<longrightarrow> clean e" "r = Inr () \<longrightarrow> evs = [Ev_flush True]"
proof -
  obtain sr w where d: "do_flush E (b_world s) = (sr, w)" by fastforce
  show thesis
    using assms d that [of "[]" w] that [of "[Ev_flush False]" w] that [of "[Ev_flush True]" w]
    by (cases sr) (auto simp: flush_def log_event_def Let_def split: if_splits)
qed

definition close_events :: "string \<Rightarrow> bound_portal option \<Rightarrow> event list" where
  "close_events n b = (case b of None \<Rightarrow> [] | Some b \<Rightarrow> [Ev_call (Call_close_portal (bp_instance b) n) True])"

lemma close_portal_cases:
  assumes "close_portal E n s = (r, t)" and "c_installed s" and "\<not> b_held s"
  obtains (ok) w where "r = Inr ()" "t = s\<lparr>b_world := w,
        b_trace := b_trace s @ close_events n (bound_at (c_portals s) n),
        c_portals := table_remove n (c_portals s)\<rparr>"
  | (err) w e evs where "r = Inl e" "clean e" "quiet evs" "t = s\<lparr>b_world := w, b_trace := b_trace s @ evs\<rparr>"
proof (cases "dropped E s")
  case True
  with assms err [of Dropped "[]" "b_world s"] show thesis
    by (auto simp: close_portal_def with_closing_def prog_simps)
next
  case False
  show thesis
  proof (cases "bound_at (c_portals s) n")
    case None
    with assms False ok [of "b_world s"] show thesis
      by (auto simp: close_portal_def with_closing_def prog_simps close_events_def)
  next
    case (Some b)
    let ?s = "s\<lparr>b_held := True\<rparr>"
    obtain r' t' where c: "call_python E (Call_close_portal (bp_instance b) n) ?s = (r', t')" by fastforce
    then show thesis
    proof (cases rule: call_python_cases)
      case (ok w)
      with assms False Some c that(1) [of w] show thesis
        by (auto simp: close_portal_def with_closing_def bindE_def gets_def thenE_def modify_def close_events_def)
    next
      case (err w e evs)
      with assms False Some c that(2) [of e evs w] show thesis
        by (auto simp: close_portal_def with_closing_def bindE_def gets_def thenE_def modify_def)
    qed
  qed
qed

section \<open>Closing keeps the invariant\<close>

text \<open>Facts about statements and the client that closing portals leaves alone, or makes truer.\<close>

definition closing_only :: "'st store_ops \<Rightarrow> ('w, 'st) conn \<Rightarrow> ('w, 'st) conn \<Rightarrow> bool" where
  "closing_only S s t \<longleftrightarrow>
     c_statements t = c_statements s \<and> c_ext_session t = c_ext_session s \<and> c_installed t = c_installed s \<and>
     c_status t = c_status s \<and> c_state t = c_state s \<and> c_secure t = c_secure s \<and> c_login t = c_login s \<and>
     c_session t = c_session s \<and>
     (\<forall>n. st_get_statement S (c_store t) n = st_get_statement S (c_store s) n) \<and>
     (\<forall>n. table_get (c_portals t) n = None \<or> table_get (c_portals t) n = table_get (c_portals s) n) \<and>
     (\<exists>evs. b_trace t = b_trace s @ evs)"

definition stable :: "'st store_ops \<Rightarrow> (('w, 'st) conn \<Rightarrow> bool) \<Rightarrow> bool" where
  "stable S F \<longleftrightarrow> (\<forall>s t. closing_only S s t \<longrightarrow> F s \<longrightarrow> F t)"

named_theorems stable_rules \<open>facts that closing portals keeps\<close>

lemma stable_conj [stable_rules]: "stable S F \<Longrightarrow> stable S G \<Longrightarrow> stable S (\<lambda>s. F s \<and> G s)"
  by (auto simp: stable_def)

lemma stable_const [stable_rules]: "stable S (\<lambda>s. b)"
  by (simp add: stable_def)

lemma stable_gone [stable_rules]: "stable S (\<lambda>s. table_get (c_portals s) n = None)"
  unfolding stable_def closing_only_def by metis

lemma stable_statement [stable_rules]: "stable S (\<lambda>s. P (st_get_statement S (c_store s) n))"
  by (simp add: stable_def closing_only_def)

lemma stable_instance [stable_rules]: "stable S (\<lambda>s. P (instance_for inst s))"
  by (simp add: stable_def closing_only_def instance_for_def)

lemma stable_status [stable_rules]: "stable S (\<lambda>s. P (c_status s))"
  by (simp add: stable_def closing_only_def)

lemma stable_imp [stable_rules]: "(b \<Longrightarrow> stable S F) \<Longrightarrow> stable S (\<lambda>s. b \<longrightarrow> F s)"
  by (cases b) (simp_all add: stable_const)

lemma stable_all [stable_rules]: "(\<And>x. stable S (F x)) \<Longrightarrow> stable S (\<lambda>s. \<forall>x. F x s)"
  unfolding stable_def by blast

locale connection = portal_store S
  for S :: "'st store_ops" +
  fixes E :: "'w py_env" and inst :: "pyobj option"
  assumes hash_order: "hash_order_ok E"
begin

abbreviation I :: "('w, 'st) conn \<Rightarrow> bool" where
  "I \<equiv> conn_inv S inst"

text \<open>A handler from \<open>P\<close> ends well with \<open>Q\<close>, or early with the invariant and without a panic.\<close>

abbreviation runs :: "(('w, 'st) conn \<Rightarrow> bool) \<Rightarrow> ('w, 'st, 'a) handler \<Rightarrow> ('a \<Rightarrow> ('w, 'st) conn \<Rightarrow> bool) \<Rightarrow> bool" where
  "runs P m Q \<equiv> triple P m Q (\<lambda>e s. I s \<and> clean e)"

lemma conn_inv_close:
  assumes "I s"
  shows "I (s\<lparr>b_world := w, b_trace := b_trace s @ close_events n (bound_at (c_portals s) n),
      c_portals := table_remove n (c_portals s), c_store := st_rm_portal S n (c_store s)\<rparr>)"
proof -
  from assms have ok: "table_ok (c_portals s)" by (simp add: conn_inv_def)
  have rm: "bound_at (table_remove n (c_portals s)) m = (if m = n then None else bound_at (c_portals s) m)" for m
    using ok by (simp add: bound_at_def)
  have "ledger (b_trace s @ close_events n (bound_at (c_portals s) n)) (table_remove n (c_portals s)) (c_statements s)"
    using assms unfolding conn_inv_def ledger_def
    by (cases "bound_at (c_portals s) n") (auto simp: rm close_events_def)
  with assms ok rm show ?thesis
    unfolding conn_inv_def portals_synced_def statements_synced_def no_dangling_def owned_def
    by (simp add: instance_for_def)
qed

lemma close_and_rm_runs:
  assumes "stable S F"
  shows "runs (\<lambda>s. I s \<and> F s) (close_and_rm E S n) (\<lambda>_ s. I s \<and> F s \<and> table_get (c_portals s) n = None)"
proof (rule tripleI)
  fix s x t
  assume P: "I s \<and> F s" and m: "close_and_rm E S n s = (Inr x, t)"
  then have inst: "c_installed s" and free: "\<not> b_held s" by (auto simp: conn_inv_def)
  from m obtain u where c: "close_portal E n s = (Inr (), u)" and t: "t = u\<lparr>c_store := st_rm_portal S n (c_store u)\<rparr>"
    by (auto simp: close_and_rm_def thenE_def bindE_Inr update_store_def modify_def)
  from c inst free show "I t \<and> F t \<and> table_get (c_portals t) n = None"
  proof (cases rule: close_portal_cases)
    case (ok w)
    with t have t': "t = s\<lparr>b_world := w, b_trace := b_trace s @ close_events n (bound_at (c_portals s) n),
        c_portals := table_remove n (c_portals s), c_store := st_rm_portal S n (c_store s)\<rparr>" by simp
    moreover have "table_ok (c_portals s)" using P by (simp add: conn_inv_def)
    moreover from this t' have "closing_only S s t" by (simp add: closing_only_def)
    ultimately show ?thesis
      using P assms conn_inv_close [of s n w] unfolding stable_def by auto
  qed auto
next
  fix s e t
  assume P: "I s \<and> F s" and m: "close_and_rm E S n s = (Inl e, t)"
  then have c: "close_portal E n s = (Inl e, t)"
    by (auto simp: close_and_rm_def thenE_def bindE_def update_store_def modify_def split: prod.splits sum.splits)
  from P have "c_installed s" "\<not> b_held s" by (auto simp: conn_inv_def)
  with c show "I t \<and> clean e"
    by (cases rule: close_portal_cases) (use P conn_inv_quiet in auto)
qed

lemma for_each_close_runs:
  assumes "stable S F"
  shows "runs (\<lambda>s. I s \<and> F s) (for_each (close_and_rm E S) ns)
    (\<lambda>_ s. I s \<and> F s \<and> (\<forall>n \<in> set ns. table_get (c_portals s) n = None))"
  using assms
proof (induction ns arbitrary: F)
  case Nil
  then show ?case by (auto intro: triple_ret)
next
  case (Cons n ns)
  have "stable S (\<lambda>s. F s \<and> table_get (c_portals s) n = None)"
    using Cons.prems by (intro stable_rules)
  from Cons.IH [OF this] close_and_rm_runs [OF Cons.prems, of n]
  show ?case
    by (auto intro!: triple_thenE elim: triple_weaken)
qed

lemma update_store_rm_default:
  assumes "I s" and "table_get (c_portals s) n = None"
  shows "I (s\<lparr>c_store := st_rm_portal S n (c_store s)\<rparr>)"
proof -
  have "st_get_portal S (c_store s) n = None"
    using assms portals_synced_None by (auto simp: conn_inv_def)
  then show ?thesis
    using assms unfolding conn_inv_def conn_defs by (auto simp: instance_for_def)
qed

lemma close_all_portals_runs:
  assumes "stable S F"
  shows "runs (\<lambda>s. I s \<and> F s) (close_all_portals E S) (\<lambda>_ s. I s \<and> F s \<and> c_portals s = [])"
  unfolding close_all_portals_def
proof (rule triple_bind_gets)
  fix ns
  let ?out = "\<lambda>s :: ('w, 'st) conn. \<forall>n. n \<notin> set ns \<longrightarrow> table_get (c_portals s) n = None"
  have st: "stable S (\<lambda>s. F s \<and> ?out s)"
    using assms by (intro stable_rules)
  have "runs (\<lambda>s. (I s \<and> F s) \<and> ns = (if c_installed s then hash_order E (b_world s) (table_keys (c_portals s)) else []))
      (for_each (close_and_rm E S) ns) (\<lambda>_ s. I s \<and> F s \<and> c_portals s = [])"
  proof (rule triple_weaken [OF for_each_close_runs [OF st, of ns]])
    fix s
    assume P: "(I s \<and> F s) \<and> ns = (if c_installed s then hash_order E (b_world s) (table_keys (c_portals s)) else [])"
    then have "c_installed s" by (auto simp: conn_inv_def)
    with P have "set ns = set (table_keys (c_portals s))" using hash_order by (simp add: hash_order_ok_def)
    then have "?out s" by (simp add: ht.keys_get)
    with P show "I s \<and> F s \<and> ?out s" by blast
  next
    fix u :: unit and s
    assume Q: "I s \<and> (F s \<and> ?out s) \<and> (\<forall>n \<in> set ns. table_get (c_portals s) n = None)"
    then have "table_get (c_portals s) n = None" for n by blast
    then have "table_keys (c_portals s) = []" using ht.keys_get [of "c_portals s"] by auto
    with Q show "I s \<and> F s \<and> c_portals s = []" by (simp add: table_keys_def)
  qed
  then show "runs (\<lambda>s. (I s \<and> F s) \<and> ns = (if c_installed s then hash_order E (b_world s) (table_keys (c_portals s)) else []))
      (thenE (for_each (close_and_rm E S) ns) (update_store (st_rm_portal S (st_default_name S))))
      (\<lambda>_ s. I s \<and> F s \<and> c_portals s = [])"
  proof (rule triple_thenE)
    show "runs (\<lambda>s. I s \<and> F s \<and> c_portals s = []) (update_store (st_rm_portal S (st_default_name S)))
      (\<lambda>_ s. I s \<and> F s \<and> c_portals s = [])"
      unfolding update_store_def
    proof (rule triple_modify)
      fix s assume P: "I s \<and> F s \<and> c_portals s = []"
      have "closing_only S s (s\<lparr>c_store := st_rm_portal S (st_default_name S) (c_store s)\<rparr>)"
        by (simp add: closing_only_def)
      with P assms update_store_rm_default [of s "st_default_name S"]
      show "I (s\<lparr>c_store := st_rm_portal S (st_default_name S) (c_store s)\<rparr>) \<and>
          F (s\<lparr>c_store := st_rm_portal S (st_default_name S) (c_store s)\<rparr>) \<and>
          c_portals (s\<lparr>c_store := st_rm_portal S (st_default_name S) (c_store s)\<rparr>) = []"
        unfolding stable_def by auto
    qed
  qed
qed

definition unused :: "string \<Rightarrow> ('w, 'st) conn \<Rightarrow> bool" where
  "unused name s \<longleftrightarrow> (\<forall>n e. table_get (c_portals s) n = Some e \<longrightarrow> pe_statement_name e \<noteq> name)"

lemma value_has_instance:
  assumes "I s" and "is_value (st_get_statement S (c_store s) name)"
  shows "\<exists>i. instance_for inst s = Some i"
proof -
  from assms obtain i where "table_get (c_statements s) name = Some i"
    unfolding conn_inv_def statements_synced_def by blast
  with assms(1) show ?thesis unfolding conn_inv_def owned_def by blast
qed

lemma conn_inv_drop_statement:
  assumes "I s" and "unused name s"
    and "evs = (if is_value (st_get_statement S (c_store s) name)
                then [Ev_call (Call_close_statement i name) True] else [])"
  shows "I (s\<lparr>b_world := w, b_trace := b_trace s @ evs, c_statements := table_remove name (c_statements s),
      c_store := st_rm_statement S name (c_store s)\<rparr>)"
proof -
  from assms have ok: "table_ok (c_statements s)" by (simp add: conn_inv_def)
  have v: "is_value (st_get_statement S (c_store s) name) \<longleftrightarrow> table_get (c_statements s) name \<noteq> None"
    using assms(1) by (simp add: conn_inv_def statements_synced_def)
  have "ledger (b_trace s @ evs) (c_portals s) (table_remove name (c_statements s))"
    using assms(1,3) ok v unfolding conn_inv_def ledger_def by auto
  with assms(1,2) ok show ?thesis
    unfolding conn_inv_def portals_synced_def statements_synced_def no_dangling_def owned_def unused_def
    by (auto simp: instance_for_def is_value_def)
qed

lemma drop_statement_runs:
  "runs (\<lambda>s. I s \<and> unused name s) (drop_statement E S inst name)
     (\<lambda>_ s. I s \<and> st_get_statement S (c_store s) name = None)"
proof -
  have "I (snd (drop_statement E S inst name s)) \<and>
      (case fst (drop_statement E S inst name s) of
         Inl e \<Rightarrow> clean e
       | Inr _ \<Rightarrow> st_get_statement S (c_store (snd (drop_statement E S inst name s))) name = None)"
    if P: "I s \<and> unused name s" for s
  proof (cases "dropped E s \<or> \<not> is_value (st_get_statement S (c_store s) name)")
    case True
    with P conn_inv_drop_statement [of s name "[]" _ "b_world s", THEN conn_inv_unlock] show ?thesis
      by (auto simp: drop_statement_def with_closing_def update_store_def prog_simps conn_inv_free)
  next
    case False
    with P obtain i where i: "instance_for inst s = Some i" using value_has_instance by blast
    let ?s = "s\<lparr>b_held := True\<rparr>"
    obtain r u where c: "call_python E (Call_close_statement i name) ?s = (r, u)" by fastforce
    then show ?thesis
    proof (cases rule: call_python_cases)
      case (ok w)
      with P False i c conn_inv_drop_statement 
          [of s name "[Ev_call (Call_close_statement i name) True]" i w, THEN conn_inv_unlock]
      show ?thesis
        by (auto simp: drop_statement_def with_closing_def update_store_def prog_simps conn_inv_free
            instance_for_def)
    next
      case (err w e evs)
      with P False i c conn_inv_quiet [of S inst s evs w, THEN conn_inv_unlock] show ?thesis
        by (auto simp: drop_statement_def with_closing_def prog_simps conn_inv_free instance_for_def)
    qed
  qed
  then show ?thesis
    by (force simp: triple_def split: prod.splits sum.splits)
qed

lemma close_statement_runs:
  "runs I (close_statement E S inst name) (\<lambda>_ s. I s \<and> st_get_statement S (c_store s) name = None)"
  unfolding close_statement_def
proof (rule triple_bind_gets)
  fix installed
  have "runs I (bindE (gets (portals_of E name)) (\<lambda>portal_names.
      thenE (for_each (close_and_rm E S) portal_names) (drop_statement E S inst name)))
      (\<lambda>_ s. I s \<and> st_get_statement S (c_store s) name = None)"
  proof (rule triple_bind_gets)
    fix ns
    let ?out = "\<lambda>s :: ('w, 'st) conn. \<forall>n. n \<notin> set ns \<longrightarrow>
        (\<forall>e. table_get (c_portals s) n = Some e \<longrightarrow> pe_statement_name e \<noteq> name)"
    have st: "stable S ?out"
      unfolding stable_def closing_only_def by (metis option.distinct(1))
    have "runs (\<lambda>s. I s \<and> ns = portals_of E name s) (for_each (close_and_rm E S) ns)
        (\<lambda>_ s. I s \<and> unused name s)"
    proof (rule triple_weaken [OF for_each_close_runs [OF st, of ns]])
      fix s assume P: "I s \<and> ns = portals_of E name s"
      have "set (hash_order E (b_world s) (table_keys (c_portals s))) = {n. table_get (c_portals s) n \<noteq> None}"
        using hash_order by (simp add: hash_order_ok_def ht.keys_get)
      with P show "I s \<and> ?out s" by (auto simp: portals_of_def)
    next
      fix u :: unit and s
      assume "I s \<and> ?out s \<and> (\<forall>n\<in>set ns. table_get (c_portals s) n = None)"
      then show "I s \<and> unused name s" unfolding unused_def by force
    qed
    then show "runs (\<lambda>s. I s \<and> ns = portals_of E name s)
        (thenE (for_each (close_and_rm E S) ns) (drop_statement E S inst name))
        (\<lambda>_ s. I s \<and> st_get_statement S (c_store s) name = None)"
      by (rule triple_thenE) (rule drop_statement_runs)
  qed
  then show "runs (\<lambda>s. I s \<and> installed = c_installed s)
     (if \<not> installed then ret ()
      else bindE (gets (portals_of E name)) (\<lambda>portal_names.
        thenE (for_each (close_and_rm E S) portal_names) (drop_statement E S inst name)))
     (\<lambda>_ s. I s \<and> st_get_statement S (c_store s) name = None)"
    by (auto intro!: triple_if triple_ret elim: triple_weaken simp: conn_inv_def)
qed

end

section \<open>The in-memory store\<close>

text \<open>
  The documented behaviour of pgwire's in-memory store, two maps from names to entries, and of
  \<open>Portal::try_new\<close>, which reads the format codes of a Bind message: none is text for all, one is
  for all, several are one for each.
\<close>

record mem_store =
  ms_statements :: "string \<Rightarrow> stored_statement entry option"
  ms_portals :: "string \<Rightarrow> pg_portal entry option"

definition format_of :: "i16 list \<Rightarrow> format" where
  "format_of codes =
     (case codes of [] \<Rightarrow> UnifiedText
      | [c] \<Rightarrow> if c = 1 then UnifiedBinary else UnifiedText
      | _ \<Rightarrow> Individual codes)"

definition mem_ops :: "mem_store store_ops" where
  "mem_ops =
     \<lparr>st_default_name = ''POSTGRESQL_DEFAULT_NAME'',
      st_get_statement = ms_statements,
      st_put_statement = (\<lambda>v st. st\<lparr>ms_statements := (ms_statements st)(ss_id v \<mapsto> Value v)\<rparr>),
      st_put_empty_statement = (\<lambda>k st. st\<lparr>ms_statements := (ms_statements st)(k \<mapsto> Empty)\<rparr>),
      st_rm_statement = (\<lambda>k st. st\<lparr>ms_statements := (ms_statements st)(k := None)\<rparr>),
      st_get_portal = ms_portals,
      st_put_portal = (\<lambda>p st. st\<lparr>ms_portals := (ms_portals st)(po_name p \<mapsto> Value p)\<rparr>),
      st_put_empty_portal = (\<lambda>k st. st\<lparr>ms_portals := (ms_portals st)(k \<mapsto> Empty)\<rparr>),
      st_rm_portal = (\<lambda>k st. st\<lparr>ms_portals := (ms_portals st)(k := None)\<rparr>),
      st_try_new = (\<lambda>m v. Inr
        \<lparr>po_name = (case bm_portal_name m of Some n \<Rightarrow> n | None \<Rightarrow> ''POSTGRESQL_DEFAULT_NAME''),
         po_statement = v,
         po_parameter_format = format_of (bm_parameter_format_codes m),
         po_parameters = bm_parameters m,
         po_result_format = format_of (bm_result_column_format_codes m)\<rparr>)\<rparr>"

interpretation mem: portal_store mem_ops
  by unfold_locales (auto simp: mem_ops_def split: option.split)

lemma sample_order: "hash_order_ok sample_env"
  by (simp add: hash_order_ok_def sample_env_def)

interpretation mem: connection mem_ops sample_env inst for inst
  by unfold_locales (rule sample_order)

end
