(* ===== verification/Extended.thy ===== *)
theory Extended
  imports Portals Empty_Query
begin

text \<open>
  The extended query protocol of \<open>src/extended.rs\<close>: the handlers \<open>on_parse\<close>, \<open>on_bind\<close>,
  \<open>on_sync\<close>, \<open>on_close\<close>, the two describe handlers and \<open>do_query\<close> (Execute), written as the code
  has them over the state of a connection.
\<close>

section \<open>Messages and helpers\<close>

record parse_msg =
  pm_name :: "string option"
  pm_query :: string
  pm_type_oids :: "u32 list"

record close_msg =
  cm_target_type :: u8
  cm_name :: "string option"

definition TARGET_TYPE_BYTE_STATEMENT :: u8 where
  "TARGET_TYPE_BYTE_STATEMENT = 0x53"

definition TARGET_TYPE_BYTE_PORTAL :: u8 where
  "TARGET_TYPE_BYTE_PORTAL = 0x50"

fun format_codes :: "format \<Rightarrow> nat \<Rightarrow> i16 list" where
  "format_codes UnifiedText len = replicate len 0"
| "format_codes UnifiedBinary len = replicate len 1"
| "format_codes (Individual codes) len = codes"

fun result_format_codes :: "format \<Rightarrow> i16 list" where
  "result_format_codes (Individual codes) = codes"
| "result_format_codes UnifiedBinary = [1]"
| "result_format_codes UnifiedText = []"

definition pg_type_of :: "type_table \<Rightarrow> u32 \<Rightarrow> pg_type" where
  "pg_type_of tt oid =
     (if oid = 0 then tt_unknown tt
      else (case tt_from_oid tt oid of
              Some t \<Rightarrow> t
            | None \<Rightarrow> \<lparr>ty_name = ''oid'' @ show_u32 oid, ty_oid = oid, ty_schema = ''pg_catalog''\<rparr>))"

definition name_or_default :: "'st store_ops \<Rightarrow> string option \<Rightarrow> string" where
  "name_or_default S name = (case name of Some n \<Rightarrow> n | None \<Rightarrow> st_default_name S)"

definition user_error :: "string \<Rightarrow> string \<Rightarrow> string \<Rightarrow> failure" where
  "user_error severity code message = Pg (UserError (error_info_new severity code message))"

definition not_configured :: failure where
  "not_configured = Pg (ApiError ''extended query callback is not configured'')"

section \<open>Calls into Python\<close>

definition bind_portal :: "'w py_env \<Rightarrow> pyobj \<Rightarrow> pg_portal \<Rightarrow> ('w, 'st, pyobj) handler" where
  "bind_portal E instance portal =
     (let parameter_formats = format_codes (po_parameter_format portal) (length (po_parameters portal));
          result_formats = result_format_codes (po_result_format portal)
      in call E (Call_bind_portal instance (po_name portal) (ss_statement (po_statement portal))
                   (po_parameters portal) parameter_formats result_formats))"

definition parse_statement ::
  "'w py_env \<Rightarrow> pyobj option \<Rightarrow> string \<Rightarrow> string \<Rightarrow> u32 list \<Rightarrow> ('w, 'st, pyobj) handler" where
  "parse_statement E instance name sql type_oids =
     (case instance of
        None \<Rightarrow> throw not_configured
      | Some i \<Rightarrow> call E (Call_parse_statement i name sql type_oids))"

text \<open>The parser pgwire requires; the server never reaches it.\<close>

definition parse_sql ::
  "'w py_env \<Rightarrow> pyobj option \<Rightarrow> string \<Rightarrow> pg_type option list \<Rightarrow> ('w, 'st, pyobj) handler" where
  "parse_sql E inst sql ts =
     parse_statement E inst [] sql (map (\<lambda>t. case t of None \<Rightarrow> 0 | Some t \<Rightarrow> ty_oid t) ts)"

section \<open>Parse\<close>

text \<open>Python parses the statement; then it enters the table and pgwire's store.\<close>

definition parse_and_store ::
  "'w py_env \<Rightarrow> 'st store_ops \<Rightarrow> pyobj option \<Rightarrow> string \<Rightarrow> parse_msg \<Rightarrow> pg_type option list \<Rightarrow> ('w, 'st, unit) handler" where
  "parse_and_store E S inst name message ts =
     bindE (gets (instance_for inst)) (\<lambda>instance.
     bindE (parse_statement E instance name (pm_query message) (pm_type_oids message)) (\<lambda>statement.
       case instance of
         None \<Rightarrow> throw Panic
       | Some i \<Rightarrow>
           bindE (gets c_installed) (\<lambda>installed.
             if \<not> installed then throw Panic
             else
               thenE (modify (\<lambda>s. s\<lparr>c_statements := table_insert name i (c_statements s)\<rparr>))
                     (update_store (st_put_statement S
                        \<lparr>ss_id = name, ss_statement = statement, ss_types = ts\<rparr>)))))"

definition on_parse :: "'w py_env \<Rightarrow> 'st store_ops \<Rightarrow> pyobj option \<Rightarrow> parse_msg \<Rightarrow> ('w, 'st, unit) handler" where
  "on_parse E S inst message =
     (let name = name_or_default S (pm_name message);
          ts = map (\<lambda>oid. if oid = 0 then None else Some (pg_type_of (types E) oid)) (pm_type_oids message)
      in thenE
           (if name = st_default_name S then close_statement E S inst name
            else
              bindE (gets (\<lambda>s. st_get_statement S (c_store s) name)) (\<lambda>existing.
                if existing \<noteq> None
                then throw (user_error ''ERROR'' ''42P05''
                       (''prepared statement '' @ debug_str (escaped E) name @ '' already exists''))
                else ret ()))
        (thenE
           (if is_empty_query (pm_query message) then update_store (st_put_empty_statement S name)
            else parse_and_store E S inst name message ts)
           (send E ParseComplete)))"

section \<open>Bind\<close>

definition insert_entry :: "string \<Rightarrow> portal_entry \<Rightarrow> ('w, 'st, unit) handler" where
  "insert_entry name entry =
     bindE (gets c_installed) (\<lambda>installed.
       if \<not> installed then throw Panic
       else modify (\<lambda>s. s\<lparr>c_portals := table_insert name entry (c_portals s)\<rparr>))"

definition bind_value ::
  "'w py_env \<Rightarrow> 'st store_ops \<Rightarrow> pyobj option \<Rightarrow> bind_msg \<Rightarrow> stored_statement \<Rightarrow> ('w, 'st, unit) handler" where
  "bind_value E S inst message statement =
     (let statement_name = name_or_default S (bm_statement_name message);
          portal_name = name_or_default S (bm_portal_name message)
      in case st_try_new S message statement of
           Inl e \<Rightarrow> throw (Pg e)
         | Inr portal \<Rightarrow>
             bindE (gets (instance_for inst)) (\<lambda>instance.
               case instance of
                 None \<Rightarrow> throw not_configured
               | Some i \<Rightarrow>
                   thenE (close_and_rm E S portal_name)
                  (bindE (bind_portal E i portal) (\<lambda>py_portal.
                   thenE (insert_entry portal_name
                            \<lparr>pe_statement_name = statement_name,
                             pe_bound = Some \<lparr>bp_instance = i, bp_portal = py_portal\<rparr>\<rparr>)
                         (update_store (st_put_portal S portal))))))"

definition bind_empty :: "'w py_env \<Rightarrow> 'st store_ops \<Rightarrow> bind_msg \<Rightarrow> ('w, 'st, unit) handler" where
  "bind_empty E S message =
     (let statement_name = name_or_default S (bm_statement_name message);
          portal_name = name_or_default S (bm_portal_name message)
      in if length (bm_result_column_format_codes message) > 1
         then throw (user_error ''ERROR'' ''08P01''
                (''bind message supplies '' @ show_nat (length (bm_result_column_format_codes message)) @
                 '' result format codes for 0 columns''))
         else if bm_parameters message \<noteq> []
         then throw (user_error ''ERROR'' ''08P01''
                (''bind message supplies '' @ show_nat (length (bm_parameters message)) @
                 '' parameters, but prepared statement '' @ debug_str (escaped E) statement_name @ '' requires 0''))
         else
           thenE (close_and_rm E S portal_name)
          (thenE (insert_entry portal_name \<lparr>pe_statement_name = statement_name, pe_bound = None\<rparr>)
                 (update_store (st_put_empty_portal S portal_name))))"

definition on_bind :: "'w py_env \<Rightarrow> 'st store_ops \<Rightarrow> pyobj option \<Rightarrow> bind_msg \<Rightarrow> ('w, 'st, unit) handler" where
  "on_bind E S inst message =
     (let statement_name = name_or_default S (bm_statement_name message);
          portal_name = name_or_default S (bm_portal_name message);
          format_count = length (bm_parameter_format_codes message)
      in
      bindE (gets (\<lambda>s. st_get_portal S (c_store s) portal_name)) (\<lambda>existing.
        if portal_name \<noteq> st_default_name S \<and> existing \<noteq> None
        then throw (user_error ''ERROR'' ''42P03''
               (''portal '' @ debug_str (escaped E) portal_name @ '' already exists''))
        else if format_count > 1 \<and> format_count \<noteq> length (bm_parameters message)
        then throw (user_error ''ERROR'' ''08P01''
               (''bind message supplies '' @ show_nat format_count @ '' parameter format codes for '' @
                show_nat (length (bm_parameters message)) @ '' parameters''))
        else
          (case List.find (\<lambda>code. code \<noteq> 0 \<and> code \<noteq> 1)
                  (bm_parameter_format_codes message @ bm_result_column_format_codes message) of
             Some code \<Rightarrow>
               throw (user_error ''ERROR'' ''08P01'' (''bind message has invalid format code '' @ show_i16 code))
           | None \<Rightarrow>
               thenE
                 (bindE (gets (\<lambda>s. st_get_statement S (c_store s) statement_name)) (\<lambda>statement.
                    case statement of
                      Some (Value v) \<Rightarrow> bind_value E S inst message v
                    | Some Empty \<Rightarrow> bind_empty E S message
                    | None \<Rightarrow> throw (Pg (StatementNotFound statement_name))))
                 (send E BindComplete))))"

section \<open>Sync and Close\<close>

definition on_sync :: "'w py_env \<Rightarrow> 'st store_ops \<Rightarrow> ('w, 'st, unit) handler" where
  "on_sync E S =
     bindE (gets c_status) (\<lambda>status.
     thenE (only_if (status = Idle) (close_all_portals E S))
    (bindE (gets c_status) (\<lambda>status.
     thenE (send E (ReadyForQuery_msg status))
           (flush E))))"

definition on_close :: "'w py_env \<Rightarrow> 'st store_ops \<Rightarrow> pyobj option \<Rightarrow> close_msg \<Rightarrow> ('w, 'st, unit) handler" where
  "on_close E S inst message =
     (let name = name_or_default S (cm_name message)
      in thenE
           (if cm_target_type message = TARGET_TYPE_BYTE_STATEMENT then close_statement E S inst name
            else if cm_target_type message = TARGET_TYPE_BYTE_PORTAL then close_and_rm E S name
            else throw (Pg (InvalidTargetType (cm_target_type message))))
           (send E CloseComplete))"

section \<open>Describe and Execute\<close>

definition do_describe_statement ::
  "'w py_env \<Rightarrow> pyobj option \<Rightarrow> stored_statement \<Rightarrow> ('w, 'st, pg_type list \<times> pg_field_info list) handler" where
  "do_describe_statement E inst target =
     bindE (gets (instance_for inst)) (\<lambda>instance.
       case instance of
         None \<Rightarrow> ret ([], [])
       | Some i \<Rightarrow>
           bindE (call E (Call_describe_statement i (ss_statement target))) (\<lambda>result.
           bindE (py_lift E (x_parameter_types E result)) (\<lambda>parameter_types.
           bindE (py_lift E (x_fields E result)) (\<lambda>flds.
           ret (map (pg_type_of (types E)) parameter_types, map (pg_field_info_of_py (types E)) flds)))))"

definition do_describe_portal ::
  "'w py_env \<Rightarrow> pyobj option \<Rightarrow> pg_portal \<Rightarrow> ('w, 'st, pg_field_info list) handler" where
  "do_describe_portal E inst target =
     bindE (gets (instance_for inst)) (\<lambda>instance.
       case instance of
         None \<Rightarrow> ret []
       | Some i \<Rightarrow>
           bindE (portal_for (po_name target)) (\<lambda>portal.
           bindE (call E (Call_describe_portal i portal)) (\<lambda>result.
           bindE (py_lift E (x_fields E result)) (\<lambda>flds.
           ret (map (pg_field_info_of_py (types E)) flds)))))"

definition do_query ::
  "'w py_env \<Rightarrow> 'st store_ops \<Rightarrow> pyobj option \<Rightarrow> pg_portal \<Rightarrow> nat \<Rightarrow> ('w, 'st, pg_response) handler" where
  "do_query E S inst portal max_rows =
     bindE (gets (instance_for inst)) (\<lambda>instance.
       case instance of
         None \<Rightarrow> throw not_configured
       | Some i \<Rightarrow>
           bindE (portal_for (po_name portal)) (\<lambda>py_portal.
           bindE (call E (Call_portal_query i py_portal max_rows)) (\<lambda>result.
           bindE (py_lift E (x_response E result)) (\<lambda>response.
             (let response = into_pg (types E) response
              in thenE (only_if (is_transaction_end response) (close_all_portals E S))
                       (ret response))))))"

section \<open>Every handler keeps the invariant\<close>

context connection
begin

lemma closing_only_events: "closing_only S s (s\<lparr>b_world := w, b_trace := b_trace s @ evs\<rparr>)"
  by (simp add: closing_only_def)

lemma I_events: "I s \<Longrightarrow> quiet evs \<Longrightarrow> I (s\<lparr>b_world := w, b_trace := b_trace s @ evs\<rparr>)"
  by (rule conn_inv_quiet)

lemma stable_events: "stable S F \<Longrightarrow> F s \<Longrightarrow> F (s\<lparr>b_world := w, b_trace := b_trace s @ evs\<rparr>)"
proof -
  assume st: "stable S F" and f: "F s"
  have "closing_only S s (s\<lparr>b_world := w, b_trace := b_trace s @ evs\<rparr>)" by (rule closing_only_events)
  with st f show "F (s\<lparr>b_world := w, b_trace := b_trace s @ evs\<rparr>)" by (simp add: stable_def)
qed

lemma runs_call:
  assumes "quiet [Ev_call c True]" and "stable S F"
  shows "runs (\<lambda>s. I s \<and> F s) (call E c) (\<lambda>_ s. I s \<and> F s)"
proof (rule tripleI)
  fix s x t assume P: "I s \<and> F s" and "call E c s = (Inr x, t)"
  from this(2) show "I t \<and> F t"
    by (cases rule: call_cases) (use P assms I_events stable_events in auto)
next
  fix s e t assume P: "I s \<and> F s" and "call E c s = (Inl e, t)"
  from this(2) show "I t \<and> clean e"
    by (cases rule: call_cases) (use P I_events in auto)
qed

lemma runs_send:
  assumes "stable S F"
  shows "runs (\<lambda>s. I s \<and> F s) (send E m) (\<lambda>_ s. I s \<and> F s)"
proof (rule tripleI)
  fix s x t assume P: "I s \<and> F s" and "send E m s = (Inr x, t)"
  from this(2) show "I t \<and> F t"
    by (cases rule: send_cases) (use P assms I_events stable_events in auto)
next
  fix s e t assume P: "I s \<and> F s" and "send E m s = (Inl e, t)"
  from this(2) show "I t \<and> clean e"
    by (cases rule: send_cases) (use P I_events in auto)
qed

lemma runs_flush: "runs I (flush E) (\<lambda>_. I)"
proof (rule tripleI)
  fix s x t assume P: "I s" and "flush E s = (Inr x, t)"
  from this(2) show "I t" by (cases rule: flush_cases) (use P I_events in auto)
next
  fix s e t assume P: "I s" and "flush E s = (Inl e, t)"
  from this(2) show "I t \<and> clean e" by (cases rule: flush_cases) (use P I_events in auto)
qed

lemma runs_lift: "(\<And>s. P s \<Longrightarrow> I s) \<Longrightarrow> runs P (py_lift E r) (\<lambda>_. P)"
  by (cases r) (auto simp: py_lift_def py_fail_def intro!: triple_ret triple_throw)

lemma runs_throw_Pg: "(\<And>s. P s \<Longrightarrow> I s) \<Longrightarrow> runs P (throw (Pg e)) Q"
  by (auto intro!: triple_throw)

lemma stable_True [simp]: "stable S (\<lambda>s. True)"
  by (rule stable_const)

lemmas runs_call_I = runs_call [OF _ stable_True, simplified]
lemmas runs_send_I = runs_send [OF stable_True, simplified]
lemmas close_and_rm_I = close_and_rm_runs [OF stable_True, simplified]
lemmas close_all_I = close_all_portals_runs [OF stable_True, simplified]

lemma runs_weaken:
  "runs P m Q \<Longrightarrow> (\<And>s. P' s \<Longrightarrow> P s) \<Longrightarrow> (\<And>x s. Q x s \<Longrightarrow> Q' x s) \<Longrightarrow> runs P' m Q'"
  by (rule triple_weaken)

subsection \<open>Parse\<close>

lemma fresh_not_used:
  assumes "I s" and "st_get_statement S (c_store s) name = None" and "table_get (c_portals s) n = Some e"
  shows "pe_statement_name e \<noteq> name"
  using assms unfolding conn_inv_def no_dangling_def by fastforce

lemma conn_inv_put_statement:
  assumes "I s" and "st_get_statement S (c_store s) name = None" and "instance_for inst s = Some i"
  shows "I (s\<lparr>b_world := w, b_trace := b_trace s @ [Ev_call (Call_parse_statement i name sql oids) True],
      c_statements := table_insert name i (c_statements s),
      c_store := st_put_statement S \<lparr>ss_id = name, ss_statement = v, ss_types = ts\<rparr> (c_store s)\<rparr>)"
proof -
  have "table_get (c_statements s) name \<noteq> None \<longleftrightarrow> is_value (st_get_statement S (c_store s) name)"
    using assms(1) by (simp add: conn_inv_def statements_synced_def)
  then have none: "table_get (c_statements s) name = None" using assms(2) by (simp add: is_value_def)
  note fresh = fresh_not_used [OF assms(1,2)]
  have "ledger (b_trace s @ [Ev_call (Call_parse_statement i name sql oids) True]) (c_portals s)
      (table_insert name i (c_statements s))"
    using assms(1) none unfolding conn_inv_def ledger_def by auto
  then show ?thesis
    using assms fresh unfolding conn_inv_def portals_synced_def statements_synced_def no_dangling_def owned_def
    by (auto simp: instance_for_def is_value_def)
qed

lemma conn_inv_put_empty_statement:
  assumes "I s" and "st_get_statement S (c_store s) name = None"
  shows "I (s\<lparr>c_store := st_put_empty_statement S name (c_store s)\<rparr>)"
  using assms fresh_not_used [OF assms] unfolding conn_inv_def conn_defs
  by (auto simp: instance_for_def is_value_def)

lemma parse_and_store_runs:
  "runs (\<lambda>s. I s \<and> st_get_statement S (c_store s) name = None) (parse_and_store E S inst name message ts) (\<lambda>_. I)"
proof -
  have "case parse_and_store E S inst name message ts s of (Inl e, t) \<Rightarrow> I t \<and> clean e | (Inr x, t) \<Rightarrow> I t"
    if P: "I s" "st_get_statement S (c_store s) name = None" for s
  proof (cases "instance_for inst s")
    case None
    with P show ?thesis
      by (simp add: parse_and_store_def parse_statement_def not_configured_def prog_simps)
  next
    case (Some i)
    let ?c = "Call_parse_statement i name (pm_query message) (pm_type_oids message)"
    obtain r u where c: "call E ?c s = (r, u)" by fastforce
    then show ?thesis
    proof (cases rule: call_cases)
      case (ok w v)
      have "c_installed s" using P by (simp add: conn_inv_def)
      with Some c ok have "parse_and_store E S inst name message ts s =
          (Inr (), s\<lparr>b_world := w, b_trace := b_trace s @ [Ev_call ?c True],
             c_statements := table_insert name i (c_statements s),
             c_store := st_put_statement S \<lparr>ss_id = name, ss_statement = v, ss_types = ts\<rparr> (c_store s)\<rparr>)"
        by (simp add: parse_and_store_def parse_statement_def update_store_def prog_simps)
      moreover note conn_inv_put_statement [OF P Some, where w = w and v = v and ts = ts and sql = "pm_query message" and oids = "pm_type_oids message"]
      ultimately show ?thesis by simp
    next
      case (err w e evs)
      with Some c have "parse_and_store E S inst name message ts s = (Inl e, u)"
        by (simp add: parse_and_store_def parse_statement_def prog_simps)
      then show ?thesis using err I_events [of s evs w] P by simp
    qed
  qed
  then show ?thesis by (intro triple_caseI) simp
qed

lemma on_parse_runs: "runs I (on_parse E S inst message) (\<lambda>_. I)"
proof -
  let ?name = "name_or_default S (pm_name message)"
  let ?fresh = "\<lambda>s. I s \<and> st_get_statement S (c_store s) ?name = None"
  have A: "runs I (if ?name = st_default_name S then close_statement E S inst ?name
            else
              bindE (gets (\<lambda>s. st_get_statement S (c_store s) ?name)) (\<lambda>existing.
                if existing \<noteq> None
                then throw (user_error ''ERROR'' ''42P05''
                       (''prepared statement '' @ debug_str (escaped E) ?name @ '' already exists''))
                else ret ())) (\<lambda>_. ?fresh)"
    by (intro triple_if close_statement_runs triple_bind_gets)
      (auto simp: user_error_def intro!: triple_if triple_ret triple_throw)
  have B: "runs ?fresh
     (if is_empty_query (pm_query message) then update_store (st_put_empty_statement S ?name)
      else parse_and_store E S inst ?name message ts) (\<lambda>_. I)" for ts
    by (intro triple_if parse_and_store_runs)
      (auto simp: update_store_def intro!: triple_modify conn_inv_put_empty_statement)
  show ?thesis
    unfolding on_parse_def Let_def by (rule triple_thenE [OF A triple_thenE [OF B runs_send_I]])
qed

subsection \<open>Bind\<close>

lemma conn_inv_put_portal:
  assumes "I s" and "table_get (c_portals s) name = None" and "instance_for inst s = Some i"
    and "st_get_statement S (c_store s) sn = Some (Value v)" and "po_name p = name"
  shows "I (s\<lparr>b_world := w, b_trace := b_trace s @ [Ev_call (Call_bind_portal i name st ps pf rf) True],
      c_portals := table_insert name
        \<lparr>pe_statement_name = sn, pe_bound = Some \<lparr>bp_instance = i, bp_portal = q\<rparr>\<rparr> (c_portals s),
      c_store := st_put_portal S p (c_store s)\<rparr>)"
proof -
  let ?e = "\<lparr>pe_statement_name = sn, pe_bound = Some \<lparr>bp_instance = i, bp_portal = q\<rparr>\<rparr>"
  have b: "bound_at (table_insert name ?e (c_portals s)) m =
      (if m = name then Some \<lparr>bp_instance = i, bp_portal = q\<rparr> else bound_at (c_portals s) m)" for m
    by (simp add: bound_at_def)
  have none: "bound_at (c_portals s) name = None" using assms(2) by (simp add: bound_at_def)
  have "ledger (b_trace s @ [Ev_call (Call_bind_portal i name st ps pf rf) True])
      (table_insert name ?e (c_portals s)) (c_statements s)"
    using assms(1) none unfolding conn_inv_def ledger_def by (auto simp: b)
  then show ?thesis
    using assms unfolding conn_inv_def portals_synced_def statements_synced_def no_dangling_def owned_def
    by (simp add: b instance_for_def)
qed

lemma conn_inv_put_empty_portal:
  assumes "I s" and "table_get (c_portals s) name = None"
    and "st_get_statement S (c_store s) sn = Some Empty"
  shows "I (s\<lparr>c_portals := table_insert name \<lparr>pe_statement_name = sn, pe_bound = None\<rparr> (c_portals s),
      c_store := st_put_empty_portal S name (c_store s)\<rparr>)"
proof -
  have b: "bound_at (table_insert name \<lparr>pe_statement_name = sn, pe_bound = None\<rparr> (c_portals s)) m =
      bound_at (c_portals s) m" for m
    using assms(2) by (simp add: bound_at_def)
  show ?thesis
    using assms unfolding conn_inv_def conn_defs by (simp add: b instance_for_def)
qed

lemma bind_and_store_runs:
  assumes "po_name p = name"
  shows "runs (\<lambda>s. I s \<and> table_get (c_portals s) name = None \<and> instance_for inst s = Some i \<and>
      st_get_statement S (c_store s) sn = Some (Value v))
    (bindE (bind_portal E i p) (\<lambda>q.
       thenE (insert_entry name \<lparr>pe_statement_name = sn, pe_bound = Some \<lparr>bp_instance = i, bp_portal = q\<rparr>\<rparr>)
             (update_store (st_put_portal S p)))) (\<lambda>_. I)"
    (is "runs ?P ?m _")
proof (rule triple_caseI)
  fix s assume P: "?P s"
  let ?pf = "format_codes (po_parameter_format p) (length (po_parameters p))"
  let ?rf = "result_format_codes (po_result_format p)"
  let ?c = "Call_bind_portal i name (ss_statement (po_statement p)) (po_parameters p) ?pf ?rf"
  obtain r u where c: "call E ?c s = (r, u)" by fastforce
  then show "case ?m s of (Inl e, t) \<Rightarrow> I t \<and> clean e | (Inr x, t) \<Rightarrow> I t"
  proof (cases rule: call_cases)
    case (ok w q)
    have "c_installed s" using P by (simp add: conn_inv_def)
    with c ok assms have "?m s = (Inr (), s\<lparr>b_world := w, b_trace := b_trace s @ [Ev_call ?c True],
        c_portals := table_insert name
          \<lparr>pe_statement_name = sn, pe_bound = Some \<lparr>bp_instance = i, bp_portal = q\<rparr>\<rparr> (c_portals s),
        c_store := st_put_portal S p (c_store s)\<rparr>)"
      by (simp add: bind_portal_def insert_entry_def update_store_def prog_simps)
    moreover note conn_inv_put_portal [of s name i sn v p, where w = w and q = q and pf = ?pf and rf = ?rf
      and st = "ss_statement (po_statement p)" and ps = "po_parameters p"]
    ultimately show ?thesis using P assms by simp
  next
    case (err w e evs)
    with c assms have "?m s = (Inl e, u)" by (simp add: bind_portal_def prog_simps)
    then show ?thesis using err I_events [of s evs w] P by simp
  qed
qed

lemma bind_value_runs:
  "runs (\<lambda>s. I s \<and> st_get_statement S (c_store s) (name_or_default S (bm_statement_name message)) = Some (Value v))
     (bind_value E S inst message v) (\<lambda>_. I)"
proof (cases "st_try_new S message v")
  case (Inl e)
  then show ?thesis by (auto simp: bind_value_def intro!: triple_throw)
next
  case (Inr p)
  let ?sn = "name_or_default S (bm_statement_name message)"
  let ?pn = "name_or_default S (bm_portal_name message)"
  have name: "po_name p = ?pn" using try_new_name [OF Inr] by (simp add: name_or_default_def)
  have "runs (\<lambda>s. (I s \<and> st_get_statement S (c_store s) ?sn = Some (Value v)) \<and> instance = instance_for inst s)
     (case instance of
        None \<Rightarrow> throw not_configured
      | Some i \<Rightarrow>
          thenE (close_and_rm E S ?pn)
         (bindE (bind_portal E i p) (\<lambda>q.
          thenE (insert_entry ?pn \<lparr>pe_statement_name = ?sn, pe_bound = Some \<lparr>bp_instance = i, bp_portal = q\<rparr>\<rparr>)
                (update_store (st_put_portal S p))))) (\<lambda>_. I)" for "instance"
  proof (cases "instance")
    case None
    then show ?thesis by (auto simp: not_configured_def intro!: triple_throw)
  next
    case (Some i)
    let ?F = "\<lambda>s. st_get_statement S (c_store s) ?sn = Some (Value v) \<and> instance_for inst s = Some i"
    have "stable S ?F" by (intro stable_conj stable_statement stable_instance)
    then have "runs (\<lambda>s. I s \<and> ?F s) (close_and_rm E S ?pn)
        (\<lambda>_ s. I s \<and> table_get (c_portals s) ?pn = None \<and> instance_for inst s = Some i \<and>
           st_get_statement S (c_store s) ?sn = Some (Value v))"
      by (rule runs_weaken [OF close_and_rm_runs]) auto
    from runs_weaken [OF triple_thenE [OF this bind_and_store_runs [OF name]]] Some
    show ?thesis by (simp add: conj_assoc eq_commute)
  qed
  then show ?thesis
    unfolding bind_value_def Inr by (simp add: Let_def triple_bind_gets)
qed

lemma bind_empty_runs:
  "runs (\<lambda>s. I s \<and> st_get_statement S (c_store s) (name_or_default S (bm_statement_name message)) = Some Empty)
     (bind_empty E S message) (\<lambda>_. I)"
proof -
  let ?sn = "name_or_default S (bm_statement_name message)"
  let ?pn = "name_or_default S (bm_portal_name message)"
  have "runs (\<lambda>s. I s \<and> st_get_statement S (c_store s) ?sn = Some Empty) (close_and_rm E S ?pn)
      (\<lambda>_ s. I s \<and> st_get_statement S (c_store s) ?sn = Some Empty \<and> table_get (c_portals s) ?pn = None)"
    by (intro close_and_rm_runs stable_statement)
  moreover have "runs (\<lambda>s. I s \<and> st_get_statement S (c_store s) ?sn = Some Empty \<and> table_get (c_portals s) ?pn = None)
      (thenE (insert_entry ?pn \<lparr>pe_statement_name = ?sn, pe_bound = None\<rparr>)
             (update_store (st_put_empty_portal S ?pn))) (\<lambda>_. I)"
  proof (rule triple_caseI)
    fix s
    assume P: "I s \<and> st_get_statement S (c_store s) ?sn = Some Empty \<and> table_get (c_portals s) ?pn = None"
    then have "c_installed s" by (simp add: conn_inv_def)
    with P conn_inv_put_empty_portal [of s ?pn ?sn]
    show "case thenE (insert_entry ?pn \<lparr>pe_statement_name = ?sn, pe_bound = None\<rparr>)
             (update_store (st_put_empty_portal S ?pn)) s of (Inl e, t) \<Rightarrow> I t \<and> clean e | (Inr x, t) \<Rightarrow> I t"
      by (simp add: insert_entry_def update_store_def prog_simps)
  qed
  ultimately have "runs (\<lambda>s. I s \<and> st_get_statement S (c_store s) ?sn = Some Empty)
      (thenE (close_and_rm E S ?pn)
        (thenE (insert_entry ?pn \<lparr>pe_statement_name = ?sn, pe_bound = None\<rparr>)
               (update_store (st_put_empty_portal S ?pn)))) (\<lambda>_. I)"
    by (rule triple_thenE)
  then show ?thesis
    unfolding bind_empty_def Let_def user_error_def by (intro triple_if runs_throw_Pg) auto
qed

lemma on_bind_runs: "runs I (on_bind E S inst message) (\<lambda>_. I)"
proof -
  let ?sn = "name_or_default S (bm_statement_name message)"
  have arms: "runs I (bindE (gets (\<lambda>s. st_get_statement S (c_store s) ?sn)) (\<lambda>statement.
       case statement of
         Some (Value v) \<Rightarrow> bind_value E S inst message v
       | Some Empty \<Rightarrow> bind_empty E S message
       | None \<Rightarrow> throw (Pg (StatementNotFound ?sn)))) (\<lambda>_. I)"
  proof (rule triple_bind_gets)
    fix statement
    show "runs (\<lambda>s. I s \<and> statement = st_get_statement S (c_store s) ?sn)
       (case statement of
          Some (Value v) \<Rightarrow> bind_value E S inst message v
        | Some Empty \<Rightarrow> bind_empty E S message
        | None \<Rightarrow> throw (Pg (StatementNotFound ?sn))) (\<lambda>_. I)"
    proof (cases statement)
      case None
      then show ?thesis by (auto intro!: triple_throw)
    next
      case (Some e)
      then show ?thesis
        by (cases e) (auto intro: runs_weaken [OF bind_value_runs] runs_weaken [OF bind_empty_runs])
    qed
  qed
  have "runs I (thenE (bindE (gets (\<lambda>s. st_get_statement S (c_store s) ?sn)) (\<lambda>statement.
       case statement of
         Some (Value v) \<Rightarrow> bind_value E S inst message v
       | Some Empty \<Rightarrow> bind_empty E S message
       | None \<Rightarrow> throw (Pg (StatementNotFound ?sn)))) (send E BindComplete)) (\<lambda>_. I)"
    by (rule triple_thenE [OF arms runs_send_I])
  then have "runs (\<lambda>s. I s \<and> x = f s) (thenE (bindE (gets (\<lambda>s. st_get_statement S (c_store s) ?sn)) (\<lambda>statement.
       case statement of
         Some (Value v) \<Rightarrow> bind_value E S inst message v
       | Some Empty \<Rightarrow> bind_empty E S message
       | None \<Rightarrow> throw (Pg (StatementNotFound ?sn)))) (send E BindComplete)) (\<lambda>_. I)" for x and f :: "('w, 'st) conn \<Rightarrow> 'x"
    by (rule runs_weaken) auto
  then show ?thesis
    unfolding on_bind_def Let_def user_error_def
    by (intro triple_bind_gets triple_if runs_throw_Pg)
      (auto intro!: runs_throw_Pg split: option.split)
qed

subsection \<open>Sync, Close, Describe, Execute\<close>

lemma on_sync_runs: "runs (\<lambda>s. I s \<and> c_status s = status) (on_sync E S)
    (\<lambda>_ s. I s)"
proof -
  have st: "stable S (\<lambda>s. c_status s = status)" by (rule stable_status)
  have "runs (\<lambda>s. I s \<and> c_status s = status) (only_if b (close_all_portals E S)) (\<lambda>_ s. I s \<and> c_status s = status)" for b
    using close_all_portals_runs [OF st]
    by (auto simp: only_if_def intro: triple_ret elim: runs_weaken)
  moreover have "runs (\<lambda>s. I s \<and> c_status s = status)
      (bindE (gets c_status) (\<lambda>status. thenE (send E (ReadyForQuery_msg status)) (flush E))) (\<lambda>_. I)"
    by (intro triple_bind_gets) (auto intro!: triple_thenE [OF _ runs_flush] intro: runs_weaken [OF runs_send_I])
  ultimately have "runs (\<lambda>s. I s \<and> c_status s = status) (thenE (only_if b (close_all_portals E S))
      (bindE (gets c_status) (\<lambda>status. thenE (send E (ReadyForQuery_msg status)) (flush E)))) (\<lambda>_. I)" for b
    by (rule triple_thenE)
  then show ?thesis
    unfolding on_sync_def by (intro triple_bind_gets) (auto intro: runs_weaken)
qed

lemma on_sync_I: "runs I (on_sync E S) (\<lambda>_. I)"
proof (rule triple_caseI)
  fix s assume "I s"
  then show "case on_sync E S s of (Inl e, t) \<Rightarrow> I t \<and> clean e | (Inr x, t) \<Rightarrow> I t"
    using on_sync_runs [of "c_status s"] by (simp add: triple_def)
qed

lemma on_close_runs: "runs I (on_close E S inst message) (\<lambda>_. I)"
proof -
  let ?name = "name_or_default S (cm_name message)"
  have "runs I (if cm_target_type message = TARGET_TYPE_BYTE_STATEMENT then close_statement E S inst ?name
            else if cm_target_type message = TARGET_TYPE_BYTE_PORTAL then close_and_rm E S ?name
            else throw (Pg (InvalidTargetType (cm_target_type message)))) (\<lambda>_. I)"
    by (intro triple_if runs_throw_Pg runs_weaken [OF close_statement_runs] runs_weaken [OF close_and_rm_I]) auto
  then show ?thesis
    unfolding on_close_def Let_def by (rule triple_thenE) (rule runs_send_I)
qed

lemma portal_for_runs: "runs I (portal_for name) (\<lambda>_. I)"
  unfolding portal_for_def
  by (intro triple_bind_gets triple_if) (auto intro!: triple_bind_gets triple_throw triple_ret split: option.split)

lemma quiet_calls [simp]:
  "quiet [Ev_call (Call_describe_statement i a) True]" "quiet [Ev_call (Call_describe_portal i a) True]"
  "quiet [Ev_call (Call_portal_query i a n) True]" "quiet [Ev_call (Call_do_query i q) True]"
  "quiet [Ev_call (Call_open i l) True]" "quiet [Ev_call (Call_get_scram_verifier i l) True]"
  "quiet [Ev_call (Call_get_password i l) True]"
  by (simp_all add: quiet_def)

lemma do_describe_statement_runs: "runs I (do_describe_statement E inst target) (\<lambda>_. I)"
  unfolding do_describe_statement_def
proof (rule triple_bind_gets)
  fix x
  have "runs I (bindE (call E (Call_describe_statement i (ss_statement target))) (\<lambda>result.
           bindE (py_lift E (x_parameter_types E result)) (\<lambda>parameter_types.
           bindE (py_lift E (x_fields E result)) (\<lambda>flds.
           ret (map (pg_type_of (types E)) parameter_types, map (pg_field_info_of_py (types E)) flds))))) (\<lambda>_. I)" for i
    by (intro triple_bindE [OF runs_call_I] triple_bindE [OF runs_lift] triple_ret) auto
  then show "runs (\<lambda>s. I s \<and> x = instance_for inst s) (case x of
         None \<Rightarrow> ret ([], [])
       | Some i \<Rightarrow> (bindE (call E (Call_describe_statement i (ss_statement target))) (\<lambda>result.
           bindE (py_lift E (x_parameter_types E result)) (\<lambda>parameter_types.
           bindE (py_lift E (x_fields E result)) (\<lambda>flds.
           ret (map (pg_type_of (types E)) parameter_types, map (pg_field_info_of_py (types E)) flds)))))) (\<lambda>_. I)"
    by (cases x) (auto intro!: triple_ret intro: runs_weaken)
qed

lemma do_describe_portal_runs: "runs I (do_describe_portal E inst target) (\<lambda>_. I)"
  unfolding do_describe_portal_def
proof (rule triple_bind_gets)
  fix x
  have "runs I (bindE (portal_for (po_name target)) (\<lambda>portal.
           bindE (call E (Call_describe_portal i portal)) (\<lambda>result.
           bindE (py_lift E (x_fields E result)) (\<lambda>flds.
           ret (map (pg_field_info_of_py (types E)) flds))))) (\<lambda>_. I)" for i
    by (intro triple_bindE [OF portal_for_runs] triple_bindE [OF runs_call_I] triple_bindE [OF runs_lift] triple_ret) auto
  then show "runs (\<lambda>s. I s \<and> x = instance_for inst s) (case x of
         None \<Rightarrow> ret []
       | Some i \<Rightarrow> (bindE (portal_for (po_name target)) (\<lambda>portal.
           bindE (call E (Call_describe_portal i portal)) (\<lambda>result.
           bindE (py_lift E (x_fields E result)) (\<lambda>flds.
           ret (map (pg_field_info_of_py (types E)) flds)))))) (\<lambda>_. I)"
    by (cases x) (auto intro!: triple_ret intro: runs_weaken)
qed

lemma finish_response_runs:
  "runs I (thenE (only_if b (close_all_portals E S)) (ret response))
     (\<lambda>r s. I s \<and> r = response \<and> (b \<longrightarrow> c_portals s = []))"
  unfolding only_if_def
  by (intro triple_thenE [where M = "\<lambda>s. I s \<and> (b \<longrightarrow> c_portals s = [])"] triple_if triple_ret
      runs_weaken [OF close_all_I]) auto

lemma do_query_runs:
  "runs I (do_query E S inst portal max_rows) (\<lambda>r s. I s \<and> (is_transaction_end r \<longrightarrow> c_portals s = []))"
  (is "runs I _ ?Q")
  unfolding do_query_def Let_def
proof (rule triple_bind_gets)
  fix x
  have "runs I (bindE (portal_for (po_name portal)) (\<lambda>py_portal.
           bindE (call E (Call_portal_query i py_portal max_rows)) (\<lambda>result.
           bindE (py_lift E (x_response E result)) (\<lambda>response.
             thenE (only_if (is_transaction_end (into_pg (types E) response)) (close_all_portals E S))
                       (ret (into_pg (types E) response)))))) ?Q" for i
    by (intro triple_bindE [OF portal_for_runs] triple_bindE [OF runs_call_I] triple_bindE [OF runs_lift]
        runs_weaken [OF finish_response_runs]) auto
  then show "runs (\<lambda>s. I s \<and> x = instance_for inst s) (case x of
         None \<Rightarrow> throw not_configured
       | Some i \<Rightarrow> (bindE (portal_for (po_name portal)) (\<lambda>py_portal.
           bindE (call E (Call_portal_query i py_portal max_rows)) (\<lambda>result.
           bindE (py_lift E (x_response E result)) (\<lambda>response.
             thenE (only_if (is_transaction_end (into_pg (types E) response)) (close_all_portals E S))
                       (ret (into_pg (types E) response))))))) ?Q"
    by (cases x) (auto simp: not_configured_def intro!: triple_throw intro: runs_weaken)
qed

end

end
