(* ===== verification/Cleanup.thy ===== *)
theory Cleanup
  imports Portals
begin

text \<open>
  What the end of a connection calls in Python: \<open>cleanup_entries\<close> of \<open>src/extended.rs\<close> closes every
  bound portal once, then every statement once, then the session, whatever any of the calls does.
\<close>

section \<open>What the cleanup calls\<close>

fun called :: "event \<Rightarrow> py_call option" where
  "called (Ev_call c ok) = Some c"
| "called _ = None"

text \<open>How often the trace calls, with whatever result.\<close>

definition attempts :: "(py_call \<Rightarrow> bool) \<Rightarrow> event list \<Rightarrow> nat" where
  "attempts P tr = length (filter P (List.map_filter called tr))"

lemma map_filter_append: "List.map_filter f (a @ b) = List.map_filter f a @ List.map_filter f b"
  by (induction a) (simp_all add: List.map_filter_simps split: option.split)

lemma attempts_append [simp]: "attempts P (a @ b) = attempts P a + attempts P b"
  by (simp add: attempts_def map_filter_append)

lemma call_python_undisturbed:
  "\<exists>w ok. ignore_err (call_python (undisturbed E) c) s =
     (Inr (), s\<lparr>b_world := w, b_trace := b_trace s @ [Ev_call c ok]\<rparr>)"
proof -
  obtain r w where d: "do_call E c (b_world s) = (r, w)" by fastforce
  then show ?thesis
    by (cases r)
      (auto simp: ignore_err_def call_python_eq call_def py_await_def py_fail_def undisturbed_def dropped_def
        log_event_def prog_simps Let_def)
qed

text \<open>A loop of such calls makes them all, in the order of the names.\<close>

lemma for_each_ignored:
  "\<exists>w evs. for_each (\<lambda>n. case f n of Some c \<Rightarrow> ignore_err (call_python (undisturbed E) c) | None \<Rightarrow> ret ()) ns s =
       (Inr (), s\<lparr>b_world := w, b_trace := b_trace s @ evs\<rparr>) \<and>
     List.map_filter called evs = List.map_filter f ns"
proof (induction ns arbitrary: s)
  case Nil
  show ?case
    by (intro exI [of _ "b_world s"] exI [of _ "[]"]) (simp add: ret_def List.map_filter_simps)
next
  case (Cons n ns)
  show ?case
  proof (cases "f n")
    case None
    with Cons.IH [of s] show ?thesis by (simp add: thenE_def bindE_def ret_def List.map_filter_simps)
  next
    case (Some c)
    obtain w ok where one: "ignore_err (call_python (undisturbed E) c) s =
        (Inr (), s\<lparr>b_world := w, b_trace := b_trace s @ [Ev_call c ok]\<rparr>)"
      using call_python_undisturbed [of E c s] by auto
    obtain w' evs where rest: "for_each (\<lambda>n. case f n of Some c \<Rightarrow> ignore_err (call_python (undisturbed E) c) | None \<Rightarrow> ret ())
          ns (s\<lparr>b_world := w, b_trace := b_trace s @ [Ev_call c ok]\<rparr>) =
        (Inr (), s\<lparr>b_world := w', b_trace := (b_trace s @ [Ev_call c ok]) @ evs\<rparr>)"
      and evs: "List.map_filter called evs = List.map_filter f ns"
      using Cons.IH [of "s\<lparr>b_world := w, b_trace := b_trace s @ [Ev_call c ok]\<rparr>"] by auto
    from one rest Some
    have "for_each (\<lambda>n. case f n of Some c \<Rightarrow> ignore_err (call_python (undisturbed E) c) | None \<Rightarrow> ret ()) (n # ns) s =
        (Inr (), s\<lparr>b_world := w', b_trace := b_trace s @ (Ev_call c ok # evs)\<rparr>)"
      by (simp add: thenE_def bindE_def)
    with Some evs show ?thesis
      by (intro exI [of _ w'] exI [of _ "Ev_call c ok # evs"]) (simp add: List.map_filter_simps)
  qed
qed

definition close_calls :: "portal_entry table \<Rightarrow> string list \<Rightarrow> py_call list" where
  "close_calls portals names = List.map_filter
     (\<lambda>n. map_option (\<lambda>b. Call_close_portal (bp_instance b) n) (bound_at portals n)) names"

definition close_statement_calls :: "pyobj table \<Rightarrow> string list \<Rightarrow> py_call list" where
  "close_statement_calls statements names = List.map_filter
     (\<lambda>n. map_option (\<lambda>i. Call_close_statement i n) (table_get statements n)) names"

fun is_close :: "py_call \<Rightarrow> bool" where
  "is_close (Call_close _) \<longleftrightarrow> True"
| "is_close _ \<longleftrightarrow> False"

text \<open>The calls that end a session: its \<open>close\<close>, if there is a session and it has one.\<close>

definition session_calls :: "'w py_env \<Rightarrow> pyobj option \<Rightarrow> py_call list \<Rightarrow> bool" where
  "session_calls E session cs \<longleftrightarrow>
     cs \<in> {[]} \<union> {[Call_close i] | i. session = Some i} \<and>
     ((\<forall>i w. fst (has_close E i w)) \<longrightarrow> cs = (case session of None \<Rightarrow> [] | Some i \<Rightarrow> [Call_close i]))"

lemma session_calls_None [simp]: "session_calls E None []"
  by (simp add: session_calls_def)

lemma session_callsD: "session_calls E session cs \<Longrightarrow> cs = [] \<or> (\<exists>i. cs = [Call_close i] \<and> session = Some i)"
  unfolding session_calls_def by blast

lemma session_calls_undisturbed [simp]: "session_calls (undisturbed E) session cs \<longleftrightarrow> session_calls E session cs"
  by (simp add: session_calls_def undisturbed_def)

lemma close_session_trace:
  "\<exists>w evs. close_session E i s = (Inr (), s\<lparr>b_world := w, b_trace := b_trace s @ evs\<rparr>) \<and>
     session_calls E (Some i) (List.map_filter called evs)"
proof -
  obtain has w where h: "has_close E i (b_world s) = (has, w)" by fastforce
  obtain r w' where d: "do_call E (Call_close i) w = (r, w')" by fastforce
  show ?thesis
  proof (cases has)
    case True
    with h d show ?thesis
      by (intro exI [of _ w'] exI [of _ "[Ev_call (Call_close i) (\<exists>v. r = Returned v)]"])
        (simp add: close_session_def log_event_def List.map_filter_simps session_calls_def)
  next
    case False
    with h have "\<exists>i w. \<not> fst (has_close E i w)" by (metis fst_conv)
    with False h show ?thesis
      by (intro exI [of _ w] exI [of _ "[]"]) (auto simp: close_session_def List.map_filter_simps session_calls_def)
  qed
qed

lemma cleanup_entries_trace:
  assumes "hash_order_ok E" and "table_ok portals" and "table_ok statements"
  shows "\<exists>w evs ps ss cs. cleanup_entries (undisturbed E) portals statements session s =
      (Inr (), s\<lparr>b_world := w, b_trace := b_trace s @ evs\<rparr>) \<and>
    List.map_filter called evs = close_calls portals ps @ close_statement_calls statements ss @ cs \<and>
    distinct ps \<and> set ps = set (table_keys portals) \<and>
    distinct ss \<and> set ss = set (table_keys statements) \<and>
    session_calls E session cs"
proof -
  let ?U = "undisturbed E"
  have order: "set (hash_order ?U w ks) = set ks" "distinct ks \<Longrightarrow> distinct (hash_order ?U w ks)" for w ks
    using assms(1) by (simp_all add: hash_order_ok_def undisturbed_def)
  have dist: "distinct (table_keys portals)" "distinct (table_keys statements)"
    using assms(2,3) by (simp_all add: table_ok_def)
  define ps where "ps = hash_order ?U (b_world s) (table_keys portals)"
  obtain w1 e1 where l1: "for_each (\<lambda>n. case map_option (\<lambda>b. Call_close_portal (bp_instance b) n) (bound_at portals n) of
        Some c \<Rightarrow> ignore_err (call_python ?U c) | None \<Rightarrow> ret ()) ps s =
      (Inr (), s\<lparr>b_world := w1, b_trace := b_trace s @ e1\<rparr>)"
    and c1: "List.map_filter called e1 = close_calls portals ps"
    unfolding close_calls_def
    using for_each_ignored [of E "\<lambda>n. map_option (\<lambda>b. Call_close_portal (bp_instance b) n) (bound_at portals n)" ps s]
    by auto
  define ss where "ss = hash_order ?U w1 (table_keys statements)"
  obtain w2 e2 where l2: "for_each (\<lambda>n. case map_option (\<lambda>i. Call_close_statement i n) (table_get statements n) of
        Some c \<Rightarrow> ignore_err (call_python ?U c) | None \<Rightarrow> ret ()) ss (s\<lparr>b_world := w1, b_trace := b_trace s @ e1\<rparr>) =
      (Inr (), s\<lparr>b_world := w2, b_trace := (b_trace s @ e1) @ e2\<rparr>)"
    and c2: "List.map_filter called e2 = close_statement_calls statements ss"
    unfolding close_statement_calls_def
    using for_each_ignored [of E "\<lambda>n. map_option (\<lambda>i. Call_close_statement i n) (table_get statements n)" ss
        "s\<lparr>b_world := w1, b_trace := b_trace s @ e1\<rparr>"] by auto
  obtain w3 e3 where l3: "(case session of Some i \<Rightarrow> close_session ?U i | None \<Rightarrow> ret ())
        (s\<lparr>b_world := w2, b_trace := (b_trace s @ e1) @ e2\<rparr>) =
      (Inr (), s\<lparr>b_world := w3, b_trace := ((b_trace s @ e1) @ e2) @ e3\<rparr>)"
    and c3: "session_calls E session (List.map_filter called e3)"
  proof (cases session)
    case None
    with that [of "[]" w2] show thesis by (simp add: ret_def List.map_filter_simps)
  next
    case (Some i)
    with that close_session_trace [of ?U i "s\<lparr>b_world := w2, b_trace := (b_trace s @ e1) @ e2\<rparr>"]
    show thesis by auto
  qed
  have case_map: "(case map_option g x of Some c \<Rightarrow> m c | None \<Rightarrow> k) = (case x of Some y \<Rightarrow> m (g y) | None \<Rightarrow> k)"
    for g :: "'x \<Rightarrow> py_call" and x and m :: "py_call \<Rightarrow> 'y" and k
    by (cases x) simp_all
  have "cleanup_entries ?U portals statements session s =
      (Inr (), s\<lparr>b_world := w3, b_trace := b_trace s @ (e1 @ e2 @ e3)\<rparr>)"
    using l1 l2 l3 unfolding cleanup_entries_def case_map ps_def ss_def
    by (simp add: bindE_def gets_def thenE_def)
  moreover have "List.map_filter called (e1 @ e2 @ e3) =
      close_calls portals ps @ close_statement_calls statements ss @ List.map_filter called e3"
    by (simp add: map_filter_append c1 c2)
  ultimately show ?thesis
    using c3 order dist unfolding ps_def ss_def by blast
qed

lemma close_calls_count:
  assumes "distinct names"
  shows "length (filter (close_of n) (close_calls portals names)) =
      (if n \<in> set names \<and> bound_at portals n \<noteq> None then 1 else 0)"
    and "filter (close_statement_of n) (close_calls portals names) = []"
    and "filter is_close (close_calls portals names) = []"
  using assms
  by (induction names) (auto simp: close_calls_def List.map_filter_simps split: option.split)

lemma close_statement_calls_count:
  assumes "distinct names"
  shows "length (filter (close_statement_of n) (close_statement_calls statements names)) =
      (if n \<in> set names \<and> table_get statements n \<noteq> None then 1 else 0)"
    and "filter (close_of n) (close_statement_calls statements names) = []"
    and "filter is_close (close_statement_calls statements names) = []"
  using assms
  by (induction names) (auto simp: close_statement_calls_def List.map_filter_simps split: option.split)

section \<open>The cleanup of a connection\<close>

lemma cleanup_trace:
  assumes "hash_order_ok E" and "table_ok (c_portals s)" and "table_ok (c_statements s)"
  shows "\<exists>w evs ps ss cs. cleanup E s =
      (Inr (), s\<lparr>c_portals := [], c_statements := [], c_session := None, b_world := w, b_trace := b_trace s @ evs\<rparr>) \<and>
    List.map_filter called evs = close_calls (c_portals s) ps @ close_statement_calls (c_statements s) ss @ cs \<and>
    distinct ps \<and> set ps = set (table_keys (c_portals s)) \<and>
    distinct ss \<and> set ss = set (table_keys (c_statements s)) \<and>
    session_calls E (c_session s) cs"
proof -
  let ?s = "s\<lparr>c_portals := [], c_statements := [], c_session := None\<rparr>"
  obtain w evs ps ss cs where c: "cleanup_entries (undisturbed E) (c_portals s) (c_statements s) (c_session s) ?s =
      (Inr (), ?s\<lparr>b_world := w, b_trace := b_trace ?s @ evs\<rparr>)"
    and r: "List.map_filter called evs = close_calls (c_portals s) ps @ close_statement_calls (c_statements s) ss @ cs"
      "distinct ps" "set ps = set (table_keys (c_portals s))" "distinct ss"
      "set ss = set (table_keys (c_statements s))" "session_calls E (c_session s) cs"
    using cleanup_entries_trace [OF assms, of "c_session s" ?s] by blast
  from c have "cleanup E s = (Inr (), s\<lparr>c_portals := [], c_statements := [], c_session := None,
      b_world := w, b_trace := b_trace s @ evs\<rparr>)"
    by (simp add: cleanup_def bindE_def gets_def thenE_def modify_def)
  with r show ?thesis by blast
qed

text \<open>How often the cleanup tries to close what is left.\<close>

lemma cleanup_attempts:
  assumes "hash_order_ok E" and "table_ok (c_portals s)" and "table_ok (c_statements s)"
  shows "\<exists>w evs. cleanup E s =
      (Inr (), s\<lparr>c_portals := [], c_statements := [], c_session := None, b_world := w, b_trace := b_trace s @ evs\<rparr>) \<and>
    (\<forall>n. attempts (close_of n) evs = (if bound_at (c_portals s) n \<noteq> None then 1 else 0)) \<and>
    (\<forall>n. attempts (close_statement_of n) evs = (if table_get (c_statements s) n \<noteq> None then 1 else 0)) \<and>
    attempts is_close evs \<le> (if c_session s = None then 0 else 1) \<and>
    ((\<forall>i w. fst (has_close E i w)) \<longrightarrow> attempts is_close evs = (if c_session s = None then 0 else 1))"
proof -
  obtain w evs ps ss cs where c: "cleanup E s =
      (Inr (), s\<lparr>c_portals := [], c_statements := [], c_session := None, b_world := w, b_trace := b_trace s @ evs\<rparr>)"
    and evs: "List.map_filter called evs = close_calls (c_portals s) ps @ close_statement_calls (c_statements s) ss @ cs"
    and d: "distinct ps" "set ps = set (table_keys (c_portals s))" "distinct ss"
      "set ss = set (table_keys (c_statements s))"
    and cs: "session_calls E (c_session s) cs"
    using cleanup_trace [OF assms] by blast
  have cs0: "filter (close_of n) cs = []" "filter (close_statement_of n) cs = []" for n
    using session_callsD [OF cs] by auto
  have key: "bound_at (c_portals s) n \<noteq> None \<Longrightarrow> n \<in> set ps" for n
    using d(2) by (auto simp: bound_at_def ht.keys_get bind_eq_Some_conv)
  have key': "table_get (c_statements s) n \<noteq> None \<Longrightarrow> n \<in> set ss" for n
    using d(4) by (simp add: ht.keys_get)
  have "attempts (close_of n) evs = (if bound_at (c_portals s) n \<noteq> None then 1 else 0)" for n
    using key [of n] cs0 d
    by (simp add: attempts_def evs close_calls_count close_statement_calls_count)
  moreover have "attempts (close_statement_of n) evs = (if table_get (c_statements s) n \<noteq> None then 1 else 0)" for n
    using key' [of n] cs0 d
    by (simp add: attempts_def evs close_calls_count close_statement_calls_count)
  moreover have "attempts is_close evs = length (filter is_close cs)"
    using d by (simp add: attempts_def evs close_calls_count close_statement_calls_count)
  then have "attempts is_close evs \<le> (if c_session s = None then 0 else 1)"
    using session_callsD [OF cs] by auto
  moreover have "attempts is_close evs = (if c_session s = None then 0 else 1)" if "\<forall>i w. fst (has_close E i w)"
    using \<open>attempts is_close evs = _\<close> cs that by (auto simp: session_calls_def split: option.splits)
  ultimately show ?thesis using c by blast
qed

end
