(* ===== verification/Server.thy ===== *)
theory Server
  imports Extended Cleanup
begin

text \<open>
  The simple query protocol of \<open>src/server.rs\<close> and the life of a connection: the requests a client
  can send, the steps between them that pgwire makes on its own, and what holds in every state a
  connection reaches from its start.
\<close>

section \<open>Simple queries\<close>

text \<open>\<open>do_query\<close> of the adapter: the session of the connection if it has one, else the handler the
  server was given (\<open>inner\<close>).\<close>

definition simple_do_query ::
  "'w py_env \<Rightarrow> 'st store_ops \<Rightarrow> pyobj \<Rightarrow> string \<Rightarrow> ('w, 'st, pg_response list) handler" where
  "simple_do_query E S inner query =
     bindE (gets c_ext_session) (\<lambda>session.
     bindE (case session of
              Some i \<Rightarrow> do_query_on E i query
            | None \<Rightarrow> do_query_on E inner query) (\<lambda>r.
     bindE (py_lift E r) (\<lambda>py_responses.
       (let responses = map (into_pg (types E)) py_responses
        in thenE (only_if (list_ex is_transaction_end responses) (close_all_portals E S))
                 (ret responses)))))"

text \<open>Keeping the result of a call that may fail with an error of pgwire, to return it later.\<close>

definition attempt :: "('s, failure, 'a) prog \<Rightarrow> ('s, failure, pgwire_error + 'a) prog" where
  "attempt m = (\<lambda>s.
     case m s of
       (Inr x, t) \<Rightarrow> (Inr (Inr x), t)
     | (Inl (Pg e), t) \<Rightarrow> (Inr (Inl e), t)
     | (Inl f, t) \<Rightarrow> (Inl f, t))"

text \<open>
  \<open>on_query\<close>. The default \<open>_on_query\<close> of pgwire, which runs \<open>do_query\<close> and sends its responses, is
  the parameter \<open>pg_on_query\<close>.
\<close>

type_synonym ('w, 'st) pg_on_query =
  "(string \<Rightarrow> ('w, 'st, pg_response list) handler) \<Rightarrow> string \<Rightarrow> ('w, 'st, unit) handler"

definition on_query ::
  "'w py_env \<Rightarrow> 'st store_ops \<Rightarrow> pyobj option \<Rightarrow> pyobj \<Rightarrow> ('w, 'st) pg_on_query \<Rightarrow> string \<Rightarrow> ('w, 'st, unit) handler" where
  "on_query E S inst inner pg_on_query query =
     bindE (gets c_state) (\<lambda>state.
       if state \<noteq> ReadyForQuery then throw (Pg NotReadyForQuery)
       else
         thenE (close_and_rm E S (st_default_name S))
        (thenE (close_statement E S inst (st_default_name S))
        (bindE (attempt (pg_on_query (simple_do_query E S inner) query)) (\<lambda>result.
         bindE (gets c_status) (\<lambda>status.
         thenE (only_if (status = Idle) (close_all_portals E S))
               (case result of Inl e \<Rightarrow> throw (Pg e) | Inr u \<Rightarrow> ret u))))))"

section \<open>The life of a connection\<close>

datatype request =
    Req_query string
  | Req_parse parse_msg
  | Req_bind bind_msg
  | Req_describe_statement stored_statement
  | Req_describe_portal pg_portal
  | Req_execute pg_portal nat
  | Req_sync
  | Req_close close_msg

definition discard :: "('s, 'e, 'a) prog \<Rightarrow> ('s, 'e, unit) prog" where
  "discard m = bindE m (\<lambda>_. ret ())"

definition handle ::
  "'w py_env \<Rightarrow> 'st store_ops \<Rightarrow> pyobj option \<Rightarrow> pyobj \<Rightarrow> ('w, 'st) pg_on_query \<Rightarrow> request \<Rightarrow> ('w, 'st, unit) handler" where
  "handle E S inst inner K req =
     (case req of
        Req_query q \<Rightarrow> on_query E S inst inner K q
      | Req_parse m \<Rightarrow> on_parse E S inst m
      | Req_bind m \<Rightarrow> on_bind E S inst m
      | Req_describe_statement v \<Rightarrow> discard (do_describe_statement E inst v)
      | Req_describe_portal p \<Rightarrow> discard (do_describe_portal E inst p)
      | Req_execute p n \<Rightarrow> discard (do_query E S inst p n)
      | Req_sync \<Rightarrow> on_sync E S
      | Req_close m \<Rightarrow> on_close E S inst m)"

text \<open>What pgwire does on its own: it sends messages, and polls the rows of a stream it was given.\<close>

fun pgwire_event :: "event \<Rightarrow> bool" where
  "pgwire_event (Ev_call (Call_anext _) _) \<longleftrightarrow> True"
| "pgwire_event (Ev_call _ _) \<longleftrightarrow> False"
| "pgwire_event (Ev_dropped (Call_anext _)) \<longleftrightarrow> True"
| "pgwire_event (Ev_dropped _) \<longleftrightarrow> False"
| "pgwire_event _ \<longleftrightarrow> True"

lemma pgwire_quiet: "list_all pgwire_event evs \<Longrightarrow> quiet evs"
proof (induction evs)
  case (Cons e evs)
  then show ?case by (cases e rule: pgwire_event.cases) (auto simp: quiet_def)
qed simp

text \<open>
  A step is a request handled to its end (with or without an error; after an error pgwire reports it
  and goes on), or work of pgwire that touches neither the resources nor the store.
\<close>

inductive conn_step ::
  "'w py_env \<Rightarrow> 'st store_ops \<Rightarrow> pyobj option \<Rightarrow> pyobj \<Rightarrow> ('w, 'st) pg_on_query \<Rightarrow>
   ('w, 'st) conn \<Rightarrow> ('w, 'st) conn \<Rightarrow> bool"
  for E S inst inner K where
  handled: "handle E S inst inner K req s = (r, t) \<Longrightarrow> conn_step E S inst inner K s t"
| pgwire: "list_all pgwire_event evs \<Longrightarrow>
    conn_step E S inst inner K s
      (s\<lparr>b_world := w, b_trace := b_trace s @ evs, c_state := cs, c_status := ts\<rparr>)"

inductive_cases conn_stepE: "conn_step E S inst inner K s t"

text \<open>A connection that has just started: the resources are installed and hold nothing.\<close>

definition started :: "'st store_ops \<Rightarrow> ('w, 'st) conn \<Rightarrow> bool" where
  "started S s \<longleftrightarrow>
     c_installed s \<and> \<not> b_held s \<and> c_portals s = [] \<and> c_statements s = [] \<and> quiet (b_trace s) \<and>
     (\<forall>n. st_get_statement S (c_store s) n = None \<and> st_get_portal S (c_store s) n = None)"

text \<open>What pgwire's \<open>_on_query\<close> may do: whatever \<open>do_query\<close> does, and work of its own that a
  \<open>pgwire\<close> step of a connection can do.\<close>

definition pgwire_keeps :: "(('w, 'st) conn \<Rightarrow> bool) \<Rightarrow> bool" where
  "pgwire_keeps P \<longleftrightarrow>
     (\<forall>s w evs cs ts. list_all pgwire_event evs \<longrightarrow> P s \<longrightarrow>
        P (s\<lparr>b_world := w, b_trace := b_trace s @ evs, c_state := cs, c_status := ts\<rparr>))"

definition pg_on_query_ok :: "('w, 'st) pg_on_query \<Rightarrow> bool" where
  "pg_on_query_ok K \<longleftrightarrow>
     (\<forall>P dq q. pgwire_keeps P \<longrightarrow> triple P (dq q) (\<lambda>_. P) (\<lambda>e s. P s \<and> clean e) \<longrightarrow>
        triple P (K dq q) (\<lambda>_. P) (\<lambda>e s. P s \<and> clean e))"

lemma conn_inv_pgwire: "pgwire_keeps (conn_inv S inst)"
  unfolding pgwire_keeps_def
proof (intro allI impI)
  fix s w evs cs ts
  assume "list_all pgwire_event evs" and "conn_inv S inst s"
  then have "conn_inv S inst (s\<lparr>b_world := w, b_trace := b_trace s @ evs\<rparr>)"
    by (intro conn_inv_quiet pgwire_quiet)
  with conn_inv_state [where s = "s\<lparr>b_world := w, b_trace := b_trace s @ evs\<rparr>" and cs = cs and ts = ts]
  show "conn_inv S inst (s\<lparr>b_world := w, b_trace := b_trace s @ evs, c_state := cs, c_status := ts\<rparr>)"
    by simp
qed

lemma started_inv: "started S s \<Longrightarrow> conn_inv S inst s"
  unfolding started_def conn_inv_def conn_defs quiet_def by (simp add: bound_at_def is_value_def)

lemma triple_attempt:
  assumes "triple P m (\<lambda>_. P) (\<lambda>e s. P s \<and> clean e)"
  shows "triple P (attempt m) (\<lambda>_. P) (\<lambda>e s. P s \<and> clean e)"
proof (rule triple_caseI)
  fix s assume P: "P s"
  obtain r t where m: "m s = (r, t)" by fastforce
  show "case attempt m s of (Inl e, t) \<Rightarrow> P t \<and> clean e | (Inr x, t) \<Rightarrow> P t"
  proof (cases r)
    case (Inl e)
    with triple_Inl [OF assms P] m have "P t" "clean e" by auto
    with m Inl show ?thesis by (cases e) (simp_all add: attempt_def)
  next
    case (Inr x)
    with triple_Inr [OF assms P] m show ?thesis by (simp add: attempt_def)
  qed
qed

context connection
begin

lemma py_await_runs:
  assumes "quiet [Ev_call c True]"
  shows "runs I (py_await E c) (\<lambda>_. I)"
proof (rule triple_caseI)
  fix s assume "I s"
  then have "I (s\<lparr>b_world := w, b_trace := b_trace s @ evs\<rparr>)" if "quiet evs" for w evs
    using that by (rule I_events)
  then show "case py_await E c s of (Inl e, t) \<Rightarrow> I t \<and> clean e | (Inr x, t) \<Rightarrow> I t"
    using assms by (auto simp: py_await_def log_event_def Let_def split: prod.split call_result.split)
qed

lemma do_query_on_runs: "runs I (do_query_on E i q) (\<lambda>_. I)"
  unfolding do_query_on_def
  by (intro triple_bindE [OF py_await_runs]) (auto intro: triple_ret split: call_result.split)

lemma simple_do_query_runs:
  "runs I (simple_do_query E S inner q) (\<lambda>rs s. I s \<and> (list_ex is_transaction_end rs \<longrightarrow> c_portals s = []))"
  (is "runs I _ ?Q")
proof -
  have one: "runs I (bindE (py_lift E r) (\<lambda>py_responses.
       thenE (only_if (list_ex is_transaction_end (map (into_pg (types E)) py_responses)) (close_all_portals E S))
                 (ret (map (into_pg (types E)) py_responses)))) ?Q" for r
    by (rule triple_bindE [OF runs_lift runs_weaken [OF finish_response_runs]]) auto
  have two: "runs I (case session of Some i \<Rightarrow> do_query_on E i q | None \<Rightarrow> do_query_on E inner q) (\<lambda>_. I)" for session
    by (auto intro: do_query_on_runs split: option.split)
  show ?thesis
    unfolding simple_do_query_def Let_def
    by (intro triple_bind_gets) (rule runs_weaken [OF triple_bindE [OF two one]], auto)
qed

lemma simple_do_query_I: "runs I (simple_do_query E S inner q) (\<lambda>_. I)"
  by (rule runs_weaken [OF simple_do_query_runs]) auto

end

locale serving = connection S E inst
  for S :: "'st store_ops" and E :: "'w py_env" and inst +
  fixes inner :: pyobj and K :: "('w, 'st) pg_on_query"
  assumes pg_on_query: "pg_on_query_ok K"
begin

lemma on_query_runs: "runs I (on_query E S inst inner K q) (\<lambda>_. I)"
proof -
  have K: "runs I (attempt (K (simple_do_query E S inner) q)) (\<lambda>_. I)"
    by (intro triple_attempt
        pg_on_query [unfolded pg_on_query_ok_def, rule_format, OF conn_inv_pgwire simple_do_query_I])
  have ret: "runs I (case result of Inl e \<Rightarrow> throw (Pg e) | Inr u \<Rightarrow> ret u) (\<lambda>_. I)" for result
    by (cases result) (auto intro!: triple_throw triple_ret)
  have fin: "runs I (thenE (only_if b (close_all_portals E S))
      (case result of Inl e \<Rightarrow> throw (Pg e) | Inr u \<Rightarrow> ret u)) (\<lambda>_. I)" for b result
    unfolding only_if_def
    by (intro triple_thenE [OF _ ret] triple_if triple_ret runs_weaken [OF close_all_I]) auto
  have "runs I (bindE (gets c_status) (\<lambda>status. thenE (only_if (status = Idle) (close_all_portals E S))
      (case result of Inl e \<Rightarrow> throw (Pg e) | Inr u \<Rightarrow> ret u))) (\<lambda>_. I)" for result
    by (rule triple_bind_gets) (rule runs_weaken [OF fin], auto)
  from triple_bindE [OF K this]
  have "runs I (thenE (close_and_rm E S (st_default_name S))
        (thenE (close_statement E S inst (st_default_name S))
        (bindE (attempt (K (simple_do_query E S inner) q)) (\<lambda>result.
         bindE (gets c_status) (\<lambda>status.
         thenE (only_if (status = Idle) (close_all_portals E S))
               (case result of Inl e \<Rightarrow> throw (Pg e) | Inr u \<Rightarrow> ret u)))))) (\<lambda>_. I)"
    by (intro triple_thenE [where M = I] runs_weaken [OF close_and_rm_I] runs_weaken [OF close_statement_runs]) auto
  then show ?thesis
    unfolding on_query_def
    by (intro triple_bind_gets triple_if runs_throw_Pg) (auto elim: runs_weaken)
qed

lemma discard_runs: "runs P m (\<lambda>_. Q) \<Longrightarrow> runs P (discard m) (\<lambda>_. Q)"
  unfolding discard_def by (rule triple_bindE) (auto intro: triple_ret)

lemma do_query_I: "runs I (do_query E S inst p n) (\<lambda>_. I)"
  by (rule runs_weaken [OF do_query_runs]) auto

lemma handle_runs: "runs I (handle E S inst inner K req) (\<lambda>_. I)"
  unfolding handle_def
  by (cases req)
    (simp_all add: on_query_runs on_parse_runs on_bind_runs on_close_runs discard_runs
      do_describe_statement_runs do_describe_portal_runs do_query_I on_sync_I)

lemma I_pgwire:
  fixes s :: "('w, 'st) conn"
  assumes "list_all pgwire_event evs" and "I s"
  shows "I (s\<lparr>b_world := w, b_trace := b_trace s @ evs, c_state := cs, c_status := ts\<rparr>)"
proof -
  have "pgwire_keeps (I :: ('w, 'st) conn \<Rightarrow> bool)" by (rule conn_inv_pgwire)
  with assms show ?thesis by (simp add: pgwire_keeps_def)
qed

lemma conn_step_inv: "conn_step E S inst inner K s t \<Longrightarrow> I s \<Longrightarrow> I t"
proof (induction rule: conn_step.induct)
  case (handled req s r t)
  then show ?case
    using handle_runs [of req] by (cases r) (auto dest: triple_Inl triple_Inr)
next
  case (pgwire evs s ts cs w)
  then show ?case by (intro I_pgwire)
qed

lemma reachable_inv:
  assumes "(conn_step E S inst inner K)\<^sup>*\<^sup>* s0 s" and "started S s0"
  shows "I s"
  using assms(1)
  by (induction rule: rtranclp_induct) (use assms(2) started_inv conn_step_inv in auto)

lemma handle_clean:
  assumes "I s" and "handle E S inst inner K req s = (Inl e, t)"
  shows "clean e"
  using triple_Inl [OF handle_runs assms] by simp

end

lemma serving_intro:
  "portal_store S \<Longrightarrow> hash_order_ok E \<Longrightarrow> pg_on_query_ok K \<Longrightarrow> serving S E K"
  by (simp add: serving_def serving_axioms_def connection_def connection_axioms_def)

section \<open>A running connection\<close>

text \<open>A session that is served from the in-memory store by an environment that answers every call,
  with one statement parsed and one portal bound to it.\<close>

definition sample_on_query :: "(nat, mem_store) pg_on_query" where
  "sample_on_query dq q = discard (dq q)"

lemma sample_on_query_ok: "pg_on_query_ok sample_on_query"
  unfolding pg_on_query_ok_def sample_on_query_def discard_def
  by (auto intro!: triple_bindE triple_ret)

interpretation mem: serving mem_ops sample_env inst inner sample_on_query for inst inner
  by unfold_locales (rule sample_on_query_ok)

definition sample_conn :: "(nat, mem_store) conn" where
  "sample_conn =
     \<lparr>b_world = 0, b_trace = [], b_held = False, c_state = ReadyForQuery, c_status = Idle, c_secure = False,
      c_login = \<lparr>pgl_user = Some ''bob'', pgl_database = None, pgl_host = ''h''\<rparr>,
      c_key = None, c_ext_session = Some 7, c_registered = None, c_scram = Done, c_installed = True, c_portals = [], c_statements = [], c_session = Some 7,
      c_store = \<lparr>ms_statements = (\<lambda>_. None), ms_portals = (\<lambda>_. None)\<rparr>\<rparr>"

lemma sample_started: "started mem_ops sample_conn"
  by (simp add: started_def sample_conn_def mem_ops_def)

definition sample_parse :: parse_msg where
  "sample_parse = \<lparr>pm_name = Some ''s'', pm_query = ''SELECT 1'', pm_type_oids = []\<rparr>"

definition sample_bind :: bind_msg where
  "sample_bind = \<lparr>bm_portal_name = Some ''p'', bm_statement_name = Some ''s'', bm_parameter_format_codes = [],
     bm_parameters = [], bm_result_column_format_codes = []\<rparr>"

abbreviation sample_handle :: "request \<Rightarrow> (nat, mem_store, unit) handler" where
  "sample_handle \<equiv> handle sample_env mem_ops None 5 sample_on_query"

definition sample_parsed :: "(nat, mem_store) conn" where
  "sample_parsed = snd (sample_handle (Req_parse sample_parse) sample_conn)"

definition sample_bound :: "(nat, mem_store) conn" where
  "sample_bound = snd (sample_handle (Req_bind sample_bind) sample_parsed)"

lemma sample_reach: "(conn_step sample_env mem_ops None 5 sample_on_query)\<^sup>*\<^sup>* sample_conn sample_bound"
proof -
  have step: "conn_step sample_env mem_ops None 5 sample_on_query s (snd (sample_handle req s))" for s req
    by (rule conn_step.handled [where r = "fst (sample_handle req s)"]) simp
  then show ?thesis
    unfolding sample_bound_def sample_parsed_def by (blast intro: rtranclp.rtrancl_into_rtrancl)
qed

lemma sample_parsed_eq:
  "sample_parsed = sample_conn\<lparr>
     b_trace := [Ev_call (Call_parse_statement 7 ''s'' ''SELECT 1'' []) True, Ev_send ParseComplete True],
     c_statements := [(''s'', 7)],
     c_store := st_put_statement mem_ops \<lparr>ss_id = ''s'', ss_statement = 1, ss_types = []\<rparr> (c_store sample_conn)\<rparr>"
  by (simp add: sample_parsed_def handle_def on_parse_def sample_parse_def name_or_default_def mem_ops_def
      sample_conn_def parse_and_store_def parse_statement_def instance_for_def call_def py_await_def
      sample_env_def log_event_def dropped_def send_def update_store_def prog_simps table_insert_def
      is_ascii_whitespace_def Let_def)

lemma sample_bound_eq:
  "sample_bound = sample_parsed\<lparr>
     b_trace := b_trace sample_parsed @
       [Ev_call (Call_bind_portal 7 ''p'' 1 [] [] []) True, Ev_send BindComplete True],
     c_portals := [(''p'', \<lparr>pe_statement_name = ''s'', pe_bound = Some \<lparr>bp_instance = 7, bp_portal = 1\<rparr>\<rparr>)],
     c_store := st_put_portal mem_ops
       \<lparr>po_name = ''p'', po_statement = \<lparr>ss_id = ''s'', ss_statement = 1, ss_types = []\<rparr>,
        po_parameter_format = UnifiedText, po_parameters = [], po_result_format = UnifiedText\<rparr>
       (st_rm_portal mem_ops ''p'' (c_store sample_parsed))\<rparr>"
  by (simp add: sample_bound_def sample_parsed_eq handle_def on_bind_def sample_bind_def name_or_default_def
      mem_ops_def sample_conn_def bind_value_def close_and_rm_def close_portal_def with_closing_def bound_at_def
      table_remove_def bind_portal_def insert_entry_def instance_for_def call_def py_await_def
      sample_env_def log_event_def dropped_def send_def update_store_def prog_simps table_insert_def Let_def format_of_def)

section \<open>Properties of a connection\<close>

text \<open>C5: Whatever requests a client sends, in whatever order, whether they succeed, fail or are dropped at
  an await by a shutdown, a cancel request or an abort: the invariant of the connection holds. The
  tables of the resources agree with pgwire's store, no portal outlives its statement, and the ledger
  of callbacks balances.\<close>

theorem connection_invariant:
  assumes "portal_store S" and "hash_order_ok E" and "pg_on_query_ok K" and "started S s0"
    and "(conn_step E S inst inner K)\<^sup>*\<^sup>* s0 s"
  shows "conn_inv S inst s"
  using serving.reachable_inv [OF serving_intro] assms by blast

lemma connection_invariant_witness: "conn_inv mem_ops None sample_bound"
  by (rule connection_invariant [OF mem.portal_store_axioms sample_order sample_on_query_ok sample_started sample_reach])

text \<open>C11: No request that a connection handles ends in a panic (an \<open>expect\<close> that fails) or waits for
  the lock \<open>closing\<close> while holding it.\<close>

theorem handlers_do_not_panic:
  assumes "portal_store S" and "hash_order_ok E" and "pg_on_query_ok K" and "started S s0"
    and "(conn_step E S inst inner K)\<^sup>*\<^sup>* s0 s"
  shows "fst (handle E S inst inner K req s) \<notin> {Inl Panic, Inl Deadlock}"
proof -
  have sv: "serving S E K" using assms(1-3) by (rule serving_intro)
  have "conn_inv S inst s" by (rule serving.reachable_inv [OF sv assms(5,4)])
  note clean = serving.handle_clean [OF sv this]
  show ?thesis
    by (cases "handle E S inst inner K req s") (auto dest: clean)
qed

lemma handlers_do_not_panic_witness:
  "fst (sample_handle Req_sync sample_bound) \<notin> {Inl Panic, Inl Deadlock}"
  by (rule handlers_do_not_panic [OF mem.portal_store_axioms sample_order sample_on_query_ok sample_started sample_reach])



end
