(* ===== verification/Requests.thy ===== *)
theory Requests
  imports Server
begin

text \<open>
  What single requests of the extended and the simple protocol do, on the state of a connection that
  keeps the invariant: which callbacks they make, what they leave behind when they succeed, and that
  a refused request changes nothing.
\<close>

section \<open>Bind\<close>

text \<open>How pgwire documents \<open>Portal::try_new\<close>: it takes the parameters and reads the format codes.\<close>

definition try_new_documented :: "'st store_ops \<Rightarrow> bool" where
  "try_new_documented S \<longleftrightarrow>
     (\<forall>m v p. st_try_new S m v = Inr p \<longrightarrow>
        po_parameters p = bm_parameters m \<and>
        po_parameter_format p = format_of (bm_parameter_format_codes m) \<and>
        po_result_format p = format_of (bm_result_column_format_codes m))"

lemma mem_try_new: "try_new_documented mem_ops"
  by (auto simp: try_new_documented_def mem_ops_def)

text \<open>The calls a Bind message may make.\<close>

fun bind_allowed :: "string \<Rightarrow> bind_msg \<Rightarrow> py_call \<Rightarrow> bool" where
  "bind_allowed name m (Call_bind_portal _ n _ ps pf rf) \<longleftrightarrow>
     n = name \<and> ps = bm_parameters m \<and> length pf = length ps \<and> set pf \<subseteq> {0, 1} \<and> set rf \<subseteq> {0, 1}"
| "bind_allowed name m (Call_close_portal _ n) \<longleftrightarrow> n = name"
| "bind_allowed name m _ \<longleftrightarrow> False"

lemma format_codes_of:
  assumes "length codes \<le> 1 \<or> length codes = n" and "set codes \<subseteq> {0, 1}"
  shows "length (format_codes (format_of codes) n) = n \<and> set (format_codes (format_of codes) n) \<subseteq> {0, 1}"
  using assms by (auto simp: format_of_def split: list.splits)

lemma result_format_codes_of:
  "set codes \<subseteq> {0, 1} \<Longrightarrow> set (result_format_codes (format_of codes)) \<subseteq> {0, 1}"
  by (auto simp: format_of_def split: list.splits)

lemma keeps_adds_update [keeps_rules]: "keeps (adds G tr) (update_store f)"
  unfolding update_store_def by (rule keeps_adds_modify) simp

lemma keeps_adds_close_portal:
  assumes "\<And>i. G (Call_close_portal i name)"
  shows "keeps (adds G tr) (close_and_rm E S name)"
  unfolding close_and_rm_def close_portal_def call_python_def
  by (intro keeps_rules keeps_adds_modify) (use assms in auto)

lemma keeps_adds_insert: "keeps (adds G tr) (insert_entry name e)"
  unfolding insert_entry_def by (intro keeps_rules keeps_adds_modify) simp

lemma bind_value_calls:
  assumes "try_new_documented S" and "portal_store S"
    and "length (bm_parameter_format_codes m) \<le> 1 \<or>
         length (bm_parameter_format_codes m) = length (bm_parameters m)"
    and "set (bm_parameter_format_codes m) \<subseteq> {0, 1}" and "set (bm_result_column_format_codes m) \<subseteq> {0, 1}"
  shows "keeps (adds (bind_allowed (name_or_default S (bm_portal_name m)) m) tr) (bind_value E S inst m v)"
proof (cases "st_try_new S m v")
  case (Inl e)
  then show ?thesis by (simp add: bind_value_def keeps_throw)
next
  case (Inr p)
  let ?name = "name_or_default S (bm_portal_name m)"
  have name: "po_name p = ?name"
    using portal_store.try_new_name [OF assms(2) Inr] by (simp add: name_or_default_def)
  have "keeps (adds (bind_allowed ?name m) tr) (bind_portal E i p)" for i
    using assms(1) Inr name format_codes_of [OF assms(3,4)] result_format_codes_of [OF assms(5)]
    unfolding bind_portal_def Let_def try_new_documented_def
    by (intro keeps_adds_call) auto
  then have "keeps (adds (bind_allowed ?name m) tr)
      (thenE (close_and_rm E S ?name) (bindE (bind_portal E i p) (\<lambda>q. thenE (insert_entry ?name (e q)) (update_store (st_put_portal S p)))))"
    for i e
    by (intro keeps_rules keeps_adds_close_portal keeps_adds_insert) auto
  with Inr show ?thesis
    unfolding bind_value_def not_configured_def by (simp add: Let_def keeps_rules)
qed



section \<open>Refused requests\<close>

text \<open>Why a Bind message is refused before anything happens, in the order of the checks.\<close>

definition bind_refused :: "'st store_ops \<Rightarrow> 'st \<Rightarrow> bind_msg \<Rightarrow> bool" where
  "bind_refused S st m \<longleftrightarrow>
     (name_or_default S (bm_portal_name m) \<noteq> st_default_name S \<and>
      st_get_portal S st (name_or_default S (bm_portal_name m)) \<noteq> None) \<or>
     (length (bm_parameter_format_codes m) > 1 \<and>
      length (bm_parameter_format_codes m) \<noteq> length (bm_parameters m)) \<or>
     \<not> set (bm_parameter_format_codes m @ bm_result_column_format_codes m) \<subseteq> {0, 1} \<or>
     st_get_statement S st (name_or_default S (bm_statement_name m)) = None"

lemma find_bad_code: "\<not> set codes \<subseteq> {0, 1 :: i16} \<Longrightarrow> \<exists>c. List.find (\<lambda>code. code \<noteq> 0 \<and> code \<noteq> 1) codes = Some c"
  by (induction codes) auto

text \<open>The SQLSTATE with which a request is refused.\<close>

definition sqlstate :: "failure \<Rightarrow> string option" where
  "sqlstate f = (case f of Pg (UserError info) \<Rightarrow> Some (ei_code info) | _ \<Rightarrow> None)"

lemma bind_refused_result:
  assumes "bind_refused S (c_store s) b"
  shows "\<exists>f. on_bind E S inst b s = (Inl f, s) \<and>
    (sqlstate f \<in> {Some ''42P03'', Some ''08P01''} \<or> (\<exists>n. f = Pg (StatementNotFound n)))"
proof -
  let ?codes = "bm_parameter_format_codes b @ bm_result_column_format_codes b"
  let ?dup = "name_or_default S (bm_portal_name b) \<noteq> st_default_name S \<and>
      st_get_portal S (c_store s) (name_or_default S (bm_portal_name b)) \<noteq> None"
  let ?count = "length (bm_parameter_format_codes b) > 1 \<and>
      length (bm_parameter_format_codes b) \<noteq> length (bm_parameters b)"
  note state = user_error_def sqlstate_def error_info_new_def
  show ?thesis
  proof (cases ?dup)
    case True
    then show ?thesis by (simp add: on_bind_def Let_def prog_simps state)
  next
    case dup: False
    show ?thesis
    proof (cases ?count)
      case True
      then show ?thesis
        by (simp only: on_bind_def Let_def bindE_def gets_def throw_def dup) (simp add: state)
    next
      case count: False
      show ?thesis
      proof (cases "List.find (\<lambda>code. code \<noteq> 0 \<and> code \<noteq> 1) ?codes")
        case (Some c)
        then show ?thesis
          by (simp only: on_bind_def Let_def bindE_def gets_def throw_def dup count) (simp add: state throw_def)
      next
        case None
        then have "set ?codes \<subseteq> {0, 1}" using find_bad_code [of ?codes] by fastforce
        with assms dup count
        have "st_get_statement S (c_store s) (name_or_default S (bm_statement_name b)) = None"
          unfolding bind_refused_def by argo
        with None show ?thesis
          by (simp only: on_bind_def Let_def bindE_def gets_def throw_def dup count) (simp add: prog_simps state)
      qed
    qed
  qed
qed

text \<open>C18: A refused request calls nothing, sends nothing and changes nothing, in any state of a
  connection: a Bind that names an existing portal, has a wrong number of format codes or a code
  other than 0 and 1, or names an unknown statement; a Parse of a named statement that exists; and a
  simple query while the connection is not ready for one. The errors are those of the protocol.\<close>

theorem refused_requests_change_nothing:
  "(bind_refused S (c_store s) b \<longrightarrow>
      (\<exists>f. on_bind E S inst b s = (Inl f, s) \<and>
           (sqlstate f \<in> {Some ''42P03'', Some ''08P01''} \<or> (\<exists>n. f = Pg (StatementNotFound n))))) \<and>
   (\<forall>n. pm_name p = Some n \<and> n \<noteq> st_default_name S \<and> st_get_statement S (c_store s) n \<noteq> None \<longrightarrow>
      (\<exists>f. on_parse E S inst p s = (Inl f, s) \<and> sqlstate f = Some ''42P05'')) \<and>
   (c_state s \<noteq> ReadyForQuery \<longrightarrow> on_query E S inst inner K q s = (Inl (Pg NotReadyForQuery), s))"
proof (intro conjI impI allI)
  assume "bind_refused S (c_store s) b"
  then show "\<exists>f. on_bind E S inst b s = (Inl f, s) \<and>
      (sqlstate f \<in> {Some ''42P03'', Some ''08P01''} \<or> (\<exists>n. f = Pg (StatementNotFound n)))"
    by (rule bind_refused_result)
next
  fix n
  assume "pm_name p = Some n \<and> n \<noteq> st_default_name S \<and> st_get_statement S (c_store s) n \<noteq> None"
  then show "\<exists>f. on_parse E S inst p s = (Inl f, s) \<and> sqlstate f = Some ''42P05''"
    by (auto simp: on_parse_def name_or_default_def Let_def prog_simps user_error_def sqlstate_def error_info_new_def)
next
  assume "c_state s \<noteq> ReadyForQuery"
  then show "on_query E S inst inner K q s = (Inl (Pg NotReadyForQuery), s)"
    by (simp add: on_query_def prog_simps)
qed

lemma refused_requests_change_nothing_witness:
  "\<exists>f. on_bind sample_env mem_ops None (sample_bind\<lparr>bm_parameter_format_codes := [7]\<rparr>) sample_parsed =
     (Inl f, sample_parsed)"
proof -
  have "bind_refused mem_ops (c_store sample_parsed) (sample_bind\<lparr>bm_parameter_format_codes := [7]\<rparr>)"
    by (simp add: bind_refused_def)
  with refused_requests_change_nothing [of mem_ops sample_parsed
      "sample_bind\<lparr>bm_parameter_format_codes := [7]\<rparr>" sample_env None sample_parse 5 sample_on_query "''''"]
  show ?thesis by blast
qed

section \<open>Sync, Close and the end of a transaction\<close>

lemma connection_intro: "portal_store S \<Longrightarrow> hash_order_ok E \<Longrightarrow> connection S E"
  by (simp add: connection_def connection_axioms_def)

lemma no_portals_left:
  "conn_inv S inst s \<Longrightarrow> c_portals s = [] \<Longrightarrow> st_get_portal S (c_store s) n = None"
  using portals_synced_None [of S s n] by (simp add: conn_inv_def)


lemma sample_inv: "conn_inv mem_ops None sample_bound"
  by (rule mem.reachable_inv [OF sample_reach sample_started])

lemma sample_sync: "fst (on_sync sample_env mem_ops sample_bound) = Inr ()"
  by (simp add: sample_bound_eq sample_parsed_eq sample_conn_def on_sync_def close_all_portals_def
      close_and_rm_def close_portal_def with_closing_def bound_at_def call_python_def call_def py_await_def
      sample_env_def mem_ops_def log_event_def dropped_def send_def flush_def update_store_def prog_simps Let_def
      table_keys_def table_get_def)



definition sample_close :: close_msg where
  "sample_close = \<lparr>cm_target_type = TARGET_TYPE_BYTE_STATEMENT, cm_name = Some ''s''\<rparr>"

lemma sample_close_result: "fst (on_close sample_env mem_ops None sample_close sample_bound) = Inr ()"
  by (simp add: sample_close_def sample_bound_eq sample_parsed_eq sample_conn_def on_close_def name_or_default_def
      close_statement_def portals_of_def drop_statement_def is_value_def instance_for_def
      close_and_rm_def close_portal_def with_closing_def bound_at_def call_python_def call_def py_await_def
      sample_env_def mem_ops_def log_event_def dropped_def send_def update_store_def prog_simps Let_def
      table_keys_def table_get_def)



text \<open>The sample environment, with a Python side whose response ends the transaction.\<close>

definition ending_env :: "nat py_env" where
  "ending_env = sample_env\<lparr>x_response := (\<lambda>_. Inr (Resp_Execution ''COMMIT'' None None (Some End)))\<rparr>"

definition sample_portal :: pg_portal where
  "sample_portal =
     \<lparr>po_name = ''p'', po_statement = \<lparr>ss_id = ''s'', ss_statement = 1, ss_types = []\<rparr>,
      po_parameter_format = UnifiedText, po_parameters = [], po_result_format = UnifiedText\<rparr>"

lemma ending_result:
  "\<exists>t. do_query ending_env mem_ops None sample_portal 0 sample_bound =
     (Inr (TransactionEnd \<lparr>tag_command = ''COMMIT'', tag_oid = None, tag_rows = None\<rparr>), t)"
  by (simp add: ending_env_def sample_portal_def sample_bound_eq sample_parsed_eq sample_conn_def
      do_query_def instance_for_def portal_for_def bound_at_def close_all_portals_def is_transaction_end_def
      close_and_rm_def close_portal_def with_closing_def call_python_def call_def py_await_def py_lift_def
      sample_env_def mem_ops_def log_event_def dropped_def update_store_def prog_simps Let_def
      table_keys_def table_get_def)


section \<open>Closing is all or nothing\<close>

text \<open>A task that holds the lock is dropped at an await only when it is aborted.\<close>

lemma call_python_held:
  assumes "call_python E c s = (r, t)" and "b_held s"
  obtains (ok) w where "r = Inr ()" "t = s\<lparr>b_world := w, b_trace := b_trace s @ [Ev_call c True]\<rparr>"
  | (err) w x where "r = Inl (Pg x)" "t = s\<lparr>b_world := w, b_trace := b_trace s @ [Ev_call c False]\<rparr>"
  | (torn) w where "r = Inl Dropped" "aborting E w" "t = s\<lparr>b_world := w, b_trace := b_trace s @ [Ev_dropped c]\<rparr>"
proof -
  obtain cr w where d: "do_call E c (b_world s) = (cr, w)" by fastforce
  show thesis
    using assms d ok [of w] err [of _ w] torn [of w]
    by (cases cr) (auto simp: call_python_def call_def py_await_def py_fail_def dropped_def log_event_def
        prog_simps Let_def split: if_splits)
qed

text \<open>The outcome of a close: done (with the events of its callback), not begun, or refused by the
  callback; \<open>gone\<close> says that the entry was removed, \<open>kept\<close> that nothing changed. Only where tasks can
  be aborted may the callback be abandoned, and then the entry stays.\<close>

definition all_or_nothing ::
  "bool \<Rightarrow> failure + unit \<Rightarrow> event list \<Rightarrow> py_call option \<Rightarrow> bool \<Rightarrow> bool \<Rightarrow> bool" where
  "all_or_nothing aborts r evs callback gone kept \<longleftrightarrow>
     r = Inr () \<and> gone \<and> evs = (case callback of None \<Rightarrow> [] | Some c \<Rightarrow> [Ev_call c True]) \<or>
     r = Inl Dropped \<and> kept \<and> evs = [] \<or>
     (\<exists>x c. r = Inl (Pg x) \<and> kept \<and> callback = Some c \<and> evs = [Ev_call c False]) \<or>
     (\<exists>c. aborts \<and> r = Inl Dropped \<and> kept \<and> callback = Some c \<and> evs = [Ev_dropped c])"

lemma close_portal_outcome:
  assumes "c_installed s" and "\<not> b_held s"
  shows "\<exists>evs. b_trace (snd (close_portal E n s)) = b_trace s @ evs \<and>
      all_or_nothing (\<exists>w. aborting E w) (fst (close_portal E n s)) evs
        (map_option (\<lambda>b. Call_close_portal (bp_instance b) n) (bound_at (c_portals s) n))
        (c_portals (snd (close_portal E n s)) = table_remove n (c_portals s))
        (c_portals (snd (close_portal E n s)) = c_portals s)"
proof (cases "dropped E s")
  case True
  with assms show ?thesis
    by (intro exI [of _ "[]"]) (simp add: close_portal_def with_closing_def all_or_nothing_def prog_simps)
next
  case nd: False
  show ?thesis
  proof (cases "bound_at (c_portals s) n")
    case None
    with assms nd show ?thesis
      by (intro exI [of _ "[]"]) (simp add: close_portal_def with_closing_def all_or_nothing_def prog_simps)
  next
    case (Some b)
    let ?c = "Call_close_portal (bp_instance b) n"
    obtain r u where c: "call_python E ?c (s\<lparr>b_held := True\<rparr>) = (r, u)" by fastforce
    moreover have "b_held (s\<lparr>b_held := True\<rparr>)" by simp
    ultimately show ?thesis
    proof (cases rule: call_python_held)
      case (ok w)
      with assms nd Some c show ?thesis
        by (intro exI [of _ "[Ev_call ?c True]"])
          (simp add: close_portal_def with_closing_def all_or_nothing_def prog_simps)
    next
      case (err w x)
      with assms nd Some c show ?thesis
        by (intro exI [of _ "[Ev_call ?c False]"])
          (simp add: close_portal_def with_closing_def all_or_nothing_def prog_simps)
    next
      case (torn w)
      with assms nd Some c show ?thesis
        by (intro exI [of _ "[Ev_dropped ?c]"])
          (auto simp: close_portal_def with_closing_def all_or_nothing_def prog_simps)
    qed
  qed
qed

lemma drop_statement_outcome:
  assumes "\<not> b_held s"
  shows "\<exists>evs. b_trace (snd (drop_statement E S inst n s)) = b_trace s @ evs \<and>
      all_or_nothing (\<exists>w. aborting E w) (fst (drop_statement E S inst n s)) evs
        (if is_value (st_get_statement S (c_store s) n)
         then map_option (\<lambda>i. Call_close_statement i n) (instance_for inst s) else None)
        (c_statements (snd (drop_statement E S inst n s)) = table_remove n (c_statements s) \<and>
         c_store (snd (drop_statement E S inst n s)) = st_rm_statement S n (c_store s))
        (c_statements (snd (drop_statement E S inst n s)) = c_statements s \<and>
         c_store (snd (drop_statement E S inst n s)) = c_store s)"
proof (cases "dropped E s")
  case True
  with assms show ?thesis
    by (intro exI [of _ "[]"]) (simp add: drop_statement_def with_closing_def all_or_nothing_def prog_simps)
next
  case nd: False
  have inst: "instance_for inst (s\<lparr>b_held := True\<rparr>) = instance_for inst s" by (simp add: instance_for_def)
  show ?thesis
  proof (cases "if is_value (st_get_statement S (c_store s) n) then instance_for inst s else None")
    case None
    with assms nd inst show ?thesis
      by (intro exI [of _ "[]"])
        (auto simp: drop_statement_def with_closing_def all_or_nothing_def update_store_def prog_simps split: if_splits)
  next
    case (Some i)
    let ?c = "Call_close_statement i n"
    obtain r u where c: "call_python E ?c (s\<lparr>b_held := True\<rparr>) = (r, u)" by fastforce
    moreover have "b_held (s\<lparr>b_held := True\<rparr>)" by simp
    ultimately show ?thesis
    proof (cases rule: call_python_held)
      case (ok w)
      with assms nd Some inst c show ?thesis
        by (intro exI [of _ "[Ev_call ?c True]"])
          (simp add: drop_statement_def with_closing_def all_or_nothing_def update_store_def prog_simps split: if_splits)
    next
      case (err w x)
      with assms nd Some inst c show ?thesis
        by (intro exI [of _ "[Ev_call ?c False]"])
          (simp add: drop_statement_def with_closing_def all_or_nothing_def update_store_def prog_simps split: if_splits)
    next
      case (torn w)
      with assms nd Some inst c show ?thesis
        by (intro exI [of _ "[Ev_dropped ?c]"])
          (auto simp: drop_statement_def with_closing_def all_or_nothing_def update_store_def prog_simps split: if_splits)
    qed
  qed
qed

text \<open>C12: Closing is all or nothing, also under a shutdown: the callback that closes a portal or a statement
  and the removal of its entry are never separated. Either the task was dropped before the callback
  was dispatched, or the callback ran to its end; the entry is gone exactly when it succeeded (or
  there was nothing to call), and a shutdown never abandons a close callback half way. Only a task
  that is aborted can be dropped inside the callback; then the entry stays for the cleanup.\<close>

theorem closing_is_atomic:
  assumes "c_installed s" and "\<not> b_held s"
  shows "(\<exists>evs. b_trace (snd (close_portal E n s)) = b_trace s @ evs \<and>
      all_or_nothing (\<exists>w. aborting E w) (fst (close_portal E n s)) evs
        (map_option (\<lambda>b. Call_close_portal (bp_instance b) n) (bound_at (c_portals s) n))
        (c_portals (snd (close_portal E n s)) = table_remove n (c_portals s))
        (c_portals (snd (close_portal E n s)) = c_portals s)) \<and>
    (\<exists>evs. b_trace (snd (drop_statement E S inst n s)) = b_trace s @ evs \<and>
      all_or_nothing (\<exists>w. aborting E w) (fst (drop_statement E S inst n s)) evs
        (if is_value (st_get_statement S (c_store s) n)
         then map_option (\<lambda>i. Call_close_statement i n) (instance_for inst s) else None)
        (c_statements (snd (drop_statement E S inst n s)) = table_remove n (c_statements s) \<and>
         c_store (snd (drop_statement E S inst n s)) = st_rm_statement S n (c_store s))
        (c_statements (snd (drop_statement E S inst n s)) = c_statements s \<and>
         c_store (snd (drop_statement E S inst n s)) = c_store s))"
  using close_portal_outcome [OF assms] drop_statement_outcome [OF assms(2)] by blast

lemma sample_not_aborting: "\<not> aborting sample_env w"
  by (simp add: sample_env_def)

lemma closing_is_atomic_witness:
  "\<exists>evs. b_trace (snd (close_portal sample_env ''p'' sample_bound)) = b_trace sample_bound @ evs \<and>
     evs \<in> {[], [Ev_call (Call_close_portal 7 ''p'') True], [Ev_call (Call_close_portal 7 ''p'') False]}"
proof -
  have i: "c_installed sample_bound" and h: "\<not> b_held sample_bound"
    and b: "bound_at (c_portals sample_bound) ''p'' = Some \<lparr>bp_instance = 7, bp_portal = 1\<rparr>"
    by (simp_all add: sample_bound_eq sample_parsed_eq sample_conn_def bound_at_def table_get_def)
  from closing_is_atomic [OF i h, THEN conjunct1, of sample_env "''p''"] b show ?thesis
    using sample_not_aborting by (auto simp: all_or_nothing_def)
qed

end
