(* ===== verification/Messages.thy ===== *)
theory Messages
  imports Bridge
begin

text \<open>
  \<open>src/messages.rs\<close>: the Python classes of the message codec. Each class converts to a message of
  pgwire and back; the wire format itself is pgwire's, so a message type comes with a \<open>codec\<close>, the
  pair of \<open>Message::encode\<close> into an empty buffer and \<open>Message::decode\<close>.
\<close>

section \<open>Codecs\<close>

record 'm codec =
  cd_encode :: "'m \<Rightarrow> pgwire_error + bytes"
  cd_decode :: "bytes \<Rightarrow> pgwire_error + 'm option"

definition encode_to_pybytes :: "py_runtime \<Rightarrow> 'm codec \<Rightarrow> 'm \<Rightarrow> py_err + bytes" where
  "encode_to_pybytes r C msg =
     (case cd_encode C msg of Inl e \<Rightarrow> Inl (pywire_to_py_err r e) | Inr buf \<Rightarrow> Inr buf)"

definition decode_from_slice :: "py_runtime \<Rightarrow> 'm codec \<Rightarrow> bytes \<Rightarrow> py_err + 'm" where
  "decode_from_slice r C data =
     (case cd_decode C data of
        Inl e \<Rightarrow> Inl (pywire_to_py_err r e)
      | Inr (Some msg) \<Rightarrow> Inr msg
      | Inr None \<Rightarrow>
          Inl (New_err Py_ValueError ''incomplete message: input bytes are shorter than the declared length''))"

section \<open>The classes\<close>

subsection \<open>TransactionStatus\<close>

datatype py_transaction_status = Py_Idle | Py_Transaction | Py_Error

fun py_status_of_pg :: "transaction_status \<Rightarrow> py_transaction_status" where
  "py_status_of_pg Idle = Py_Idle"
| "py_status_of_pg Transaction = Py_Transaction"
| "py_status_of_pg Failed = Py_Error"

fun pg_status_of_py :: "py_transaction_status \<Rightarrow> transaction_status" where
  "pg_status_of_py Py_Idle = Idle"
| "pg_status_of_py Py_Transaction = Transaction"
| "pg_status_of_py Py_Error = Failed"

fun status_name :: "py_transaction_status \<Rightarrow> string" where
  "status_name Py_Idle = ''Idle''"
| "status_name Py_Transaction = ''Transaction''"
| "status_name Py_Error = ''Error''"

subsection \<open>Startup\<close>

text \<open>A \<open>BTreeMap<String, String>\<close> is the list of its entries in the order of the keys.\<close>

type_synonym parameters = "(string \<times> string) list"

record pg_startup =
  pgs_major :: u16
  pgs_minor :: u16
  pgs_parameters :: parameters

record py_startup =
  su_major :: u16
  su_minor :: u16
  su_parameters :: parameters

definition startup_new :: "u16 option \<Rightarrow> u16 option \<Rightarrow> parameters option \<Rightarrow> py_startup" where
  "startup_new major minor parameters =
     \<lparr>su_major = (case major of None \<Rightarrow> 3 | Some m \<Rightarrow> m),
      su_minor = (case minor of None \<Rightarrow> 0 | Some m \<Rightarrow> m),
      su_parameters = (case parameters of None \<Rightarrow> [] | Some p \<Rightarrow> p)\<rparr>"

text \<open>pgwire's constructor takes no fields; \<open>fresh\<close> is what it returns, before the assignments.\<close>

definition pg_startup_of_py :: "pg_startup \<Rightarrow> py_startup \<Rightarrow> pg_startup" where
  "pg_startup_of_py fresh m =
     (let s = fresh;
          s = s\<lparr>pgs_major := su_major m\<rparr>;
          s = s\<lparr>pgs_minor := su_minor m\<rparr>;
          s = s\<lparr>pgs_parameters := su_parameters m\<rparr>
      in s)"

definition py_startup_of_pg :: "pg_startup \<Rightarrow> py_startup" where
  "py_startup_of_pg s =
     \<lparr>su_major = pgs_major s, su_minor = pgs_minor s, su_parameters = pgs_parameters s\<rparr>"

definition startup_encode :: "py_runtime \<Rightarrow> pg_startup codec \<Rightarrow> pg_startup \<Rightarrow> py_startup \<Rightarrow> py_err + bytes" where
  "startup_encode r C fresh m = encode_to_pybytes r C (pg_startup_of_py fresh m)"

definition startup_decode :: "py_runtime \<Rightarrow> pg_startup codec \<Rightarrow> bytes \<Rightarrow> py_err + py_startup" where
  "startup_decode r C data = map_sum id py_startup_of_pg (decode_from_slice r C data)"

fun comma_sep :: "string list \<Rightarrow> string" where
  "comma_sep [] = []"
| "comma_sep [x] = x"
| "comma_sep (x # y # ys) = x @ '', '' @ comma_sep (y # ys)"

definition startup_repr :: "(nat \<Rightarrow> bool) \<Rightarrow> py_startup \<Rightarrow> string" where
  "startup_repr esc m =
     ''Startup(protocol_number_major='' @ show_nat (unat (su_major m)) @
     '', protocol_number_minor='' @ show_nat (unat (su_minor m)) @
     '', parameters={'' @ comma_sep (map (\<lambda>(k, v). debug_str esc k @ '': '' @ debug_str esc v) (su_parameters m)) @
     ''})''"

subsection \<open>Query\<close>

record pg_query = pgq_query :: string
record py_query = qy_query :: string

definition query_new :: "string \<Rightarrow> py_query" where
  "query_new q = \<lparr>qy_query = q\<rparr>"

definition query_encode :: "py_runtime \<Rightarrow> pg_query codec \<Rightarrow> py_query \<Rightarrow> py_err + bytes" where
  "query_encode r C m = encode_to_pybytes r C \<lparr>pgq_query = qy_query m\<rparr>"

definition query_decode :: "py_runtime \<Rightarrow> pg_query codec \<Rightarrow> bytes \<Rightarrow> py_err + py_query" where
  "query_decode r C data = map_sum id (\<lambda>q. \<lparr>qy_query = pgq_query q\<rparr>) (decode_from_slice r C data)"

definition query_repr :: "(nat \<Rightarrow> bool) \<Rightarrow> py_query \<Rightarrow> string" where
  "query_repr esc m = ''Query(query='' @ debug_str esc (qy_query m) @ '')''"

subsection \<open>Terminate\<close>

datatype pg_terminate = PgTerminate
datatype py_terminate = Terminate

definition terminate_encode :: "py_runtime \<Rightarrow> pg_terminate codec \<Rightarrow> py_terminate \<Rightarrow> py_err + bytes" where
  "terminate_encode r C m = encode_to_pybytes r C PgTerminate"

definition terminate_decode :: "py_runtime \<Rightarrow> pg_terminate codec \<Rightarrow> bytes \<Rightarrow> py_err + py_terminate" where
  "terminate_decode r C data = map_sum id (\<lambda>_. Terminate) (decode_from_slice r C data)"

definition terminate_repr :: "py_terminate \<Rightarrow> string" where
  "terminate_repr m = ''Terminate()''"

subsection \<open>ReadyForQuery\<close>

record pg_ready_for_query = pgr_status :: transaction_status
record py_ready_for_query = rq_status :: py_transaction_status

definition ready_for_query_new :: "py_transaction_status \<Rightarrow> py_ready_for_query" where
  "ready_for_query_new status = \<lparr>rq_status = status\<rparr>"

definition ready_for_query_encode ::
  "py_runtime \<Rightarrow> pg_ready_for_query codec \<Rightarrow> py_ready_for_query \<Rightarrow> py_err + bytes" where
  "ready_for_query_encode r C m = encode_to_pybytes r C \<lparr>pgr_status = pg_status_of_py (rq_status m)\<rparr>"

definition ready_for_query_decode ::
  "py_runtime \<Rightarrow> pg_ready_for_query codec \<Rightarrow> bytes \<Rightarrow> py_err + py_ready_for_query" where
  "ready_for_query_decode r C data =
     map_sum id (\<lambda>m. \<lparr>rq_status = py_status_of_pg (pgr_status m)\<rparr>) (decode_from_slice r C data)"

definition ready_for_query_repr :: "py_ready_for_query \<Rightarrow> string" where
  "ready_for_query_repr m = ''ReadyForQuery(status='' @ status_name (rq_status m) @ '')''"

subsection \<open>CommandComplete\<close>

record pg_command_complete = pgc_tag :: string
record py_command_complete = cc_tag :: string

definition command_complete_new :: "string \<Rightarrow> py_command_complete" where
  "command_complete_new tag = \<lparr>cc_tag = tag\<rparr>"

definition command_complete_encode ::
  "py_runtime \<Rightarrow> pg_command_complete codec \<Rightarrow> py_command_complete \<Rightarrow> py_err + bytes" where
  "command_complete_encode r C m = encode_to_pybytes r C \<lparr>pgc_tag = cc_tag m\<rparr>"

definition command_complete_decode ::
  "py_runtime \<Rightarrow> pg_command_complete codec \<Rightarrow> bytes \<Rightarrow> py_err + py_command_complete" where
  "command_complete_decode r C data = map_sum id (\<lambda>c. \<lparr>cc_tag = pgc_tag c\<rparr>) (decode_from_slice r C data)"

definition command_complete_repr :: "(nat \<Rightarrow> bool) \<Rightarrow> py_command_complete \<Rightarrow> string" where
  "command_complete_repr esc m = ''CommandComplete(tag='' @ debug_str esc (cc_tag m) @ '')''"

subsection \<open>FieldDescription and RowDescription\<close>

record pg_field_description =
  pgd_name :: string
  pgd_table_id :: i32
  pgd_column_id :: i16
  pgd_type_id :: u32
  pgd_type_size :: i16
  pgd_type_modifier :: i32
  pgd_format_code :: i16

record py_field_description =
  fd_name :: string
  fd_table_id :: i32
  fd_column_id :: i16
  fd_type_id :: u32
  fd_type_size :: i16
  fd_type_modifier :: i32
  fd_format_code :: i16

definition field_description_new ::
  "string \<Rightarrow> i32 option \<Rightarrow> i16 option \<Rightarrow> u32 option \<Rightarrow> i16 option \<Rightarrow> i32 option \<Rightarrow> i16 option \<Rightarrow> py_field_description" where
  "field_description_new name table_id column_id type_id type_size type_modifier format_code =
     \<lparr>fd_name = name,
      fd_table_id = (case table_id of None \<Rightarrow> 0 | Some x \<Rightarrow> x),
      fd_column_id = (case column_id of None \<Rightarrow> 0 | Some x \<Rightarrow> x),
      fd_type_id = (case type_id of None \<Rightarrow> 0 | Some x \<Rightarrow> x),
      fd_type_size = (case type_size of None \<Rightarrow> 0 | Some x \<Rightarrow> x),
      fd_type_modifier = (case type_modifier of None \<Rightarrow> 0 | Some x \<Rightarrow> x),
      fd_format_code = (case format_code of None \<Rightarrow> 0 | Some x \<Rightarrow> x)\<rparr>"

definition field_description_repr :: "(nat \<Rightarrow> bool) \<Rightarrow> py_field_description \<Rightarrow> string" where
  "field_description_repr esc f =
     ''FieldDescription(name='' @ debug_str esc (fd_name f) @ '', type_id='' @ show_u32 (fd_type_id f) @
     '', format_code='' @ show_i16 (fd_format_code f) @ '')''"

definition pg_field_description_of_py :: "py_field_description \<Rightarrow> pg_field_description" where
  "pg_field_description_of_py f =
     \<lparr>pgd_name = fd_name f, pgd_table_id = fd_table_id f, pgd_column_id = fd_column_id f,
      pgd_type_id = fd_type_id f, pgd_type_size = fd_type_size f,
      pgd_type_modifier = fd_type_modifier f, pgd_format_code = fd_format_code f\<rparr>"

definition py_field_description_of_pg :: "pg_field_description \<Rightarrow> py_field_description" where
  "py_field_description_of_pg f =
     \<lparr>fd_name = pgd_name f, fd_table_id = pgd_table_id f, fd_column_id = pgd_column_id f,
      fd_type_id = pgd_type_id f, fd_type_size = pgd_type_size f,
      fd_type_modifier = pgd_type_modifier f, fd_format_code = pgd_format_code f\<rparr>"

record pg_row_description = pgrd_fields :: "pg_field_description list"
record py_row_description = rd_fields :: "py_field_description list"

definition row_description_new :: "py_field_description list option \<Rightarrow> py_row_description" where
  "row_description_new fs = \<lparr>rd_fields = (case fs of None \<Rightarrow> [] | Some l \<Rightarrow> l)\<rparr>"

definition row_description_encode ::
  "py_runtime \<Rightarrow> pg_row_description codec \<Rightarrow> py_row_description \<Rightarrow> py_err + bytes" where
  "row_description_encode r C m =
     encode_to_pybytes r C \<lparr>pgrd_fields = map pg_field_description_of_py (rd_fields m)\<rparr>"

definition row_description_decode ::
  "py_runtime \<Rightarrow> pg_row_description codec \<Rightarrow> bytes \<Rightarrow> py_err + py_row_description" where
  "row_description_decode r C data =
     map_sum id (\<lambda>m. \<lparr>rd_fields = map py_field_description_of_pg (pgrd_fields m)\<rparr>) (decode_from_slice r C data)"

definition row_description_repr :: "(nat \<Rightarrow> bool) \<Rightarrow> py_row_description \<Rightarrow> string" where
  "row_description_repr esc m =
     ''RowDescription(fields=['' @ comma_sep (map (field_description_repr esc) (rd_fields m)) @ ''])''"

subsection \<open>DataRow\<close>

text \<open>pgwire's \<open>DataRow\<close> is the record of the theory Query.\<close>

record py_data_row =
  pdr_field_count :: i16
  pdr_data :: bytes

definition data_row_new :: "i16 \<Rightarrow> bytes \<Rightarrow> py_data_row" where
  "data_row_new field_count data = \<lparr>pdr_field_count = field_count, pdr_data = data\<rparr>"

definition data_row_data :: "py_data_row \<Rightarrow> bytes" where
  "data_row_data m = pdr_data m"

definition data_row_encode :: "py_runtime \<Rightarrow> pg_data_row codec \<Rightarrow> py_data_row \<Rightarrow> py_err + bytes" where
  "data_row_encode r C m =
     encode_to_pybytes r C \<lparr>dr_data = pdr_data m, dr_field_count = pdr_field_count m\<rparr>"

definition data_row_decode :: "py_runtime \<Rightarrow> pg_data_row codec \<Rightarrow> bytes \<Rightarrow> py_err + py_data_row" where
  "data_row_decode r C data =
     map_sum id (\<lambda>d. \<lparr>pdr_field_count = dr_field_count d, pdr_data = dr_data d\<rparr>) (decode_from_slice r C data)"

definition data_row_repr :: "py_data_row \<Rightarrow> string" where
  "data_row_repr m =
     ''DataRow(field_count='' @ show_i16 (pdr_field_count m) @ '', data=<'' @
     show_nat (length (pdr_data m)) @ '' bytes>)''"

subsection \<open>ErrorResponse\<close>

record pg_error_response = pge_fields :: "(u8 \<times> string) list"
record py_error_response = er_fields :: "(u8 \<times> string) list"

definition error_response_new :: "(u8 \<times> string) list option \<Rightarrow> py_error_response" where
  "error_response_new fs = \<lparr>er_fields = (case fs of None \<Rightarrow> [] | Some l \<Rightarrow> l)\<rparr>"

definition error_response_encode ::
  "py_runtime \<Rightarrow> pg_error_response codec \<Rightarrow> py_error_response \<Rightarrow> py_err + bytes" where
  "error_response_encode r C m = encode_to_pybytes r C \<lparr>pge_fields = er_fields m\<rparr>"

definition error_response_decode ::
  "py_runtime \<Rightarrow> pg_error_response codec \<Rightarrow> bytes \<Rightarrow> py_err + py_error_response" where
  "error_response_decode r C data = map_sum id (\<lambda>e. \<lparr>er_fields = pge_fields e\<rparr>) (decode_from_slice r C data)"

definition error_response_repr :: "py_error_response \<Rightarrow> string" where
  "error_response_repr m = ''ErrorResponse(field_count='' @ show_nat (length (er_fields m)) @ '')''"

subsection \<open>The module\<close>

datatype message_class =
    C_TransactionStatus | C_FieldDescription | C_Startup | C_Query | C_Terminate
  | C_ReadyForQuery | C_CommandComplete | C_RowDescription | C_DataRow | C_ErrorResponse

text \<open>The classes \<open>register\<close> adds to \<open>pywire.messages\<close>, in its order.\<close>

definition registered_messages :: "message_class list" where
  "registered_messages =
     [C_TransactionStatus, C_FieldDescription, C_Startup, C_Query, C_Terminate,
      C_ReadyForQuery, C_CommandComplete, C_RowDescription, C_DataRow, C_ErrorResponse]"

section \<open>The contract of a class\<close>

text \<open>
  A codec of pgwire decodes what it encoded. A class adds a conversion to pgwire's message and back;
  where the two are inverse, its \<open>encode\<close> and \<open>decode\<close> inherit the property.
\<close>

definition codec_inverts :: "'m codec \<Rightarrow> bool" where
  "codec_inverts C \<longleftrightarrow> (\<forall>m b. cd_encode C m = Inr b \<longrightarrow> cd_decode C b = Inr (Some m))"

locale py_message =
  fixes to_pg :: "'p \<Rightarrow> 'm" and of_pg :: "'m \<Rightarrow> 'p"
  assumes of_to: "of_pg (to_pg p) = p"
    and to_of: "to_pg (of_pg m) = m"
begin

lemma round_trip:
  "codec_inverts C \<Longrightarrow> encode_to_pybytes r C (to_pg p) = Inr b \<Longrightarrow>
   map_sum id of_pg (decode_from_slice r C b) = Inr p"
  by (auto simp: encode_to_pybytes_def decode_from_slice_def codec_inverts_def of_to split: sum.splits)

text \<open>Re-encoding what was decoded hands pgwire the very message it decoded.\<close>

lemma recode:
  assumes "map_sum id of_pg (decode_from_slice r C data) = Inr p"
  shows "\<exists>m. cd_decode C data = Inr (Some m) \<and> encode_to_pybytes r C (to_pg p) = encode_to_pybytes r C m"
  using assms by (auto simp: decode_from_slice_def to_of split: sum.splits option.splits)

end

interpretation startup: py_message "pg_startup_of_py fresh" py_startup_of_pg for fresh
  by unfold_locales (simp_all add: pg_startup_of_py_def py_startup_of_pg_def)

interpretation query: py_message "\<lambda>m. \<lparr>pgq_query = qy_query m\<rparr>" "\<lambda>q. \<lparr>qy_query = pgq_query q\<rparr>"
  by unfold_locales simp_all

interpretation terminate: py_message "\<lambda>_. PgTerminate" "\<lambda>_. Terminate"
proof unfold_locales
  show "Terminate = p" for p by (cases p) simp
  show "PgTerminate = m" for m by (cases m) simp
qed

lemma status_inverse [simp]: "py_status_of_pg (pg_status_of_py s) = s" "pg_status_of_py (py_status_of_pg t) = t"
  by (cases s; simp) (cases t; simp)

interpretation ready: py_message "\<lambda>m. \<lparr>pgr_status = pg_status_of_py (rq_status m)\<rparr>"
  "\<lambda>m. \<lparr>rq_status = py_status_of_pg (pgr_status m)\<rparr>"
  by unfold_locales simp_all

interpretation complete: py_message "\<lambda>m. \<lparr>pgc_tag = cc_tag m\<rparr>" "\<lambda>c. \<lparr>cc_tag = pgc_tag c\<rparr>"
  by unfold_locales simp_all

lemma field_description_inverse [simp]:
  "py_field_description_of_pg (pg_field_description_of_py f) = f"
  "pg_field_description_of_py (py_field_description_of_pg g) = g"
  by (simp_all add: py_field_description_of_pg_def pg_field_description_of_py_def)

interpretation row: py_message "\<lambda>m. \<lparr>pgrd_fields = map pg_field_description_of_py (rd_fields m)\<rparr>"
  "\<lambda>m. \<lparr>rd_fields = map py_field_description_of_pg (pgrd_fields m)\<rparr>"
  by unfold_locales (simp_all add: o_def)

interpretation data_row: py_message "\<lambda>m. \<lparr>dr_data = pdr_data m, dr_field_count = pdr_field_count m\<rparr>"
  "\<lambda>d. \<lparr>pdr_field_count = dr_field_count d, pdr_data = dr_data d\<rparr>"
  by unfold_locales simp_all

interpretation error_response: py_message "\<lambda>m. \<lparr>pge_fields = er_fields m\<rparr>" "\<lambda>e. \<lparr>er_fields = pge_fields e\<rparr>"
  by unfold_locales simp_all

section \<open>Properties\<close>

record codecs =
  k_startup :: "pg_startup codec"
  k_query :: "pg_query codec"
  k_terminate :: "pg_terminate codec"
  k_ready :: "pg_ready_for_query codec"
  k_complete :: "pg_command_complete codec"
  k_row :: "pg_row_description codec"
  k_data_row :: "pg_data_row codec"
  k_error :: "pg_error_response codec"

text \<open>pgwire documents of each of its messages that decoding a frame it encoded gives the message.\<close>

definition pgwire_codecs :: "codecs \<Rightarrow> bool" where
  "pgwire_codecs K \<longleftrightarrow>
     codec_inverts (k_startup K) \<and> codec_inverts (k_query K) \<and> codec_inverts (k_terminate K) \<and>
     codec_inverts (k_ready K) \<and> codec_inverts (k_complete K) \<and> codec_inverts (k_row K) \<and>
     codec_inverts (k_data_row K) \<and> codec_inverts (k_error K)"

lemmas encode_defs = startup_encode_def query_encode_def terminate_encode_def ready_for_query_encode_def
  command_complete_encode_def row_description_encode_def data_row_encode_def error_response_encode_def

lemmas decode_defs = startup_decode_def query_decode_def terminate_decode_def ready_for_query_decode_def
  command_complete_decode_def row_description_decode_def data_row_decode_def error_response_decode_def

lemmas class_round_trips = startup.round_trip query.round_trip terminate.round_trip ready.round_trip
  complete.round_trip row.round_trip data_row.round_trip error_response.round_trip


text \<open>The errors of pgwire that are protocol errors in the hierarchy of exceptions.\<close>

fun protocol_error :: "pgwire_error \<Rightarrow> bool" where
  "protocol_error (UnsupportedProtocolVersion _ _) \<longleftrightarrow> True"
| "protocol_error InvalidCancelRequest \<longleftrightarrow> True"
| "protocol_error InvalidSecretKey \<longleftrightarrow> True"
| "protocol_error (InvalidMessageType _) \<longleftrightarrow> True"
| "protocol_error (MessageTooLarge _ _) \<longleftrightarrow> True"
| "protocol_error (InvalidElementCount _ _ _) \<longleftrightarrow> True"
| "protocol_error (InvalidTargetType _) \<longleftrightarrow> True"
| "protocol_error (InvalidTransactionStatus _) \<longleftrightarrow> True"
| "protocol_error InvalidSSLRequestMessage \<longleftrightarrow> True"
| "protocol_error InvalidGssEncRequestMessage \<longleftrightarrow> True"
| "protocol_error InvalidStartupMessage \<longleftrightarrow> True"
| "protocol_error (InvalidAuthenticationMessageCode _) \<longleftrightarrow> True"
| "protocol_error NotReadyForQuery \<longleftrightarrow> True"
| "protocol_error (InvalidOptionValue _) \<longleftrightarrow> True"
| "protocol_error _ \<longleftrightarrow> False"

definition io_error :: "pgwire_error \<Rightarrow> bool" where
  "io_error e \<longleftrightarrow> (\<exists>io. e = IoError io)"

lemma raised_class:
  "\<exists>c m. pywire_to_py_err r err = New_err c m \<and> c \<noteq> Py_ValueError \<and> (c = Py_OSError \<longleftrightarrow> io_error err) \<and>
     (is_instance c Exc_Error \<longleftrightarrow> \<not> io_error err) \<and> (is_instance c Exc_ProtocolError \<longleftrightarrow> protocol_error err)"
  by (cases err) (simp_all add: pywire_to_py_err_def Let_def is_instance_def io_error_def numeral_eq_Suc)

text \<open>C32: What a failed \<open>decode\<close> raises. Bytes shorter than the declared length give a \<open>ValueError\<close>,
  which no handler for the errors of this package catches; a failure of pgwire's own gives an
  \<open>OSError\<close> exactly for an I/O error and otherwise a \<open>pywire.errors.Error\<close>, which is a
  \<open>ProtocolError\<close> exactly for the protocol errors.\<close>

theorem decode_failures:
  assumes "decode_from_slice r C data = Inl e"
  shows "\<exists>c m. e = New_err c m \<and>
    (c = Py_ValueError \<longleftrightarrow> cd_decode C data = Inr None) \<and>
    (c = Py_OSError \<longleftrightarrow> (\<exists>err. cd_decode C data = Inl err \<and> io_error err)) \<and>
    (is_instance c Exc_Error \<longleftrightarrow> (\<exists>err. cd_decode C data = Inl err \<and> \<not> io_error err)) \<and>
    (is_instance c Exc_ProtocolError \<longleftrightarrow> (\<exists>err. cd_decode C data = Inl err \<and> protocol_error err))"
proof (cases "cd_decode C data")
  case (Inl err)
  with assms have "e = pywire_to_py_err r err" by (simp add: decode_from_slice_def)
  with raised_class [of r err] Inl show ?thesis by auto
next
  case (Inr x)
  with assms have "cd_decode C data = Inr None" and
    "e = New_err Py_ValueError ''incomplete message: input bytes are shorter than the declared length''"
    by (auto simp: decode_from_slice_def split: option.splits)
  then show ?thesis by (simp add: is_instance_def numeral_eq_Suc)
qed

section \<open>Instances\<close>

text \<open>
  A codec that knows a single frame, for concrete inputs: it encodes one message, and reads that
  frame, anything shorter as incomplete and everything else as a message of another type.
\<close>

definition one_frame :: "'m \<Rightarrow> bytes \<Rightarrow> 'm codec" where
  "one_frame m0 b0 =
     \<lparr>cd_encode = (\<lambda>m. if m = m0 then Inr b0 else Inl (ApiError ''unknown message'')),
      cd_decode = (\<lambda>b. if b = b0 then Inr (Some m0)
                       else if length b < length b0 then Inr None
                       else Inl (InvalidMessageType (hd b)))\<rparr>"

lemma one_frame_inverts: "codec_inverts (one_frame m0 b0)"
  by (simp add: codec_inverts_def one_frame_def)

definition sample_codecs :: codecs where
  "sample_codecs =
     \<lparr>k_startup = one_frame \<lparr>pgs_major = 3, pgs_minor = 0, pgs_parameters = [(''user'', ''bob'')]\<rparr>
        ([0, 0, 0, 18, 0, 3, 0, 0] @ bytes_of_str ''user'' @ [0] @ bytes_of_str ''bob'' @ [0, 0]),
      k_query = one_frame \<lparr>pgq_query = ''SELECT 1''\<rparr> ([81, 0, 0, 0, 13] @ bytes_of_str ''SELECT 1'' @ [0]),
      k_terminate = one_frame PgTerminate [88, 0, 0, 0, 4],
      k_ready = one_frame \<lparr>pgr_status = Transaction\<rparr> [90, 0, 0, 0, 5, 84],
      k_complete = one_frame \<lparr>pgc_tag = ''SELECT 1''\<rparr> ([67, 0, 0, 0, 13] @ bytes_of_str ''SELECT 1'' @ [0]),
      k_row = one_frame \<lparr>pgrd_fields = []\<rparr> [84, 0, 0, 0, 6, 0, 0],
      k_data_row = one_frame \<lparr>dr_data = [], dr_field_count = 0\<rparr> [68, 0, 0, 0, 6, 0, 0],
      k_error = one_frame \<lparr>pge_fields = []\<rparr> [69, 0, 0, 0, 5, 0]\<rparr>"

lemma sample_codecs_ok: "pgwire_codecs sample_codecs"
  by (simp add: pgwire_codecs_def sample_codecs_def one_frame_inverts)


lemma decode_failures_witness:
  "\<exists>c m. decode_from_slice sample_runtime (k_query sample_codecs) [] = Inl (New_err c m) \<and>
     c = Py_ValueError \<and> \<not> is_instance c Exc_ProtocolError"
proof -
  have d: "cd_decode (k_query sample_codecs) [] = Inr None"
    by (simp add: sample_codecs_def one_frame_def)
  then have e: "decode_from_slice sample_runtime (k_query sample_codecs) [] = Inl (New_err Py_ValueError
      ''incomplete message: input bytes are shorter than the declared length'')"
    by (simp add: decode_from_slice_def)
  from decode_failures [OF e] d e show ?thesis by auto
qed

end
