(* ===== verification/Scram_Startup.thy ===== *)
theory Scram_Startup
  imports Portals Messages
begin

text \<open>
  The startup handler of \<open>src/scram_verifier.rs\<close>: the messages of a connection that authenticates
  against a stored verifier, and the Python session it opens (\<open>initialize_python_session\<close> of
  \<open>src/server.rs\<close>). What pgwire does in between (version negotiation, the parameters of the client,
  decoding the SASL messages, the end of the authentication) and the random numbers are the
  parameter \<open>startup_ops\<close>.
\<close>

section \<open>Parameters\<close>

record ('w, 'st) startup_ops =
  pg_negotiate :: "pg_startup \<Rightarrow> ('w, 'st, unit) handler"
  pg_save_parameters :: "pg_startup \<Rightarrow> pg_login_info \<Rightarrow> pg_login_info"
  pg_initial_response :: "bytes \<Rightarrow> pgwire_error + string \<times> bytes option"
  pg_response :: "bytes \<Rightarrow> pgwire_error + bytes"
  pg_pid :: "'w \<Rightarrow> (nat \<times> nat) \<times> 'w"
  random_nonce :: "'w \<Rightarrow> bytes \<times> 'w"
  pg_finish :: "('w, 'st, unit) handler"

text \<open>The messages of a client before it is authenticated: a startup message, a message of the
  password family (its undecoded bytes), or any other.\<close>

datatype frontend_msg = Startup_msg pg_startup | Password_msg bytes | Other_msg

definition lift_pg :: "pgwire_error + 'a \<Rightarrow> ('s, failure, 'a) prog" where
  "lift_pg r = (case r of Inl e \<Rightarrow> throw (Pg e) | Inr x \<Rightarrow> ret x)"

text \<open>A draw from the environment: the random nonce, the process id.\<close>

definition draw :: "('w \<Rightarrow> 'a \<times> 'w) \<Rightarrow> ('w, 'z, 'a) io" where
  "draw f = (\<lambda>s. case f (b_world s) of (x, w) \<Rightarrow> (Inr x, s\<lparr>b_world := w\<rparr>))"

section \<open>The Python session\<close>

definition initialize_python_session :: "'w py_env \<Rightarrow> pyobj \<Rightarrow> ('w, 'st, unit) handler" where
  "initialize_python_session E factory =
     bindE (gets (\<lambda>s. login_info_from_pg (c_login s))) (\<lambda>py_login.
     bindE (call E (Call_open factory py_login)) (\<lambda>instance.
     thenE (set_session instance)
           (modify (\<lambda>s. s\<lparr>c_ext_session := Some instance\<rparr>))))"

section \<open>The handler\<close>

record scram_config =
  vc_source :: pyobj
  vc_certificate :: "bytes option"
  vc_mock_secret :: bytes
  vc_mock_iterations :: u32

record scram_handler =
  sh_config :: scram_config
  sh_session_factory :: "pyobj option"

text \<open>The handler's \<open>state\<close> is the component \<open>c_scram\<close> of the connection, \<open>Initial\<close> at first.\<close>

definition scram_handler_new :: "scram_config \<Rightarrow> pyobj option \<Rightarrow> scram_handler" where
  "scram_handler_new config session_factory = \<lparr>sh_config = config, sh_session_factory = session_factory\<rparr>"

definition handler_certificate :: "scram_config \<Rightarrow> ('w, 'st) conn \<Rightarrow> bytes option" where
  "handler_certificate cfg s = (if c_secure s then vc_certificate cfg else None)"

definition take_state :: "('w, 'st, scram_state) handler" where
  "take_state = (\<lambda>s. (Inr (c_scram s), s\<lparr>c_scram := Done\<rparr>))"

definition lookup :: "'w py_env \<Rightarrow> scram_config \<Rightarrow> login_info \<Rightarrow> ('w, 'st, scram_verifier option) handler" where
  "lookup E cfg login =
     bindE (call E (Call_get_scram_verifier (vc_source cfg) login)) (\<lambda>result.
     py_lift E (x_verifier E result))"

text \<open>The checks of the client's first message, which ask nobody.\<close>

definition check_first :: "scram_config \<Rightarrow> ('w, 'st) conn \<Rightarrow> string \<Rightarrow> bytes option \<Rightarrow> pgwire_error + client_first \<times> bytes" where
  "check_first cfg s mechanism data =
     (case data of
        None \<Rightarrow> Inl (invalid ''empty SCRAM client-first-message'')
      | Some data \<Rightarrow>
     (case utf8 data of
        Inl e \<Rightarrow> Inl e
      | Inr text \<Rightarrow>
     (case client_first_parse text of
        Inl e \<Rightarrow> Inl e
      | Inr first \<Rightarrow>
     (case negotiate mechanism (cf_cbind_flag first) (handler_certificate cfg s) of
        Inl e \<Rightarrow> Inl e
      | Inr cbind_data \<Rightarrow> Inr (first, cbind_data)))))"

definition start ::
  "'w py_env \<Rightarrow> scram_prims \<Rightarrow> ('w, 'st) startup_ops \<Rightarrow> scram_config \<Rightarrow> string \<Rightarrow> bytes option \<Rightarrow>
   ('w, 'st, exchange) handler" where
  "start E P ops cfg mechanism data =
     bindE (gets (\<lambda>s. check_first cfg s mechanism data)) (\<lambda>checked.
     bindE (lift_pg checked) (\<lambda>(first, cbind_data).
     bindE (gets (\<lambda>s. login_info_from_pg (c_login s))) (\<lambda>login.
       (let user = (case li_user login of None \<Rightarrow> '''' | Some u \<Rightarrow> u)
        in bindE (lookup E cfg login) (\<lambda>found.
             (let (verifier, mock) =
                (case found of
                   Some verifier \<Rightarrow> (verifier, False)
                 | None \<Rightarrow> (mock_verifier P (vc_mock_secret cfg) user (vc_mock_iterations cfg), True))
              in bindE (draw (random_nonce ops)) (\<lambda>nonce.
                   ret (exchange_new P first cbind_data (sp_b64_encode P nonce) user verifier mock))))))))"

definition register_connection :: "('w, 'st, unit) handler" where
  "register_connection = modify (\<lambda>s. s\<lparr>c_registered := c_key s\<rparr>)"

text \<open>The three arms of \<open>on_startup\<close>.\<close>

definition scram_hello ::
  "'w py_env \<Rightarrow> ('w, 'st) startup_ops \<Rightarrow> scram_config \<Rightarrow> pg_startup \<Rightarrow> ('w, 'st, unit) handler" where
  "scram_hello E ops cfg startup =
     thenE (pg_negotiate ops startup)
    (thenE (modify (\<lambda>s. s\<lparr>c_login := pg_save_parameters ops startup (c_login s)\<rparr>))
    (thenE (modify (\<lambda>s. s\<lparr>c_state := AuthenticationInProgress\<rparr>))
    (bindE (gets (\<lambda>s. SCRAM_SHA_256_METHOD #
              (if handler_certificate cfg s \<noteq> None then [SCRAM_SHA_256_PLUS_METHOD] else []))) (\<lambda>mechanisms.
       send E (Auth_SASL mechanisms)))))"

definition scram_first ::
  "'w py_env \<Rightarrow> scram_prims \<Rightarrow> ('w, 'st) startup_ops \<Rightarrow> scram_config \<Rightarrow> bytes \<Rightarrow> ('w, 'st, unit) handler" where
  "scram_first E P ops cfg message =
     bindE (lift_pg (pg_initial_response ops message)) (\<lambda>(auth_method, data).
     bindE (start E P ops cfg auth_method data) (\<lambda>ex.
     thenE (modify (\<lambda>s. s\<lparr>c_scram := ServerFirstSent ex\<rparr>))
           (send E (Auth_SASLContinue (bytes_of_str (ex_server_first ex))))))"

definition session_part :: "'w py_env \<Rightarrow> pyobj option \<Rightarrow> ('w, 'st, unit) handler" where
  "session_part E session_factory =
     (case session_factory of
        Some factory \<Rightarrow> initialize_python_session E factory
      | None \<Rightarrow> ret ())"

definition publish :: "'w py_env \<Rightarrow> ('w, 'st) startup_ops \<Rightarrow> string \<Rightarrow> ('w, 'st, unit) handler" where
  "publish E ops final =
     thenE (send E (Auth_SASLFinal (bytes_of_str final)))
    (bindE (draw (pg_pid ops)) (\<lambda>key.
     thenE (modify (\<lambda>s. s\<lparr>c_key := Some key\<rparr>))
    (thenE register_connection
           (pg_finish ops))))"

definition scram_final ::
  "'w py_env \<Rightarrow> scram_prims \<Rightarrow> ('w, 'st) startup_ops \<Rightarrow> pyobj option \<Rightarrow> exchange \<Rightarrow> bytes \<Rightarrow> ('w, 'st, unit) handler" where
  "scram_final E P ops session_factory ex message =
     bindE (lift_pg (pg_response ops message)) (\<lambda>data.
     bindE (lift_pg (verify P ex data)) (\<lambda>final.
     thenE (session_part E session_factory)
           (publish E ops final)))"

definition scram_on_startup ::
  "'w py_env \<Rightarrow> scram_prims \<Rightarrow> ('w, 'st) startup_ops \<Rightarrow> scram_handler \<Rightarrow> frontend_msg \<Rightarrow> ('w, 'st, unit) handler" where
  "scram_on_startup E P ops H message =
     (case message of
        Startup_msg startup \<Rightarrow> scram_hello E ops (sh_config H) startup
      | Password_msg message \<Rightarrow>
          bindE take_state (\<lambda>state.
            case state of
              Initial \<Rightarrow> scram_first E P ops (sh_config H) message
            | ServerFirstSent ex \<Rightarrow> scram_final E P ops (sh_session_factory H) ex message
            | Done \<Rightarrow> throw (Pg InvalidSASLState))
      | Other_msg \<Rightarrow> ret ())"

section \<open>What pgwire does in between\<close>

text \<open>
  The version negotiation sends at most messages of its own and touches nothing else; the end of the
  authentication may also change the state of the connection, and leaves it ready for queries when
  it succeeds. Neither calls Python or sends a SASL message, and neither panics.
\<close>

fun own_event :: "event \<Rightarrow> bool" where
  "own_event (Ev_send (ReadyForQuery_msg _) ok) \<longleftrightarrow> True"
| "own_event (Ev_flush ok) \<longleftrightarrow> True"
| "own_event _ \<longleftrightarrow> False"

definition startup_ops_ok :: "('w, 'st) startup_ops \<Rightarrow> bool" where
  "startup_ops_ok ops \<longleftrightarrow>
     (\<forall>m s r t. pg_negotiate ops m s = (r, t) \<longrightarrow>
        (\<exists>w evs. t = s\<lparr>b_world := w, b_trace := b_trace s @ evs\<rparr> \<and> list_all own_event evs) \<and>
        (\<forall>e. r = Inl e \<longrightarrow> clean e)) \<and>
     (\<forall>s r t. pg_finish ops s = (r, t) \<longrightarrow>
        (\<exists>w evs cs ts. t = s\<lparr>b_world := w, b_trace := b_trace s @ evs, c_state := cs, c_status := ts\<rparr> \<and>
           list_all own_event evs \<and> (r = Inr () \<longrightarrow> cs = ReadyForQuery)) \<and>
        (\<forall>e. r = Inl e \<longrightarrow> clean e))"

section \<open>What each arm does\<close>

text \<open>The calls of a trace, finished or dropped, that satisfy a predicate.\<close>

definition made :: "(py_call \<Rightarrow> bool) \<Rightarrow> event list \<Rightarrow> nat" where
  "made Q tr = length [e \<leftarrow> tr. case e of Ev_call c _ \<Rightarrow> Q c | Ev_dropped c \<Rightarrow> Q c | _ \<Rightarrow> False]"

lemma made_simps [simp]:
  "made Q [] = 0"
  "made Q (Ev_call c ok # tr) = (if Q c then 1 else 0) + made Q tr"
  "made Q (Ev_dropped c # tr) = (if Q c then 1 else 0) + made Q tr"
  "made Q (Ev_send m ok # tr) = made Q tr"
  "made Q (Ev_flush ok # tr) = made Q tr"
  "made Q (a @ b) = made Q a + made Q b"
  by (simp_all add: made_def)

lemma made_own [simp]: "list_all own_event evs \<Longrightarrow> made Q evs = 0"
proof (induction evs)
  case (Cons e evs)
  then show ?case by (cases e) simp_all
qed simp

fun is_lookup :: "py_call \<Rightarrow> bool" where
  "is_lookup (Call_get_scram_verifier _ _) \<longleftrightarrow> True"
| "is_lookup _ \<longleftrightarrow> False"

fun is_open :: "py_call \<Rightarrow> bool" where
  "is_open (Call_open _ _) \<longleftrightarrow> True"
| "is_open _ \<longleftrightarrow> False"

text \<open>The server's final message was sent.\<close>

fun is_final :: "event \<Rightarrow> bool" where
  "is_final (Ev_send (Auth_SASLFinal _) ok) \<longleftrightarrow> ok"
| "is_final _ \<longleftrightarrow> False"

definition final_sent :: "event list \<Rightarrow> bool" where
  "final_sent tr \<longleftrightarrow> list_ex is_final tr"

lemma final_sent_simps [simp]:
  "\<not> final_sent []" "final_sent (e # tr) \<longleftrightarrow> is_final e \<or> final_sent tr"
  "final_sent (a @ b) \<longleftrightarrow> final_sent a \<or> final_sent b"
  by (auto simp: final_sent_def)

lemma final_sent_own [simp]: "list_all own_event evs \<Longrightarrow> \<not> final_sent evs"
proof (induction evs)
  case (Cons e evs)
  then show ?case by (cases e) (auto elim: is_final.elims)
qed simp

lemma call_event:
  assumes "call E c s = (r, t)"
  obtains w ev where "t = s\<lparr>b_world := w, b_trace := b_trace s @ [ev]\<rparr>"
    "(ev = Ev_call c True \<and> (\<exists>v. r = Inr v)) \<or> ((ev = Ev_call c False \<or> ev = Ev_dropped c) \<and> (\<exists>e. r = Inl e \<and> clean e))"
proof -
  obtain cr w where d: "do_call E c (b_world s) = (cr, w)" by fastforce
  show thesis
    using assms d that [of "Ev_call c True" w] that [of "Ev_call c False" w] that [of "Ev_dropped c" w]
    by (cases cr) (auto simp: call_def py_await_def py_fail_def log_event_def prog_simps Let_def split: if_splits)
qed

lemma send_event:
  assumes "send E m s = (r, t)"
  obtains w evs where "t = s\<lparr>b_world := w, b_trace := b_trace s @ evs\<rparr>"
    "(evs = [Ev_send m True] \<and> r = Inr ()) \<or> ((evs = [] \<or> evs = [Ev_send m False]) \<and> (\<exists>e. r = Inl e \<and> clean e))"
proof -
  obtain sr w where d: "do_send E m (b_world s) = (sr, w)" by fastforce
  show thesis
    using assms d that [of "[Ev_send m True]" w] that [of "[Ev_send m False]" w] that [of "[]" w]
    by (cases sr) (auto simp: send_def log_event_def Let_def split: if_splits)
qed

text \<open>The exchanges the handler may start: a well-formed first message, a channel binding negotiated with
  this connection's certificate, and the verifier Python returned or else the mock one.\<close>

definition legit ::
  "'w py_env \<Rightarrow> scram_prims \<Rightarrow> scram_config \<Rightarrow> bool \<Rightarrow> exchange \<Rightarrow> bool" where
  "legit E P cfg secure ex \<longleftrightarrow>
     (\<exists>text first mechanism cbind nonce user v.
        client_first_parse text = Inr first \<and>
        negotiate mechanism (cf_cbind_flag first) (if secure then vc_certificate cfg else None) = Inr cbind \<and>
        ex = exchange_new P first cbind (sp_b64_encode P nonce) user v (ex_mock ex) \<and>
        (if ex_mock ex then v = mock_verifier P (vc_mock_secret cfg) user (vc_mock_iterations cfg)
         else (\<exists>result. x_verifier E result = Inr (Some v))))"

lemma check_first_Inr:
  "check_first cfg s mechanism data = Inr (first, cbind) \<longleftrightarrow>
   (\<exists>d text. data = Some d \<and> utf8 d = Inr text \<and> client_first_parse text = Inr first \<and>
      negotiate mechanism (cf_cbind_flag first) (handler_certificate cfg s) = Inr cbind)"
  by (auto simp: check_first_def split: option.splits sum.splits)

lemma lift_pg_simps [simp]:
  "lift_pg (Inl e) = throw (Pg e)" "lift_pg (Inr x) = ret x"
  by (simp_all add: lift_pg_def)

text \<open>A first message that fails a check is refused before Python is asked.\<close>

lemma start_refused:
  "check_first cfg s mechanism data = Inl e \<Longrightarrow> start E P ops cfg mechanism data s = (Inl (Pg e), s)"
  by (simp add: start_def prog_simps)

lemma lookup_out:
  assumes "lookup E cfg login s = (r, t)"
  obtains w ev where "t = s\<lparr>b_world := w, b_trace := b_trace s @ [ev]\<rparr>"
    "ev = Ev_dropped (Call_get_scram_verifier (vc_source cfg) login) \<or>
     ev = Ev_call (Call_get_scram_verifier (vc_source cfg) login) True \<or>
     ev = Ev_call (Call_get_scram_verifier (vc_source cfg) login) False"
    "\<forall>e. r = Inl e \<longrightarrow> clean e" "\<forall>v. r = Inr v \<longrightarrow> (\<exists>result. x_verifier E result = Inr v)"
proof -
  obtain cr u where c: "call E (Call_get_scram_verifier (vc_source cfg) login) s = (cr, u)" by fastforce
  from c obtain w ev where u: "u = s\<lparr>b_world := w, b_trace := b_trace s @ [ev]\<rparr>"
    and ev: "(ev = Ev_call (Call_get_scram_verifier (vc_source cfg) login) True \<and> (\<exists>v. cr = Inr v)) \<or>
      ((ev = Ev_call (Call_get_scram_verifier (vc_source cfg) login) False \<or>
        ev = Ev_dropped (Call_get_scram_verifier (vc_source cfg) login)) \<and> (\<exists>e. cr = Inl e \<and> clean e))"
    by (rule call_event)
  from assms c have r: "(case cr of Inl e \<Rightarrow> (Inl e, u) | Inr v \<Rightarrow> py_lift E (x_verifier E v) u) = (r, t)"
    by (simp add: lookup_def bindE_def split: sum.splits)
  show thesis
  proof (cases cr)
    case (Inl e)
    with r u ev that [of ev w] show thesis by auto
  next
    case (Inr v)
    with r u ev that [of ev w] show thesis
      by (cases "x_verifier E v") (auto simp: py_lift_def py_fail_def throw_def ret_def)
  qed
qed
lemma bindE_cases:
  assumes "bindE m f s = (r, t)"
  obtains (early) e where "m s = (Inl e, t)" "r = Inl e"
  | (go) x u where "m s = (Inr x, u)" "f x u = (r, t)"
  using assms by (auto simp: bindE_def split: prod.splits sum.splits)

lemma thenE_cases:
  assumes "thenE m n s = (r, t)"
  obtains (early) e where "m s = (Inl e, t)" "r = Inl e"
  | (go) x u where "m s = (Inr x, u)" "n u = (r, t)"
  using assms unfolding thenE_def by (rule bindE_cases)

lemma bindE_gets [simp]: "bindE (gets f) g s = g (f s) s"
  by (simp add: prog_simps)

lemma bindE_ret [simp]: "bindE (ret x) g s = g x s"
  by (simp add: prog_simps)

lemma bindE_throw [simp]: "bindE (throw e) g s = (Inl e, s)"
  by (simp add: prog_simps)

lemma thenE_ret [simp]: "thenE (ret x) n s = n s"
  by (simp add: prog_simps)

lemma thenE_modify [simp]: "thenE (modify f) n s = n (f s)"
  by (simp add: prog_simps)

lemma start_out:
  assumes "start E P ops cfg mechanism data s = (r, t)"
  obtains w evs where "t = s\<lparr>b_world := w, b_trace := b_trace s @ evs\<rparr>"
    "made is_lookup evs \<le> 1" "made is_open evs = 0" "\<not> final_sent evs" "\<forall>e. r = Inl e \<longrightarrow> clean e"
    "\<forall>ex. r = Inr ex \<longrightarrow> legit E P cfg (c_secure s) ex"
proof (cases "check_first cfg s mechanism data")
  case (Inl e)
  with start_refused [OF Inl] assms that [of "[]" "b_world s"] show thesis by auto
next
  case (Inr p)
  then obtain first cbind where p: "check_first cfg s mechanism data = Inr (first, cbind)"
    by (cases p) auto
  then obtain d m where first: "client_first_parse m = Inr first"
    and neg: "negotiate mechanism (cf_cbind_flag first) (if c_secure s then vc_certificate cfg else None) = Inr cbind"
    by (auto simp: check_first_Inr handler_certificate_def)
  let ?login = "login_info_from_pg (c_login s)"
  let ?user = "case li_user ?login of None \<Rightarrow> '''' | Some u \<Rightarrow> u"
  obtain lr u where l: "lookup E cfg ?login s = (lr, u)" by fastforce
  from l obtain w ev where u: "u = s\<lparr>b_world := w, b_trace := b_trace s @ [ev]\<rparr>"
    and ev: "ev = Ev_dropped (Call_get_scram_verifier (vc_source cfg) ?login) \<or>
      ev = Ev_call (Call_get_scram_verifier (vc_source cfg) ?login) True \<or>
      ev = Ev_call (Call_get_scram_verifier (vc_source cfg) ?login) False"
    and lr: "\<forall>e. lr = Inl e \<longrightarrow> clean e" "\<forall>v. lr = Inr v \<longrightarrow> (\<exists>result. x_verifier E result = Inr v)"
    by (rule lookup_out)
  from ev have evs: "made is_lookup [ev] \<le> 1" "made is_open [ev] = 0" "\<not> final_sent [ev]" by auto
  show thesis
  proof (cases lr)
    case (Inl e)
    with assms p l u evs lr that [of "[ev]" w] show thesis by (auto simp: start_def prog_simps Let_def)
  next
    case (Inr found)
    obtain nonce w' where dr: "random_nonce ops w = (nonce, w')" by fastforce
    define v where "v = (case found of Some v \<Rightarrow> v | None \<Rightarrow> mock_verifier P (vc_mock_secret cfg) ?user (vc_mock_iterations cfg))"
    define ex where "ex = exchange_new P first cbind (sp_b64_encode P nonce) ?user v (found = None)"
    have out: "start E P ops cfg mechanism data s = (Inr ex, s\<lparr>b_world := w', b_trace := b_trace s @ [ev]\<rparr>)"
      using p l u Inr dr
      by (cases found) (simp_all add: start_def draw_def prog_simps Let_def v_def ex_def)
    have "legit E P cfg (c_secure s) ex"
    proof -
      have "found = None \<or> (\<exists>result. x_verifier E result = Inr (Some v))"
        using lr(2) Inr by (cases found) (auto simp: v_def)
      then show ?thesis
        unfolding legit_def using first neg
        by (intro exI [of _ m] exI [of _ first] exI [of _ mechanism] exI [of _ cbind] exI [of _ nonce]
            exI [of _ ?user] exI [of _ v]) (auto simp: ex_def v_def)
    qed
    with out assms evs that [of "[ev]" w'] show thesis by auto
  qed
qed

lemma initialize_out:
  assumes "initialize_python_session E factory s = (r, t)"
  obtains (ok) w i where "r = Inr ()"
      "t = s\<lparr>b_world := w, b_trace := b_trace s @ [Ev_call (Call_open factory (login_info_from_pg (c_login s))) True],
            c_ext_session := Some i, c_session := Some i\<rparr>"
  | (err) w ev e where "r = Inl e" "clean e" "t = s\<lparr>b_world := w, b_trace := b_trace s @ [ev]\<rparr>"
      "ev = Ev_call (Call_open factory (login_info_from_pg (c_login s))) False \<or>
       ev = Ev_dropped (Call_open factory (login_info_from_pg (c_login s)))"
proof -
  let ?c = "Call_open factory (login_info_from_pg (c_login s))"
  obtain cr u where c: "call E ?c s = (cr, u)" by fastforce
  from c obtain w ev where u: "u = s\<lparr>b_world := w, b_trace := b_trace s @ [ev]\<rparr>"
    and ev: "(ev = Ev_call ?c True \<and> (\<exists>v. cr = Inr v)) \<or>
      ((ev = Ev_call ?c False \<or> ev = Ev_dropped ?c) \<and> (\<exists>e. cr = Inl e \<and> clean e))"
    by (rule call_event)
  show thesis
  proof (cases cr)
    case (Inl e)
    with assms c u ev err [of e ev w] show thesis
      by (auto simp: initialize_python_session_def prog_simps)
  next
    case (Inr v)
    with assms c u ev ok [of v w] show thesis
      by (auto simp: initialize_python_session_def set_session_def prog_simps)
  qed
qed
lemma publish_out:
  assumes ops: "startup_ops_ok ops" and p: "publish E ops final s = (r, t)"
  obtains evs where "c_scram t = c_scram s" "c_secure t = c_secure s" "c_ext_session t = c_ext_session s"
    "\<forall>e. r = Inl e \<longrightarrow> clean e" "b_trace t = b_trace s @ evs" "made is_lookup evs = 0" "made is_open evs = 0"
    "c_state t \<noteq> c_state s \<longrightarrow> final_sent evs"
    "r = Inr () \<longrightarrow> final_sent evs \<and> c_state t = ReadyForQuery \<and> c_registered t = c_key t \<and> c_key t \<noteq> None"
proof -
  obtain sr u where snd: "send E (Auth_SASLFinal (bytes_of_str final)) s = (sr, u)" by fastforce
  from snd obtain w evs where u: "u = s\<lparr>b_world := w, b_trace := b_trace s @ evs\<rparr>"
    and sr: "(evs = [Ev_send (Auth_SASLFinal (bytes_of_str final)) True] \<and> sr = Inr ()) \<or>
      ((evs = [] \<or> evs = [Ev_send (Auth_SASLFinal (bytes_of_str final)) False]) \<and> (\<exists>e. sr = Inl e \<and> clean e))"
    by (rule send_event)
  show thesis
  proof (cases sr)
    case (Inl e)
    with p snd have "t = u" "r = Inl e" by (simp_all add: publish_def prog_simps)
    with Inl sr u show ?thesis by (intro that [of evs]) auto
  next
    case (Inr x)
    with sr have evs: "evs = [Ev_send (Auth_SASLFinal (bytes_of_str final)) True]" by auto
    obtain key w' where key: "pg_pid ops w = (key, w')" by fastforce
    let ?v = "u\<lparr>b_world := w', c_key := Some key, c_registered := Some key\<rparr>"
    from p snd u key Inr have f: "pg_finish ops ?v = (r, t)"
      by (simp add: publish_def prog_simps draw_def register_connection_def)
    with ops obtain w2 evs2 cs ts where
      t: "t = ?v\<lparr>b_world := w2, b_trace := b_trace ?v @ evs2, c_state := cs, c_status := ts\<rparr>"
      and own: "list_all own_event evs2" and rd: "r = Inr () \<longrightarrow> cs = ReadyForQuery"
      and cl: "\<forall>e. r = Inl e \<longrightarrow> clean e"
      unfolding startup_ops_ok_def by metis
    show ?thesis
      using t u rd cl evs own by (intro that [of "evs @ evs2"]) simp_all
  qed
qed

lemma session_part_out:
  assumes "session_part E sf s = (r, t)"
  obtains evs where "c_scram t = c_scram s" "c_secure t = c_secure s" "c_state t = c_state s"
    "\<forall>e. r = Inl e \<longrightarrow> clean e" "b_trace t = b_trace s @ evs" "made is_lookup evs = 0"
    "made is_open evs = (if sf = None then 0 else 1)" "\<not> final_sent evs"
    "r = Inr () \<longrightarrow> sf \<noteq> None \<longrightarrow> c_ext_session t \<noteq> None"
proof (cases sf)
  case None
  with assms show ?thesis by (intro that [of "[]"]) (auto simp: session_part_def ret_def)
next
  case (Some factory)
  with assms have i: "initialize_python_session E factory s = (r, t)" by (simp add: session_part_def)
  from i show ?thesis
  proof (cases rule: initialize_out)
    case (ok w i)
    with Some show ?thesis
      by (intro that [of "[Ev_call (Call_open factory (login_info_from_pg (c_login s))) True]"]) simp_all
  next
    case (err w ev e)
    with Some show ?thesis by (intro that [of "[ev]"]) auto
  qed
qed

text \<open>What the last message of a client can lead to.\<close>

lemma scram_final_out:
  assumes ops: "startup_ops_ok ops" and f: "scram_final E P ops sf ex message s = (r, t)"
  obtains evs where "c_scram t = c_scram s" "c_secure t = c_secure s" "\<forall>e. r = Inl e \<longrightarrow> clean e"
    "b_trace t = b_trace s @ evs" "made is_lookup evs = 0" "made is_open evs \<le> (if sf = None then 0 else 1)"
    "c_state t \<noteq> c_state s \<longrightarrow> final_sent evs"
    "0 < made is_open evs \<or> final_sent evs \<longrightarrow> (\<exists>d out. verify P ex d = Inr out)"
    "final_sent evs \<longrightarrow> made is_open evs = (if sf = None then 0 else 1)"
    "r = Inr () \<longrightarrow> final_sent evs \<and> c_state t = ReadyForQuery \<and> c_registered t = c_key t \<and> c_key t \<noteq> None"
    "r = Inr () \<longrightarrow> sf \<noteq> None \<longrightarrow> c_ext_session t \<noteq> None"
proof (cases "\<exists>d final. pg_response ops message = Inr d \<and> verify P ex d = Inr final")
  case False
  then obtain e where "r = Inl (Pg e)" "t = s"
    using f by (cases "pg_response ops message"; cases "verify P ex (projr (pg_response ops message))")
      (auto simp: scram_final_def)
  then show ?thesis by (intro that [of "[]"]) auto
next
  case True
  then obtain d final where d: "pg_response ops message = Inr d" "verify P ex d = Inr final" by blast
  then have v: "\<exists>d out. verify P ex d = Inr out" by blast
  obtain sr u where sp: "session_part E sf s = (sr, u)" by fastforce
  from sp obtain e1 where
    u: "c_scram u = c_scram s" "c_secure u = c_secure s" "c_state u = c_state s"
      "\<forall>e. sr = Inl e \<longrightarrow> clean e" "b_trace u = b_trace s @ e1" "made is_lookup e1 = 0"
      "made is_open e1 = (if sf = None then 0 else 1)" "\<not> final_sent e1"
      "sr = Inr () \<longrightarrow> sf \<noteq> None \<longrightarrow> c_ext_session u \<noteq> None"
    by (rule session_part_out)
  show ?thesis
  proof (cases sr)
    case (Inl e)
    with f d sp have "r = Inl e" "t = u" by (simp_all add: scram_final_def prog_simps)
    with Inl u v show ?thesis by (intro that [of e1]) auto
  next
    case (Inr x)
    with f d sp have p: "publish E ops final u = (r, t)"
      by (simp add: scram_final_def prog_simps)
    from ops p obtain e2 where
      t: "c_scram t = c_scram u" "c_secure t = c_secure u" "c_ext_session t = c_ext_session u"
        "\<forall>e. r = Inl e \<longrightarrow> clean e" "b_trace t = b_trace u @ e2" "made is_lookup e2 = 0" "made is_open e2 = 0"
        "c_state t \<noteq> c_state u \<longrightarrow> final_sent e2"
        "r = Inr () \<longrightarrow> final_sent e2 \<and> c_state t = ReadyForQuery \<and> c_registered t = c_key t \<and> c_key t \<noteq> None"
      by (rule publish_out)
    show ?thesis
      using u t Inr v by (intro that [of "e1 @ e2"]) simp_all
  qed
qed
lemma scram_first_out:
  assumes f: "scram_first E P ops cfg message s = (r, t)"
  obtains evs where "c_secure t = c_secure s" "c_state t = c_state s" "\<forall>e. r = Inl e \<longrightarrow> clean e"
    "b_trace t = b_trace s @ evs" "made is_lookup evs \<le> 1" "made is_open evs = 0" "\<not> final_sent evs"
    "c_scram t = c_scram s \<or> (\<exists>ex. c_scram t = ServerFirstSent ex \<and> legit E P cfg (c_secure s) ex)"
proof (cases "pg_initial_response ops message")
  case (Inl e)
  with f have "r = Inl (Pg e)" "t = s" by (simp_all add: scram_first_def)
  then show ?thesis by (intro that [of "[]"]) auto
next
  case (Inr p)
  obtain mech data where p: "p = (mech, data)" by fastforce
  obtain sr u where st: "start E P ops cfg mech data s = (sr, u)" by fastforce
  from st obtain w evs where u: "u = s\<lparr>b_world := w, b_trace := b_trace s @ evs\<rparr>"
    and evs: "made is_lookup evs \<le> 1" "made is_open evs = 0" "\<not> final_sent evs"
    and sr: "\<forall>e. sr = Inl e \<longrightarrow> clean e" "\<forall>ex. sr = Inr ex \<longrightarrow> legit E P cfg (c_secure s) ex"
    by (rule start_out)
  show ?thesis
  proof (cases sr)
    case (Inl e)
    with f Inr p st have "r = Inl e" "t = u" by (simp_all add: scram_first_def prog_simps)
    with Inl u evs sr show ?thesis by (intro that [of evs]) auto
  next
    case (Inr ex)
    with f \<open>pg_initial_response ops message = Inr p\<close> p st
    have "send E (Auth_SASLContinue (bytes_of_str (ex_server_first ex))) (u\<lparr>c_scram := ServerFirstSent ex\<rparr>) = (r, t)"
      by (simp add: scram_first_def prog_simps)
    then obtain w' evs' where t: "t = u\<lparr>c_scram := ServerFirstSent ex, b_world := w', b_trace := b_trace u @ evs'\<rparr>"
      and evs': "(evs' = [Ev_send (Auth_SASLContinue (bytes_of_str (ex_server_first ex))) True] \<and> r = Inr ()) \<or>
        ((evs' = [] \<or> evs' = [Ev_send (Auth_SASLContinue (bytes_of_str (ex_server_first ex))) False]) \<and>
         (\<exists>e. r = Inl e \<and> clean e))"
      by (rule send_event) simp
    show ?thesis
      using t u evs evs' sr Inr by (intro that [of "evs @ evs'"]) auto
  qed
qed

lemma scram_hello_out:
  assumes ops: "startup_ops_ok ops" and h: "scram_hello E ops cfg startup s = (r, t)"
  obtains evs where "c_secure t = c_secure s" "c_state t = c_state s \<or> c_state t = AuthenticationInProgress"
    "\<forall>e. r = Inl e \<longrightarrow> clean e" "b_trace t = b_trace s @ evs" "made is_lookup evs = 0" "made is_open evs = 0"
    "\<not> final_sent evs" "c_scram t = c_scram s"
proof -
  obtain nr u where n: "pg_negotiate ops startup s = (nr, u)" by fastforce
  with ops obtain w evs where u: "u = s\<lparr>b_world := w, b_trace := b_trace s @ evs\<rparr>" and own: "list_all own_event evs"
    and nr: "\<forall>e. nr = Inl e \<longrightarrow> clean e"
    unfolding startup_ops_ok_def by metis
  show ?thesis
  proof (cases nr)
    case (Inl e)
    with h n have "r = Inl e" "t = u" by (simp_all add: scram_hello_def prog_simps)
    with u own nr Inl show ?thesis by (intro that [of evs]) auto
  next
    case (Inr x)
    let ?v = "u\<lparr>c_login := pg_save_parameters ops startup (c_login u), c_state := AuthenticationInProgress\<rparr>"
    from h n Inr obtain m where "send E (Auth_SASL m) ?v = (r, t)"
      by (auto simp: scram_hello_def prog_simps)
    then obtain w' evs' where t: "t = ?v\<lparr>b_world := w', b_trace := b_trace ?v @ evs'\<rparr>"
      and evs': "(evs' = [Ev_send (Auth_SASL m) True] \<and> r = Inr ()) \<or>
        ((evs' = [] \<or> evs' = [Ev_send (Auth_SASL m) False]) \<and> (\<exists>e. r = Inl e \<and> clean e))"
      by (rule send_event)
    show ?thesis
      using t u own evs' by (intro that [of "evs @ evs'"]) auto
  qed
qed

end
