(* ===== verification/Authentication.thy ===== *)
theory Authentication
  imports Scram_Startup
begin

text \<open>
  What the startup handler of \<open>src/scram_verifier.rs\<close> guarantees, whatever messages a client sends:
  its runs are runs of a small automaton (one attempt, a challenge, a checked proof), no session is
  opened and no connection becomes ready without a proof, and an honest client gets in.
\<close>

section \<open>The protocol as an automaton\<close>

text \<open>
  The specification: a connection waits for a first message, is challenged with a legitimate
  exchange, and is accepted only against a proof that checks under a verifier Python gave out. It
  has one attempt: from \<open>Refused\<close> and \<open>Accepted\<close> nothing leads on.
\<close>

datatype auth_phase = Waiting | Challenged exchange | Accepted | Refused

inductive auth_spec :: "scram_prims \<Rightarrow> (exchange \<Rightarrow> bool) \<Rightarrow> auth_phase \<Rightarrow> auth_phase \<Rightarrow> bool"
  for P L where
  stutter: "auth_spec P L p p"
| challenge: "L ex \<Longrightarrow> auth_spec P L Waiting (Challenged ex)"
| malformed: "auth_spec P L Waiting Refused"
| accept: "final_matches P ex m ext pf \<Longrightarrow> proof_checks P ex ext pf \<Longrightarrow> \<not> ex_mock ex \<Longrightarrow>
    auth_spec P L (Challenged ex) Accepted"
| refuse: "auth_spec P L (Challenged ex) Refused"

inductive_cases auth_specE: "auth_spec P L p q"

inductive_simps auth_spec_waiting: "auth_spec P L Waiting q"
inductive_simps auth_spec_challenged: "auth_spec P L (Challenged ex) q"
inductive_simps auth_spec_refused: "auth_spec P L Refused q"
inductive_simps auth_spec_accepted: "auth_spec P L Accepted q"

text \<open>The phase of a concrete connection.\<close>

definition auth_phase_of :: "('w, 'st) conn \<Rightarrow> auth_phase" where
  "auth_phase_of s =
     (case c_scram s of
        Initial \<Rightarrow> Waiting
      | ServerFirstSent ex \<Rightarrow> Challenged ex
      | Done \<Rightarrow> if final_sent (b_trace s) then Accepted else Refused)"

context scram_crypto
begin

lemma accepted_proof:
  assumes "verify P ex m = Inr out"
  shows "\<not> ex_mock ex \<and> (\<exists>ext pf. final_matches P ex m ext pf \<and> proof_checks P ex ext pf)"
proof -
  from assms obtain ext pf where fm: "final_matches P ex m ext pf" using verify_not_matching by blast
  from verify_matching [OF fm] assms have "proof_checks P ex ext pf \<and> \<not> ex_mock ex"
    by (auto split: if_splits)
  with fm show ?thesis by blast
qed

end

section \<open>Runs of the handler\<close>

inductive scram_step ::
  "'w py_env \<Rightarrow> scram_prims \<Rightarrow> ('w, 'st) startup_ops \<Rightarrow> scram_handler \<Rightarrow> ('w, 'st) conn \<Rightarrow> ('w, 'st) conn \<Rightarrow> bool"
  for E P ops H where
  message: "scram_on_startup E P ops H m s = (r, t) \<Longrightarrow> scram_step E P ops H s t"

text \<open>A connection that nobody has spoken on.\<close>

definition fresh :: "('w, 'st) conn \<Rightarrow> bool" where
  "fresh s \<longleftrightarrow> c_scram s = Initial \<and> b_trace s = [] \<and> c_state s \<noteq> ReadyForQuery"

text \<open>An exchange whose client proved knowledge of the key.\<close>

definition proved :: "scram_prims \<Rightarrow> exchange \<Rightarrow> bool" where
  "proved P ex \<longleftrightarrow> \<not> ex_mock ex \<and> (\<exists>m ext pf. final_matches P ex m ext pf \<and> proof_checks P ex ext pf)"

definition auth_inv ::
  "'w py_env \<Rightarrow> scram_prims \<Rightarrow> scram_handler \<Rightarrow> bool \<Rightarrow> ('w, 'st) conn \<Rightarrow> bool" where
  "auth_inv E P H secure s \<longleftrightarrow>
     c_secure s = secure \<and> made is_lookup (b_trace s) \<le> (if c_scram s = Initial then 0 else 1) \<and>
     made is_open (b_trace s) \<le> (if c_scram s = Done \<and> sh_session_factory H \<noteq> None then 1 else 0) \<and>
     (final_sent (b_trace s) \<longrightarrow> c_scram s = Done \<and> (sh_session_factory H = None \<or> made is_open (b_trace s) = 1)) \<and>
     (c_state s = ReadyForQuery \<longrightarrow> final_sent (b_trace s)) \<and>
     (\<forall>ex. c_scram s = ServerFirstSent ex \<longrightarrow> legit E P (sh_config H) secure ex) \<and>
     (0 < made is_open (b_trace s) \<or> final_sent (b_trace s) \<longrightarrow> (\<exists>ex. legit E P (sh_config H) secure ex \<and> proved P ex))"

lemma auth_inv_fresh: "fresh s \<Longrightarrow> auth_inv E P H (c_secure s) s"
  by (simp add: fresh_def auth_inv_def)

lemma scram_message:
  assumes P: "scram_crypto P" and ops: "startup_ops_ok ops" and inv: "auth_inv E P H secure s"
    and m: "scram_on_startup E P ops H msg s = (r, t)"
  shows "auth_inv E P H secure t \<and>
    auth_spec P (legit E P (sh_config H) secure) (auth_phase_of s) (auth_phase_of t) \<and>
    (\<forall>e. r = Inl e \<longrightarrow> clean e)"
proof (cases msg)
  case (Startup_msg startup)
  with m have "scram_hello E ops (sh_config H) startup s = (r, t)" by (simp add: scram_on_startup_def)
  with ops obtain evs where "c_secure t = c_secure s" "c_state t = c_state s \<or> c_state t = AuthenticationInProgress"
    "\<forall>e. r = Inl e \<longrightarrow> clean e" "b_trace t = b_trace s @ evs" "made is_lookup evs = 0" "made is_open evs = 0"
    "\<not> final_sent evs" "c_scram t = c_scram s"
    by (rule scram_hello_out)
  with inv show ?thesis by (auto simp: auth_inv_def auth_phase_of_def intro: auth_spec.stutter)
next
  case Other_msg
  with m inv show ?thesis by (auto simp: scram_on_startup_def ret_def intro: auth_spec.stutter)
next
  case (Password_msg d)
  let ?s = "s\<lparr>c_scram := Done\<rparr>"
  show ?thesis
  proof (cases "c_scram s")
    case Initial
    with m Password_msg have "scram_first E P ops (sh_config H) d ?s = (r, t)"
      by (simp add: scram_on_startup_def take_state_def bindE_def)
    then obtain evs where t: "c_secure t = c_secure ?s" "c_state t = c_state ?s" "\<forall>e. r = Inl e \<longrightarrow> clean e"
      "b_trace t = b_trace ?s @ evs" "made is_lookup evs \<le> 1" "made is_open evs = 0" "\<not> final_sent evs"
      "c_scram t = c_scram ?s \<or> (\<exists>ex. c_scram t = ServerFirstSent ex \<and> legit E P (sh_config H) (c_secure ?s) ex)"
      by (rule scram_first_out)
    from t(8) show ?thesis
    proof
      assume "c_scram t = c_scram ?s"
      with t Initial inv show ?thesis
        by (auto simp: auth_inv_def auth_phase_of_def intro: auth_spec.malformed)
    next
      assume "\<exists>ex. c_scram t = ServerFirstSent ex \<and> legit E P (sh_config H) (c_secure ?s) ex"
      with t Initial inv show ?thesis
        by (auto simp: auth_inv_def auth_phase_of_def intro: auth_spec.challenge)
    qed
  next
    case (ServerFirstSent ex)
    with m Password_msg have f: "scram_final E P ops (sh_session_factory H) ex d ?s = (r, t)"
      by (simp add: scram_on_startup_def take_state_def bindE_def)
    from ops f obtain evs where t: "c_scram t = c_scram ?s" "c_secure t = c_secure ?s" "\<forall>e. r = Inl e \<longrightarrow> clean e"
      "b_trace t = b_trace ?s @ evs" "made is_lookup evs = 0"
      "made is_open evs \<le> (if sh_session_factory H = None then 0 else 1)"
      "c_state t \<noteq> c_state ?s \<longrightarrow> final_sent evs"
      "0 < made is_open evs \<or> final_sent evs \<longrightarrow> (\<exists>d out. verify P ex d = Inr out)"
      "final_sent evs \<longrightarrow> made is_open evs = (if sh_session_factory H = None then 0 else 1)"
      by (rule scram_final_out)
    have acc: "verify P ex d = Inr out \<Longrightarrow> proved P ex" for d out
      using scram_crypto.accepted_proof [OF P] unfolding proved_def by blast
    have legit: "legit E P (sh_config H) secure ex" and s: "made is_open (b_trace s) = 0"
      "\<not> final_sent (b_trace s)" "made is_lookup (b_trace s) \<le> 1" "c_state s \<noteq> ReadyForQuery" "c_secure s = secure"
      using inv ServerFirstSent by (auto simp: auth_inv_def)
    have "auth_inv E P H secure t"
      using t s legit acc unfolding auth_inv_def by (auto split: if_splits)
    moreover have "auth_spec P (legit E P (sh_config H) secure) (Challenged ex) (auth_phase_of t)"
      using t(1,4,8) s acc unfolding auth_phase_of_def proved_def
      by (auto intro: auth_spec.refuse auth_spec.accept)
    ultimately show ?thesis using ServerFirstSent t(3) by (simp add: auth_phase_of_def)
  next
    case Done
    with m Password_msg have "r = Inl (Pg InvalidSASLState)" "t = ?s"
      by (simp_all add: scram_on_startup_def take_state_def bindE_def throw_def)
    with Done inv show ?thesis by (auto simp: auth_inv_def auth_phase_of_def intro: auth_spec.stutter)
  qed
qed

lemma scram_run:
  assumes P: "scram_crypto P" and ops: "startup_ops_ok ops" and f: "fresh s0"
    and run: "(scram_step E P ops H)\<^sup>*\<^sup>* s0 s"
  shows "auth_inv E P H (c_secure s0) s \<and>
    (auth_spec P (legit E P (sh_config H) (c_secure s0)))\<^sup>*\<^sup>* Waiting (auth_phase_of s)"
  using run
proof (induction rule: rtranclp_induct)
  case base
  with f show ?case by (simp add: auth_inv_fresh auth_phase_of_def fresh_def)
next
  case (step t u)
  from step.hyps(2) obtain m r where "scram_on_startup E P ops H m t = (r, u)"
    by (auto elim: scram_step.cases)
  with scram_message [OF P ops] step.IH show ?case by (blast intro: rtranclp.rtrancl_into_rtrancl)
qed

lemma bindE_take_state [simp]: "bindE take_state g s = g (c_scram s) (s\<lparr>c_scram := Done\<rparr>)"
  by (simp add: take_state_def bindE_def)

lemma bindE_Inl: "m s = (Inl e, t) \<Longrightarrow> bindE m f s = (Inl e, t)"
  by (simp add: bindE_def)

lemma legit_real:
  assumes "legit E P cfg b ex" and "\<not> ex_mock ex"
  shows "\<exists>result. x_verifier E result = Inr (Some (ex_verifier ex))"
proof -
  from assms(1) obtain first cbind nonce user v
    where ex: "ex = exchange_new P first cbind (sp_b64_encode P nonce) user v (ex_mock ex)"
    and v: "if ex_mock ex then v = mock_verifier P (vc_mock_secret cfg) user (vc_mock_iterations cfg)
       else (\<exists>result. x_verifier E result = Inr (Some v))"
    unfolding legit_def by blast
  from ex have "ex_verifier ex = v" by (metis exchange_new_simps(2))
  with v assms(2) show ?thesis by simp
qed

section \<open>Properties\<close>



text \<open>A first message that is missing, not UTF-8, malformed, or asks for a channel binding that does
  not fit the connection is refused with that error before Python is asked anything, and ends the
  attempt: every later message of the password family is refused with \<open>InvalidSASLState\<close>, and
  changes nothing.\<close>

theorem refused_first_message:
  assumes "c_scram s = Initial" and "pg_initial_response ops m = Inr (mechanism, data)"
    and "check_first (sh_config H) s mechanism data = Inl e"
  shows "scram_on_startup E P ops H (Password_msg m) s = (Inl (Pg e), s\<lparr>c_scram := Done\<rparr>) \<and>
    scram_on_startup E P ops H (Password_msg m') (s\<lparr>c_scram := Done\<rparr>) =
      (Inl (Pg InvalidSASLState), s\<lparr>c_scram := Done\<rparr>)"
proof -
  have "check_first (sh_config H) (s\<lparr>c_scram := Done\<rparr>) mechanism data = Inl e"
    using assms(3) by (simp add: check_first_def handler_certificate_def cong: option.case_cong sum.case_cong)
  from start_refused [OF this] assms(1,2) show ?thesis
    by (simp add: scram_on_startup_def scram_first_def bindE_Inl throw_def)
qed
section \<open>An honest client\<close>

text \<open>An environment in which nothing fails: Python answers every call and gives out the verifier \<open>v\<close>,
  every message is sent, nobody shuts the server down, and pgwire's own steps succeed.\<close>

definition obliging :: "'w py_env \<Rightarrow> ('w, 'st) startup_ops \<Rightarrow> scram_verifier \<Rightarrow> bool" where
  "obliging E ops v \<longleftrightarrow>
     (\<forall>w. \<not> stopping E w \<and> \<not> aborting E w) \<and> (\<forall>c w. \<exists>x w'. do_call E c w = (Returned x, w')) \<and>
     (\<forall>x. x_verifier E x = Inr (Some v)) \<and> (\<forall>m w. \<exists>w'. do_send E m w = (Inr (), w')) \<and>
     (\<forall>s. fst (pg_finish ops s) = Inr ())"

lemma obliging_call:
  assumes "obliging E ops v"
  obtains x w where "call E c s = (Inr x, s\<lparr>b_world := w, b_trace := b_trace s @ [Ev_call c True]\<rparr>)"
proof -
  from assms obtain x w where "do_call E c (b_world s) = (Returned x, w)" unfolding obliging_def by blast
  with assms that [of x w] show thesis
    by (simp add: call_def py_await_def dropped_def obliging_def log_event_def prog_simps Let_def)
qed

lemma obliging_send:
  assumes "obliging E ops v"
  obtains w where "send E m s = (Inr (), s\<lparr>b_world := w, b_trace := b_trace s @ [Ev_send m True]\<rparr>)"
proof -
  from assms obtain w where "do_send E m (b_world s) = (Inr (), w)" unfolding obliging_def by blast
  with assms that [of w] show thesis
    by (simp add: send_def dropped_def obliging_def log_event_def Let_def)
qed

lemma obliging_session:
  assumes "obliging E ops v"
  obtains u where "session_part E sf s = (Inr (), u)" "c_scram u = c_scram s"
    "sf \<noteq> None \<longrightarrow> c_ext_session u \<noteq> None"
proof (cases sf)
  case None
  then show thesis using that [of s] by (simp add: session_part_def ret_def)
next
  case (Some factory)
  from assms obtain x w where "call E (Call_open factory (login_info_from_pg (c_login s))) s =
      (Inr x, s\<lparr>b_world := w, b_trace := b_trace s @ [Ev_call (Call_open factory (login_info_from_pg (c_login s))) True]\<rparr>)"
    by (rule obliging_call)
  then have "session_part E sf s = (Inr (), s\<lparr>b_world := w,
      b_trace := b_trace s @ [Ev_call (Call_open factory (login_info_from_pg (c_login s))) True],
      c_ext_session := Some x, c_session := Some x\<rparr>)"
    using Some by (simp add: session_part_def initialize_python_session_def set_session_def prog_simps)
  then show thesis by (rule that) simp_all
qed

lemma obliging_publish:
  assumes ob: "obliging E ops v" and ops: "startup_ops_ok ops"
  obtains u where "publish E ops final s = (Inr (), u)" "c_state u = ReadyForQuery" "c_registered u \<noteq> None"
    "c_ext_session u = c_ext_session s" "Ev_send (Auth_SASLFinal (bytes_of_str final)) True \<in> set (b_trace u)"
proof -
  from ob obtain w where snd: "send E (Auth_SASLFinal (bytes_of_str final)) s =
      (Inr (), s\<lparr>b_world := w, b_trace := b_trace s @ [Ev_send (Auth_SASLFinal (bytes_of_str final)) True]\<rparr>)"
    by (rule obliging_send)
  obtain key w' where key: "pg_pid ops w = (key, w')" by fastforce
  let ?v = "s\<lparr>b_world := w, b_trace := b_trace s @ [Ev_send (Auth_SASLFinal (bytes_of_str final)) True],
      b_world := w', c_key := Some key, c_registered := Some key\<rparr>"
  have p: "publish E ops final s = pg_finish ops ?v"
    using snd key by (simp add: publish_def prog_simps draw_def register_connection_def)
  obtain u where u: "pg_finish ops ?v = (Inr (), u)"
    using ob unfolding obliging_def by (metis prod.collapse)
  with ops obtain w2 evs cs ts where
    "u = ?v\<lparr>b_world := w2, b_trace := b_trace ?v @ evs, c_state := cs, c_status := ts\<rparr>" "cs = ReadyForQuery"
    unfolding startup_ops_ok_def by metis
  with p u that [of u] show thesis by simp
qed

lemma honest_first:
  assumes ob: "obliging E ops v"
    and m: "pg_initial_response ops m = Inr (mechanism, Some (bytes_of_str t1))"
    and u: "utf8_valid (bytes_of_str t1)" and first: "client_first_parse t1 = Inr first"
    and neg: "negotiate mechanism (cf_cbind_flag first) (handler_certificate cfg s) = Inr cbind"
  obtains nonce user t where "scram_first E P ops cfg m s = (Inr (), t)"
    "c_scram t = ServerFirstSent (exchange_new P first cbind (sp_b64_encode P nonce) user v False)"
    "Ev_send (Auth_SASLContinue (bytes_of_str (ex_server_first
       (exchange_new P first cbind (sp_b64_encode P nonce) user v False)))) True \<in> set (b_trace t)"
proof -
  have c: "check_first cfg s mechanism (Some (bytes_of_str t1)) = Inr (first, cbind)"
    using u first neg by (simp add: check_first_def utf8_def)
  let ?login = "login_info_from_pg (c_login s)"
  let ?user = "case li_user ?login of None \<Rightarrow> '''' | Some u \<Rightarrow> u"
  let ?c = "Call_get_scram_verifier (vc_source cfg) ?login"
  from ob obtain x w where call: "call E ?c s = (Inr x, s\<lparr>b_world := w, b_trace := b_trace s @ [Ev_call ?c True]\<rparr>)"
    by (rule obliging_call)
  have xv: "x_verifier E x = Inr (Some v)" using ob by (simp add: obliging_def)
  obtain nonce w' where dr: "random_nonce ops w = (nonce, w')" by fastforce
  define ex where "ex = exchange_new P first cbind (sp_b64_encode P nonce) ?user v False"
  have st: "start E P ops cfg mechanism (Some (bytes_of_str t1)) s =
      (Inr ex, s\<lparr>b_world := w', b_trace := b_trace s @ [Ev_call ?c True]\<rparr>)"
    using c call xv dr by (simp add: start_def lookup_def py_lift_def draw_def ex_def prog_simps Let_def)
  let ?s1 = "s\<lparr>b_world := w', b_trace := b_trace s @ [Ev_call ?c True], c_scram := ServerFirstSent ex\<rparr>"
  from ob obtain w2 where "send E (Auth_SASLContinue (bytes_of_str (ex_server_first ex))) ?s1 =
      (Inr (), ?s1\<lparr>b_world := w2, b_trace := b_trace ?s1 @ [Ev_send (Auth_SASLContinue (bytes_of_str (ex_server_first ex))) True]\<rparr>)"
    by (rule obliging_send)
  with st m have "scram_first E P ops cfg m s = (Inr (), ?s1\<lparr>b_world := w2,
      b_trace := b_trace ?s1 @ [Ev_send (Auth_SASLContinue (bytes_of_str (ex_server_first ex))) True]\<rparr>)"
    by (simp add: scram_first_def prog_simps)
  then show thesis by (rule that [where nonce = nonce and user = ?user]) (simp_all add: ex_def)
qed

text \<open>C16: An honest client gets in: when nothing fails, a client whose key hashes to the StoredKey that
  Python gives out for it, and who opens with an accepted first message and answers the challenge
  with the proof of RFC 5802, is told the server's own signature, is registered for cancel requests,
  has a Python session when there is a session factory, and its connection is ready for queries.\<close>

theorem honest_client_logs_in:
  assumes "scram_crypto P" and "startup_ops_ok ops" and "obliging E ops v" and "c_scram s = Initial"
    and "pg_initial_response ops m1 = Inr (mechanism, Some (bytes_of_str t1))"
    and "utf8_valid (bytes_of_str t1)" and "client_first_parse t1 = Inr first" and "is_ascii (cf_nonce first)"
    and "negotiate mechanism (cf_cbind_flag first) (handler_certificate (sh_config H) s) = Inr cbind"
    and "length client_key = 32" and "sv_stored_key v = sp_sha256 P client_key"
  shows "\<exists>ex t. scram_on_startup E P ops H (Password_msg m1) s = (Inr (), t) \<and> ex_verifier ex = v \<and>
    Ev_send (Auth_SASLContinue (bytes_of_str (ex_server_first ex))) True \<in> set (b_trace t) \<and>
    (\<forall>m2. pg_response ops m2 = Inr (bytes_of_str (client_final_text (ex_channel_binding ex) (ex_nonce ex) []
             (sp_b64_encode P (client_proof P client_key ex [])))) \<longrightarrow>
       (\<exists>u. scram_on_startup E P ops H (Password_msg m2) t = (Inr (), u) \<and> c_state u = ReadyForQuery \<and>
          Ev_send (Auth_SASLFinal (bytes_of_str (server_final P ex []))) True \<in> set (b_trace u) \<and>
          c_registered u \<noteq> None \<and> (sh_session_factory H \<noteq> None \<longrightarrow> c_ext_session u \<noteq> None)))"
proof -
  have n: "negotiate mechanism (cf_cbind_flag first) (handler_certificate (sh_config H) (s\<lparr>c_scram := Done\<rparr>)) = Inr cbind"
    using assms(9) by (simp add: handler_certificate_def)
  obtain nonce user t where f: "scram_first E P ops (sh_config H) m1 (s\<lparr>c_scram := Done\<rparr>) = (Inr (), t)"
    and ts: "c_scram t = ServerFirstSent (exchange_new P first cbind (sp_b64_encode P nonce) user v False)"
    and snt: "Ev_send (Auth_SASLContinue (bytes_of_str (ex_server_first
       (exchange_new P first cbind (sp_b64_encode P nonce) user v False)))) True \<in> set (b_trace t)"
    by (rule honest_first [OF assms(3,5-7) n])
  define ex where "ex = exchange_new P first cbind (sp_b64_encode P nonce) user v False"
  note acc = scram_crypto.honest_accepts [OF assms(1,7,8,10,11) ex_def, of "[]", simplified]
  have "\<exists>u. scram_on_startup E P ops H (Password_msg m2) t = (Inr (), u) \<and> c_state u = ReadyForQuery \<and>
      Ev_send (Auth_SASLFinal (bytes_of_str (server_final P ex []))) True \<in> set (b_trace u) \<and>
      c_registered u \<noteq> None \<and> (sh_session_factory H \<noteq> None \<longrightarrow> c_ext_session u \<noteq> None)"
    if m2: "pg_response ops m2 = Inr (bytes_of_str (client_final_text (ex_channel_binding ex) (ex_nonce ex) []
             (sp_b64_encode P (client_proof P client_key ex []))))" for m2
  proof -
    obtain a where a: "session_part E (sh_session_factory H) (t\<lparr>c_scram := Done\<rparr>) = (Inr (), a)"
      "sh_session_factory H \<noteq> None \<longrightarrow> c_ext_session a \<noteq> None"
      using obliging_session [OF assms(3)] by metis
    obtain u where u: "publish E ops (server_final P ex []) a = (Inr (), u)" "c_state u = ReadyForQuery"
      "c_registered u \<noteq> None" "c_ext_session u = c_ext_session a"
      "Ev_send (Auth_SASLFinal (bytes_of_str (server_final P ex []))) True \<in> set (b_trace u)"
      by (rule obliging_publish [OF assms(3,2)])
    have "scram_final E P ops (sh_session_factory H) ex m2 (t\<lparr>c_scram := Done\<rparr>) = (Inr (), u)"
      using m2 acc a(1) u(1) by (simp add: scram_final_def prog_simps)
    then have "scram_on_startup E P ops H (Password_msg m2) t = (Inr (), u)"
      using ts [folded ex_def] by (simp add: scram_on_startup_def)
    with a u show ?thesis by auto
  qed
  moreover have "scram_on_startup E P ops H (Password_msg m1) s = (Inr (), t)"
    using f assms(4) by (simp add: scram_on_startup_def)
  moreover have "ex_verifier ex = v" by (simp add: ex_def)
  ultimately show ?thesis using snt [folded ex_def] by blast
qed
section \<open>A concrete login\<close>

definition login_env :: "nat py_env" where
  "login_env = sample_env\<lparr>do_call := (\<lambda>c w. (Returned 1, w)), x_verifier := (\<lambda>_. Inr (Some sample_verifier))\<rparr>"

definition login_ops :: "(nat, mem_store) startup_ops" where
  "login_ops =
     \<lparr>pg_negotiate = (\<lambda>_. ret ()), pg_save_parameters = (\<lambda>_ l. l),
      pg_initial_response = (\<lambda>m. Inr (SCRAM_SHA_256_METHOD, Some m)), pg_response = (\<lambda>m. Inr m),
      pg_pid = (\<lambda>w. ((1, 2), w)), random_nonce = (\<lambda>w. ([1, 2], w)),
      pg_finish = modify (\<lambda>s. s\<lparr>c_state := ReadyForQuery\<rparr>)\<rparr>"

lemma login_ops_ok: "startup_ops_ok login_ops"
proof -
  have "\<exists>w evs. s = s\<lparr>b_world := w, b_trace := b_trace s @ evs\<rparr> \<and> list_all own_event evs"
    for s :: "(nat, mem_store) conn"
    by (rule exI [of _ "b_world s"], rule exI [of _ "[]"]) simp
  moreover have "\<exists>w evs cs ts. s\<lparr>c_state := ReadyForQuery\<rparr> =
      s\<lparr>b_world := w, b_trace := b_trace s @ evs, c_state := cs, c_status := ts\<rparr> \<and>
      list_all own_event evs \<and> cs = ReadyForQuery" for s :: "(nat, mem_store) conn"
    by (rule exI [of _ "b_world s"], rule exI [of _ "[]"], rule exI [of _ ReadyForQuery],
        rule exI [of _ "c_status s"]) simp
  ultimately show ?thesis
    unfolding startup_ops_ok_def by (auto simp: login_ops_def ret_def modify_def)
qed

lemma login_obliging: "obliging login_env login_ops sample_verifier"
  by (simp add: obliging_def login_env_def sample_env_def login_ops_def modify_def)

definition login_handler :: scram_handler where
  "login_handler =
     scram_handler_new \<lparr>vc_source = 3, vc_certificate = None, vc_mock_secret = replicate 32 1,
       vc_mock_iterations = 4096\<rparr> (Some 8)"

definition login_conn :: "(nat, mem_store) conn" where
  "login_conn =
     \<lparr>b_world = 0, b_trace = [], b_held = False, c_state = Other_state 0, c_status = Idle, c_secure = False,
      c_login = \<lparr>pgl_user = Some ''user'', pgl_database = None, pgl_host = ''h''\<rparr>, c_key = None,
      c_ext_session = None, c_registered = None, c_scram = Initial, c_installed = False,
      c_portals = [], c_statements = [], c_session = None,
      c_store = \<lparr>ms_statements = (\<lambda>_. None), ms_portals = (\<lambda>_. None)\<rparr>\<rparr>"

lemma login_fresh: "fresh login_conn"
  by (simp add: fresh_def login_conn_def)

lemma sample_text_ascii: "is_ascii ''n,,n=user,r=abc''"
  by simp

lemma honest_client_logs_in_witness:
  "\<exists>ex t. scram_on_startup login_env rfc_prims login_ops login_handler
      (Password_msg (bytes_of_str ''n,,n=user,r=abc'')) login_conn = (Inr (), t) \<and>
    (\<exists>u. scram_on_startup login_env rfc_prims login_ops login_handler
      (Password_msg (bytes_of_str (client_final_text (ex_channel_binding ex) (ex_nonce ex) []
         (b64_encode (client_proof rfc_prims (replicate 32 7) ex []))))) t = (Inr (), u) \<and>
      c_state u = ReadyForQuery \<and> c_ext_session u \<noteq> None)"
proof -
  have i: "pg_initial_response login_ops m = Inr (SCRAM_SHA_256_METHOD, Some m)" for m
    by (simp add: login_ops_def)
  have r: "pg_response login_ops m = Inr m" for m by (simp add: login_ops_def)
  have f: "sh_session_factory login_handler \<noteq> None" by (simp add: login_handler_def scram_handler_new_def)
  have n: "negotiate SCRAM_SHA_256_METHOD (cf_cbind_flag sample_first)
      (handler_certificate (sh_config login_handler) login_conn) = Inr []"
    by (simp add: negotiate_Inr sample_first_def handler_certificate_def login_conn_def)
  have s: "c_scram login_conn = Initial" by (simp add: login_conn_def)
  have a: "is_ascii (cf_nonce sample_first)" "length (replicate 32 (7 :: u8)) = 32"
    "sv_stored_key sample_verifier = sp_sha256 rfc_prims (replicate 32 7)"
    by (simp_all add: sample_first_def sample_verifier_def)
  from honest_client_logs_in [OF rfc.scram_crypto_axioms login_ops_ok login_obliging s i
      utf8_valid_is_ascii [OF sample_text_ascii] sample_first_parse a(1) n a(2,3)] r f
  show ?thesis unfolding rfc_prims_simps by metis
qed

text \<open>The run of that login, as far as the challenge and to its end.\<close>

definition login_message :: "bytes \<Rightarrow> (nat, mem_store) conn \<Rightarrow> (nat, mem_store) conn" where
  "login_message m s = snd (scram_on_startup login_env rfc_prims login_ops login_handler (Password_msg m) s)"

definition challenged_conn :: "(nat, mem_store) conn" where
  "challenged_conn = login_message (bytes_of_str ''n,,n=user,r=abc'') login_conn"

lemma login_step: "scram_step login_env rfc_prims login_ops login_handler s (login_message m s)"
  unfolding login_message_def by (rule scram_step.message [of _ _ _ _ "Password_msg m" s
      "fst (scram_on_startup login_env rfc_prims login_ops login_handler (Password_msg m) s)"]) simp

lemma send_keeps_scram [simp]: "c_scram (snd (send E m s)) = c_scram s"
proof -
  obtain r t where m: "send E m s = (r, t)" by fastforce
  then obtain w evs where "t = s\<lparr>b_world := w, b_trace := b_trace s @ evs\<rparr>" by (rule send_event)
  with m show ?thesis by simp
qed

lemma challenged_exchange: "c_scram challenged_conn = ServerFirstSent sample_exchange"
proof -
  have "check_first (sh_config login_handler) (login_conn\<lparr>c_scram := Done\<rparr>) SCRAM_SHA_256_METHOD
      (Some (bytes_of_str ''n,,n=user,r=abc'')) = Inr (sample_first, [])"
    using utf8_valid_is_ascii [OF sample_text_ascii] sample_first_parse
    by (auto simp: check_first_Inr utf8_def negotiate_Inr sample_first_def handler_certificate_def login_conn_def)
  then obtain t where st: "start login_env rfc_prims login_ops (sh_config login_handler) SCRAM_SHA_256_METHOD
      (Some (bytes_of_str ''n,,n=user,r=abc'')) (login_conn\<lparr>c_scram := Done\<rparr>) = (Inr sample_exchange, t)"
    by (simp add: start_def lookup_def call_def py_await_def py_lift_def dropped_def log_event_def login_env_def
        sample_env_def login_ops_def draw_def login_conn_def login_info_from_pg_def sample_exchange_def prog_simps Let_def)
  have "pg_initial_response login_ops m = Inr (SCRAM_SHA_256_METHOD, Some m)" for m
    by (simp add: login_ops_def)
  then have "c_scram (snd (scram_first login_env rfc_prims login_ops (sh_config login_handler)
      (bytes_of_str ''n,,n=user,r=abc'') (login_conn\<lparr>c_scram := Done\<rparr>))) = ServerFirstSent sample_exchange"
    using st by (simp add: scram_first_def prog_simps)
  moreover have "c_scram login_conn = Initial" by (simp add: login_conn_def)
  ultimately show ?thesis
    by (simp add: challenged_conn_def login_message_def scram_on_startup_def)
qed

definition ready_conn :: "(nat, mem_store) conn" where
  "ready_conn = login_message sample_final challenged_conn"

lemma ready_reach:
  "(scram_step login_env rfc_prims login_ops login_handler)\<^sup>*\<^sup>* login_conn challenged_conn"
  "(scram_step login_env rfc_prims login_ops login_handler)\<^sup>*\<^sup>* login_conn ready_conn"
  unfolding ready_conn_def challenged_conn_def
  by (meson login_step rtranclp.intros)+

lemma login_first:
  "scram_on_startup login_env rfc_prims login_ops login_handler
     (Password_msg (bytes_of_str ''n,,n=user,r=abc'')) login_conn = (Inr (), challenged_conn)"
proof -
  have i: "pg_initial_response login_ops m = Inr (SCRAM_SHA_256_METHOD, Some m)" for m
    by (simp add: login_ops_def)
  have n: "negotiate SCRAM_SHA_256_METHOD (cf_cbind_flag sample_first)
      (handler_certificate (sh_config login_handler) (login_conn\<lparr>c_scram := Done\<rparr>)) = Inr []"
    by (simp add: negotiate_Inr sample_first_def handler_certificate_def login_conn_def)
  obtain t where "scram_first login_env rfc_prims login_ops (sh_config login_handler)
      (bytes_of_str ''n,,n=user,r=abc'') (login_conn\<lparr>c_scram := Done\<rparr>) = (Inr (), t)"
    by (rule honest_first [OF login_obliging i utf8_valid_is_ascii [OF sample_text_ascii] sample_first_parse n])
  then show ?thesis
    by (simp add: challenged_conn_def login_message_def scram_on_startup_def login_conn_def)
qed

lemma ready_final:
  "scram_on_startup login_env rfc_prims login_ops login_handler (Password_msg sample_final) challenged_conn =
     (Inr (), ready_conn) \<and> c_state ready_conn = ReadyForQuery"
proof -
  have v: "verify rfc_prims sample_exchange sample_final = Inr (server_final rfc_prims sample_exchange '',x=1'')"
    using rfc.verify_matching [OF sample_final_matches]
      rfc.honest_proof_checks [OF _ sample_exchange_facts(6), of "'',x=1''"] sample_exchange_facts(5) by simp
  obtain a where a: "session_part login_env (sh_session_factory login_handler) (challenged_conn\<lparr>c_scram := Done\<rparr>) = (Inr (), a)"
    using obliging_session [OF login_obliging] by metis
  obtain u where u: "publish login_env login_ops (server_final rfc_prims sample_exchange '',x=1'') a = (Inr (), u)"
    "c_state u = ReadyForQuery"
    by (rule obliging_publish [OF login_obliging login_ops_ok])
  have r: "pg_response login_ops m = Inr m" for m by (simp add: login_ops_def)
  have "scram_final login_env rfc_prims login_ops (sh_session_factory login_handler) sample_exchange sample_final
      (challenged_conn\<lparr>c_scram := Done\<rparr>) = (Inr (), u)"
    using v r a u(1) by (simp add: scram_final_def prog_simps)
  with u(2) show ?thesis
    by (simp add: ready_conn_def login_message_def scram_on_startup_def challenged_exchange)
qed

lemmas ready_state = ready_final [THEN conjunct2]



lemma refused_first_message_witness:
  "scram_on_startup login_env rfc_prims login_ops login_handler (Password_msg [0xFF]) login_conn =
     (Inl (Pg (InvalidScramMessage ''SCRAM message is not UTF-8'')), login_conn\<lparr>c_scram := Done\<rparr>)"
proof -
  have "check_first (sh_config login_handler) login_conn SCRAM_SHA_256_METHOD (Some [0xFF]) =
      Inl (InvalidScramMessage ''SCRAM message is not UTF-8'')"
    by (simp add: check_first_def utf8_def invalid_def utf8_valid.simps utf8_step_def utf8_follow_def)
  moreover have "pg_initial_response login_ops [0xFF] = Inr (SCRAM_SHA_256_METHOD, Some [0xFF])"
    "c_scram login_conn = Initial"
    by (simp_all add: login_ops_def login_conn_def)
  ultimately show ?thesis using refused_first_message by blast
qed

end
