(* ===== verification/Startup.thy ===== *)
theory Startup
  imports Authentication
begin

text \<open>
  The startup of a connection and the configuration of a server, from \<open>src/server.rs\<close>: the dispatch
  between the authentication methods (\<open>PyStartupHandler\<close>), the validation that \<open>serve\<close> makes of its
  arguments, and the handlers that \<open>HandlerConfig::build\<close> makes for each connection. The startup
  handlers of pgwire (no authentication, cleartext password, salted-password SCRAM) are parameters.
\<close>

section \<open>The startup handler\<close>

text \<open>The method of a connection, with what its handler was made of.\<close>

datatype startup_inner =
    Noop
  | Cleartext_handler pyobj
  | Scram_password_handler pyobj "64 word" "bytes option"
  | Scram_verifier_handler scram_handler

record startup_handler =
  ps_inner :: startup_inner
  ps_require_tls :: bool
  ps_session_factory :: "pyobj option"

text \<open>pgwire's handlers; the ones with passwords ask for them through the shim around the Python source.\<close>

type_synonym ('w, 'st) password_source = "pg_login_info \<Rightarrow> ('w, 'st, pg_password) handler"

record ('w, 'st) pg_handlers =
  pg_noop :: "frontend_msg \<Rightarrow> ('w, 'st, unit) handler"
  pg_cleartext :: "('w, 'st) password_source \<Rightarrow> frontend_msg \<Rightarrow> ('w, 'st, unit) handler"
  pg_scram :: "('w, 'st) password_source \<Rightarrow> 64 word \<Rightarrow> bytes option \<Rightarrow> frontend_msg \<Rightarrow> ('w, 'st, unit) handler"

definition wrapper_get_password :: "'w py_env \<Rightarrow> pyobj \<Rightarrow> ('w, 'st) password_source" where
  "wrapper_get_password E source login = get_password E source login"

definition inner_on_startup ::
  "'w py_env \<Rightarrow> scram_prims \<Rightarrow> ('w, 'st) startup_ops \<Rightarrow> ('w, 'st) pg_handlers \<Rightarrow> startup_inner \<Rightarrow> frontend_msg \<Rightarrow>
   ('w, 'st, unit) handler" where
  "inner_on_startup E P ops G inner message =
     (case inner of
        Noop \<Rightarrow> pg_noop G message
      | Cleartext_handler source \<Rightarrow> pg_cleartext G (wrapper_get_password E source) message
      | Scram_password_handler source iterations certificate \<Rightarrow>
          pg_scram G (wrapper_get_password E source) iterations certificate message
      | Scram_verifier_handler h \<Rightarrow> scram_on_startup E P ops h message)"

definition is_startup :: "frontend_msg \<Rightarrow> bool" where
  "is_startup message = (case message of Startup_msg _ \<Rightarrow> True | _ \<Rightarrow> False)"

definition tls_required :: pgwire_error where
  "tls_required = UserError (error_info_new ''FATAL'' ''28000'' ''TLS is required'')"

definition install_resources :: "('w, 'st, unit) handler" where
  "install_resources =
     modify (\<lambda>s. if c_state s = ReadyForQuery \<and> \<not> c_installed s then s\<lparr>c_installed := True\<rparr> else s)"

definition late_session :: "'w py_env \<Rightarrow> pyobj option \<Rightarrow> ('w, 'st, unit) handler" where
  "late_session E session_factory =
     bindE (gets (\<lambda>s. c_state s = ReadyForQuery \<and> c_ext_session s = None)) (\<lambda>missing.
       if missing
       then (case session_factory of
               Some factory \<Rightarrow> initialize_python_session E factory
             | None \<Rightarrow> ret ())
       else ret ())"

definition on_startup ::
  "'w py_env \<Rightarrow> scram_prims \<Rightarrow> ('w, 'st) startup_ops \<Rightarrow> ('w, 'st) pg_handlers \<Rightarrow> startup_handler \<Rightarrow>
   frontend_msg \<Rightarrow> ('w, 'st, unit) handler" where
  "on_startup E P ops G H message =
     bindE (gets c_secure) (\<lambda>secure.
       if ps_require_tls H \<and> is_startup message \<and> \<not> secure then throw (Pg tls_required)
       else
         thenE (inner_on_startup E P ops G (ps_inner H) message)
        (thenE install_resources
               (late_session E (ps_session_factory H))))"

section \<open>The arguments of serve\<close>

datatype auth_method = Trust | Cleartext | Scram | ScramVerifier

definition choose_auth_method :: "(nat \<Rightarrow> bool) \<Rightarrow> bool \<Rightarrow> string \<Rightarrow> py_err + auth_method" where
  "choose_auth_method esc has_auth method =
     (if \<not> has_auth \<and> (method = ''cleartext'' \<or> method = ''trust'') then Inr Trust
      else if has_auth \<and> method = ''cleartext'' then Inr Cleartext
      else if has_auth \<and> (method = ''scram-sha-256'' \<or> method = ''scram'') then Inr Scram
      else if has_auth \<and> method = ''scram-sha-256-verifier'' then Inr ScramVerifier
      else if has_auth \<and> method = ''trust'' then Inr Trust
      else if \<not> has_auth \<and> (method = ''scram-sha-256'' \<or> method = ''scram'')
        then Inl (New_err Py_ValueError ''SCRAM authentication requires auth=AuthSource'')
      else if \<not> has_auth \<and> method = ''scram-sha-256-verifier''
        then Inl (New_err Py_ValueError ''SCRAM verifier authentication requires auth=ScramVerifierSource'')
      else Inl (New_err Py_ValueError (''unsupported auth_method '' @ debug_str esc method)))"

text \<open>The files and the libraries that read them; errors are the text they print.\<close>

record ('cert, 'key, 'acceptor) tls_libs =
  tl_read :: "string \<Rightarrow> string + bytes"
  tl_certificates :: "string \<Rightarrow> string + 'cert list"
  tl_key :: "bytes \<Rightarrow> string + 'key"
  tl_acceptor :: "'cert list \<Rightarrow> 'key \<Rightarrow> string + 'acceptor"

definition load_tls ::
  "(nat \<Rightarrow> bool) \<Rightarrow> ('cert, 'key, 'acceptor) tls_libs \<Rightarrow> string \<Rightarrow> string \<Rightarrow> py_err + 'acceptor \<times> bytes" where
  "load_tls esc L cert_path key_path =
     (case tl_read L cert_path of
        Inl error \<Rightarrow> Inl (New_err Py_OSError (''read TLS certificate '' @ debug_str esc cert_path @ '': '' @ error))
      | Inr certificate_pem \<Rightarrow>
     (case tl_certificates L cert_path of
        Inl error \<Rightarrow> Inl (New_err Py_ValueError error)
      | Inr certificates \<Rightarrow>
     (case tl_read L key_path of
        Inl error \<Rightarrow> Inl (New_err Py_OSError (''read TLS key '' @ debug_str esc key_path @ '': '' @ error))
      | Inr key_pem \<Rightarrow>
     (case tl_key L key_pem of
        Inl error \<Rightarrow> Inl (New_err Py_ValueError error)
      | Inr key \<Rightarrow>
     (case tl_acceptor L certificates key of
        Inl error \<Rightarrow> Inl (New_err Py_ValueError error)
      | Inr acceptor \<Rightarrow> Inr (acceptor, certificate_pem))))))"

record serve_args =
  sa_simple_query :: pyobj
  sa_addr :: string
  sa_auth :: "pyobj option"
  sa_extended :: "pyobj option"
  sa_session_factory :: "pyobj option"
  sa_auth_method :: string
  sa_tls_cert :: "string option"
  sa_tls_key :: "string option"
  sa_require_tls :: bool
  sa_scram_iterations :: "64 word"

text \<open>The defaults of the signature.\<close>

definition serve_defaults :: "pyobj \<Rightarrow> string \<Rightarrow> serve_args" where
  "serve_defaults simple_query addr =
     \<lparr>sa_simple_query = simple_query, sa_addr = addr, sa_auth = None, sa_extended = None,
      sa_session_factory = None, sa_auth_method = ''cleartext'', sa_tls_cert = None, sa_tls_key = None,
      sa_require_tls = False, sa_scram_iterations = 4096\<rparr>"

record handler_config =
  hc_simple_query :: pyobj
  hc_extended_query :: "pyobj option"
  hc_auth :: "pyobj option"
  hc_auth_method :: auth_method
  hc_require_tls :: bool
  hc_scram_iterations :: "64 word"
  hc_tls_certificate_pem :: "bytes option"
  hc_session_factory :: "pyobj option"
  hc_scram_verifier :: "scram_config option"

definition tls_setup ::
  "(nat \<Rightarrow> bool) \<Rightarrow> ('cert, 'key, 'acceptor) tls_libs \<Rightarrow> string option \<Rightarrow> string option \<Rightarrow> bool \<Rightarrow>
   py_err + 'acceptor option \<times> bytes option" where
  "tls_setup esc L tls_cert tls_key require_tls =
     (case (tls_cert, tls_key) of
        (Some cert, Some key) \<Rightarrow>
          (case load_tls esc L cert key of
             Inl e \<Rightarrow> Inl e
           | Inr (acceptor, pem) \<Rightarrow> Inr (Some acceptor, Some pem))
      | (None, None) \<Rightarrow>
          (if \<not> require_tls then Inr (None, None)
           else Inl (New_err Py_ValueError ''require_tls=True requires tls_cert and tls_key''))
      | _ \<Rightarrow> Inl (New_err Py_ValueError ''tls_cert and tls_key must be supplied together''))"

text \<open>\<open>u32::try_from(n).unwrap_or(u32::MAX)\<close>\<close>

definition saturated_u32 :: "64 word \<Rightarrow> u32" where
  "saturated_u32 n = (if unat n < 2 ^ 32 then of_nat (unat n) else -1)"

definition verifier_config ::
  "py_runtime \<Rightarrow> digests \<Rightarrow> (bytes \<Rightarrow> string + certificate list) \<Rightarrow> bytes \<Rightarrow> auth_method \<Rightarrow> pyobj option \<Rightarrow>
   bytes option \<Rightarrow> 64 word \<Rightarrow> py_err + scram_config option" where
  "verifier_config r D from_pem secret auth_method auth tls_certificate_pem scram_iterations =
     (case (auth_method, auth) of
        (ScramVerifier, Some source) \<Rightarrow>
          (case (case tls_certificate_pem of
                   None \<Rightarrow> Inr None
                 | Some pem \<Rightarrow> map_sum id Some (compute_cert_signature D from_pem pem)) of
             Inl error \<Rightarrow> Inl (New_err Py_ValueError (rt_display r error))
           | Inr certificate \<Rightarrow>
               Inr (Some \<lparr>vc_source = source, vc_certificate = certificate, vc_mock_secret = secret,
                          vc_mock_iterations = saturated_u32 scram_iterations\<rparr>))
      | _ \<Rightarrow> Inr None)"

definition serve_config ::
  "py_runtime \<Rightarrow> (nat \<Rightarrow> bool) \<Rightarrow> (string \<Rightarrow> string + 'addr) \<Rightarrow> ('cert, 'key, 'acceptor) tls_libs \<Rightarrow> digests \<Rightarrow>
   (bytes \<Rightarrow> string + certificate list) \<Rightarrow> bytes \<Rightarrow> serve_args \<Rightarrow>
   py_err + 'addr \<times> 'acceptor option \<times> handler_config" where
  "serve_config r esc parse_addr L D from_pem secret args =
     (case parse_addr (sa_addr args) of
        Inl e \<Rightarrow> Inl (New_err Py_ValueError (''invalid address '' @ debug_str esc (sa_addr args) @ '': '' @ e))
      | Inr socket_addr \<Rightarrow>
     (case choose_auth_method esc (sa_auth args \<noteq> None) (sa_auth_method args) of
        Inl e \<Rightarrow> Inl e
      | Inr auth_method \<Rightarrow>
     (if sa_scram_iterations args < 4096
      then Inl (New_err Py_ValueError ''scram_iterations must be at least 4096'')
      else
     (case tls_setup esc L (sa_tls_cert args) (sa_tls_key args) (sa_require_tls args) of
        Inl e \<Rightarrow> Inl e
      | Inr (tls_acceptor, tls_certificate_pem) \<Rightarrow>
     (case verifier_config r D from_pem secret auth_method (sa_auth args) tls_certificate_pem
             (sa_scram_iterations args) of
        Inl e \<Rightarrow> Inl e
      | Inr scram_verifier \<Rightarrow>
          Inr (socket_addr, tls_acceptor,
            \<lparr>hc_simple_query = sa_simple_query args, hc_extended_query = sa_extended args,
             hc_auth = sa_auth args, hc_auth_method = auth_method, hc_require_tls = sa_require_tls args,
             hc_scram_iterations = sa_scram_iterations args,
             hc_tls_certificate_pem = tls_certificate_pem,
             hc_session_factory = sa_session_factory args, hc_scram_verifier = scram_verifier\<rparr>))))))"

section \<open>The handlers of a connection\<close>

text \<open>\<open>expect\<close> on a missing part of the configuration is a panic; \<open>configure\<close> is pgwire's
  \<open>configure_certificate\<close>.\<close>

definition build_inner :: "(bytes \<Rightarrow> pgwire_error + unit) \<Rightarrow> handler_config \<Rightarrow> failure + startup_inner" where
  "build_inner configure cfg =
     (case hc_auth_method cfg of
        Trust \<Rightarrow> Inr Noop
      | Cleartext \<Rightarrow>
          (case hc_auth cfg of None \<Rightarrow> Inl Panic | Some auth \<Rightarrow> Inr (Cleartext_handler auth))
      | Scram \<Rightarrow>
          (case hc_auth cfg of
             None \<Rightarrow> Inl Panic
           | Some auth \<Rightarrow>
               (case hc_tls_certificate_pem cfg of
                  None \<Rightarrow> Inr (Scram_password_handler auth (hc_scram_iterations cfg) None)
                | Some certificate \<Rightarrow>
                    (case configure certificate of
                       Inl e \<Rightarrow> Inl (Pg e)
                     | Inr _ \<Rightarrow> Inr (Scram_password_handler auth (hc_scram_iterations cfg) (Some certificate)))))
      | ScramVerifier \<Rightarrow>
          (case hc_scram_verifier cfg of
             None \<Rightarrow> Inl Panic
           | Some config \<Rightarrow> Inr (Scram_verifier_handler (scram_handler_new config (hc_session_factory cfg)))))"

definition build :: "(bytes \<Rightarrow> pgwire_error + unit) \<Rightarrow> handler_config \<Rightarrow> failure + startup_handler" where
  "build configure cfg =
     (case build_inner configure cfg of
        Inl e \<Rightarrow> Inl e
      | Inr startup \<Rightarrow>
          Inr \<lparr>ps_inner = startup, ps_require_tls = hc_require_tls cfg,
               ps_session_factory = hc_session_factory cfg\<rparr>)"

section \<open>Properties of the configuration\<close>

text \<open>The certificate hash that the verifier method needs when TLS is on.\<close>

definition tls_usable ::
  "(nat \<Rightarrow> bool) \<Rightarrow> ('cert, 'key, 'acceptor) tls_libs \<Rightarrow> digests \<Rightarrow> (bytes \<Rightarrow> string + certificate list) \<Rightarrow> serve_args \<Rightarrow> bool" where
  "tls_usable esc L D from_pem args \<longleftrightarrow>
     (case (sa_tls_cert args, sa_tls_key args) of
        (Some cert, Some key) \<Rightarrow>
          (\<exists>acceptor pem. load_tls esc L cert key = Inr (acceptor, pem) \<and>
             (sa_auth_method args = ''scram-sha-256-verifier'' \<longrightarrow>
                (\<exists>hash. compute_cert_signature D from_pem pem = Inr hash)))
      | (None, None) \<Rightarrow> \<not> sa_require_tls args
      | _ \<Rightarrow> False)"

definition methods :: "pyobj option \<Rightarrow> (string \<times> auth_method) list" where
  "methods auth =
     (if auth = None then [(''cleartext'', Trust), (''trust'', Trust)]
      else [(''cleartext'', Cleartext), (''trust'', Trust), (''scram'', Scram), (''scram-sha-256'', Scram),
            (''scram-sha-256-verifier'', ScramVerifier)])"

lemma methods_None: "map_of (methods None) method =
    (if method = ''cleartext'' then Some Trust else if method = ''trust'' then Some Trust else None)"
  by (simp add: methods_def)

lemma methods_Some: "map_of (methods (Some a)) method =
    (if method = ''cleartext'' then Some Cleartext else if method = ''trust'' then Some Trust
     else if method = ''scram'' then Some Scram else if method = ''scram-sha-256'' then Some Scram
     else if method = ''scram-sha-256-verifier'' then Some ScramVerifier else None)"
  by (simp add: methods_def)

lemma choose_auth_method_Inr:
  "choose_auth_method esc (auth \<noteq> None) method = Inr m \<longleftrightarrow> map_of (methods auth) method = Some m"
proof (cases auth)
  case None
  then show ?thesis unfolding None methods_None choose_auth_method_def by (simp split: if_split)
next
  case (Some a)
  then show ?thesis unfolding Some methods_Some choose_auth_method_def by (simp split: if_split)
qed

lemma verifier_config_Inr:
  "(\<exists>v. verifier_config r D from_pem secret m auth pem n = Inr v) \<longleftrightarrow>
   (m = ScramVerifier \<and> auth \<noteq> None \<longrightarrow> (\<forall>p. pem = Some p \<longrightarrow> (\<exists>hash. compute_cert_signature D from_pem p = Inr hash)))"
proof (cases "m = ScramVerifier \<and> auth \<noteq> None \<and> pem \<noteq> None")
  case True
  then obtain a p where "m = ScramVerifier" "auth = Some a" "pem = Some p" by auto
  then show ?thesis by (cases "compute_cert_signature D from_pem p") (simp_all add: verifier_config_def)
next
  case False
  then show ?thesis by (cases m; cases auth; cases pem) (simp_all add: verifier_config_def)
qed

lemma tls_setup_Inr:
  "(\<exists>acc. tls_setup esc L cert key req = Inr (acc, pem)) \<longleftrightarrow>
     (case (cert, key) of
        (Some c, Some k) \<Rightarrow> (\<exists>acceptor p. load_tls esc L c k = Inr (acceptor, p) \<and> pem = Some p)
      | (None, None) \<Rightarrow> \<not> req \<and> pem = None
      | _ \<Rightarrow> False)"
  by (auto simp: tls_setup_def split: option.splits sum.splits)

lemma serve_config_Inr:
  "serve_config r esc parse_addr L D from_pem secret args = Inr (addr, acc, cfg) \<longleftrightarrow>
   (\<exists>m pem v. parse_addr (sa_addr args) = Inr addr \<and>
      choose_auth_method esc (sa_auth args \<noteq> None) (sa_auth_method args) = Inr m \<and>
      4096 \<le> sa_scram_iterations args \<and>
      tls_setup esc L (sa_tls_cert args) (sa_tls_key args) (sa_require_tls args) = Inr (acc, pem) \<and>
      verifier_config r D from_pem secret m (sa_auth args) pem (sa_scram_iterations args) = Inr v \<and>
      cfg = \<lparr>hc_simple_query = sa_simple_query args, hc_extended_query = sa_extended args,
             hc_auth = sa_auth args, hc_auth_method = m, hc_require_tls = sa_require_tls args,
             hc_scram_iterations = sa_scram_iterations args, hc_tls_certificate_pem = pem,
             hc_session_factory = sa_session_factory args, hc_scram_verifier = v\<rparr>)"
  unfolding serve_config_def
  by (auto split: sum.splits)

lemma scram_verifier_method:
  "map_of (methods auth) nm = Some ScramVerifier \<longleftrightarrow> auth \<noteq> None \<and> nm = ''scram-sha-256-verifier''"
proof (cases auth)
  case None
  then show ?thesis unfolding None methods_None by simp
next
  case (Some a)
  then show ?thesis unfolding Some methods_Some by simp
qed

lemma methods_verifier:
  assumes "map_of (methods auth) nm = Some m"
  shows "(m = ScramVerifier \<and> auth \<noteq> None) \<longleftrightarrow> nm = ''scram-sha-256-verifier''"
proof (cases auth)
  case None
  with assms show ?thesis by (auto simp: methods_None split: if_splits)
next
  case (Some a)
  with assms scram_verifier_method [of auth nm] show ?thesis
    by (metis (no_types) option.distinct(1) option.inject methods_Some)
qed

lemma tls_part:
  assumes "map_of (methods (sa_auth args)) (sa_auth_method args) = Some m"
  shows "(\<exists>acc pem v. tls_setup esc L (sa_tls_cert args) (sa_tls_key args) (sa_require_tls args) = Inr (acc, pem) \<and>
      verifier_config r D from_pem secret m (sa_auth args) pem n = Inr v) \<longleftrightarrow> tls_usable esc L D from_pem args"
    (is "?lhs \<longleftrightarrow> _")
proof -
  have "?lhs \<longleftrightarrow> (\<exists>pem. (\<exists>acc. tls_setup esc L (sa_tls_cert args) (sa_tls_key args) (sa_require_tls args) = Inr (acc, pem)) \<and>
      (\<exists>v. verifier_config r D from_pem secret m (sa_auth args) pem n = Inr v))"
    by blast
  then show ?thesis
    unfolding tls_setup_Inr verifier_config_Inr methods_verifier [OF assms] tls_usable_def
    by (auto split: option.splits)
qed

text \<open>C23: What \<open>serve\<close> accepts: an address that parses, a method that goes with the presence of an
  \<open>auth\<close> source (without one only the two that let everybody in), at least 4096 iterations, both or
  neither of certificate and key, both when TLS is required, files and a key that load, and for the
  verifier method a certificate whose signature algorithm has a channel-binding hash. Everything
  else is refused with an exception before a listener is bound.\<close>

theorem serve_accepts_iff:
  "(\<exists>c. serve_config r esc parse_addr L D from_pem secret args = Inr c) \<longleftrightarrow>
   (\<exists>addr. parse_addr (sa_addr args) = Inr addr) \<and>
   sa_auth_method args \<in> fst ` set (methods (sa_auth args)) \<and> 4096 \<le> unat (sa_scram_iterations args) \<and>
   tls_usable esc L D from_pem args"
proof -
  have it: "4096 \<le> n \<longleftrightarrow> 4096 \<le> unat n" for n :: "64 word" by (simp add: word_le_nat_alt)
  have dom: "x \<in> fst ` set (methods a) \<longleftrightarrow> (\<exists>m. map_of (methods a) x = Some m)" for a x
    by (metis domD domI dom_map_of_conv_image_fst)
  have "(\<exists>c. serve_config r esc parse_addr L D from_pem secret args = Inr c) \<longleftrightarrow>
      (\<exists>addr. parse_addr (sa_addr args) = Inr addr) \<and> 4096 \<le> sa_scram_iterations args \<and>
      (\<exists>m. map_of (methods (sa_auth args)) (sa_auth_method args) = Some m \<and>
         (\<exists>acc pem v. tls_setup esc L (sa_tls_cert args) (sa_tls_key args) (sa_require_tls args) = Inr (acc, pem) \<and>
            verifier_config r D from_pem secret m (sa_auth args) pem (sa_scram_iterations args) = Inr v))"
    unfolding split_paired_Ex serve_config_Inr choose_auth_method_Inr by blast
  then show ?thesis unfolding dom it [symmetric] using tls_part by metis
qed
lemma saturated_u32_min: "unat (saturated_u32 n) = min (2 ^ 32 - 1) (unat n)"
proof (cases "unat n < 2 ^ 32")
  case True
  then have "unat (of_nat (unat n) :: u32) = unat n" by (simp only: unat_of_nat len_num1 len_bit0) simp
  with True show ?thesis by (simp add: saturated_u32_def)
next
  case False
  have "unat (-1 :: u32) = 2 ^ 32 - 1" by (simp add: unsigned_minus_1_eq_mask mask_eq_exp_minus_1)
  with False show ?thesis by (simp add: saturated_u32_def)
qed

lemma map_sum_Inr: "map_sum id f x = Inr y \<longleftrightarrow> (\<exists>z. x = Inr z \<and> y = f z)"
  by (cases x) auto

text \<open>An accepted configuration has the parts its method expects, so that building the handlers of a
  connection cannot panic.\<close>

lemma accepted_config_parts:
  assumes "serve_config r esc parse_addr L D from_pem secret args = Inr (addr, acceptor, cfg)"
  shows "hc_auth_method cfg \<noteq> Trust \<Longrightarrow> hc_auth cfg \<noteq> None"
    and "hc_auth_method cfg = ScramVerifier \<Longrightarrow> hc_scram_verifier cfg \<noteq> None"
proof -
  from assms obtain m pem v where
    m: "map_of (methods (sa_auth args)) (sa_auth_method args) = Some m" and
    v: "verifier_config r D from_pem secret m (sa_auth args) pem (sa_scram_iterations args) = Inr v" and
    cfg: "hc_auth cfg = sa_auth args" "hc_auth_method cfg = m" "hc_scram_verifier cfg = v"
    unfolding serve_config_Inr choose_auth_method_Inr by auto
  show "hc_auth_method cfg \<noteq> Trust \<Longrightarrow> hc_auth cfg \<noteq> None"
    using m cfg by (cases "sa_auth args") (auto simp: methods_None split: if_splits)
  then show "hc_auth_method cfg = ScramVerifier \<Longrightarrow> hc_scram_verifier cfg \<noteq> None"
    using v unfolding cfg [symmetric] by (auto simp: verifier_config_def split: option.splits sum.splits intro: sym)
qed

lemma accepted_config_no_panic:
  assumes "serve_config r esc parse_addr L D from_pem secret args = Inr (addr, acceptor, cfg)"
    and "build configure cfg = Inl f"
  shows "\<exists>e. f = Pg e"
  using accepted_config_parts [OF assms(1)] assms(2)
  by (cases "hc_auth_method cfg") (auto simp: build_def build_inner_def split: option.splits sum.splits)


section \<open>Properties of the startup handler\<close>

lemma late_session_eq:
  "late_session E sf s =
     (case sf of
        Some factory \<Rightarrow>
          if c_state s = ReadyForQuery \<and> c_ext_session s = None then initialize_python_session E factory s
          else (Inr (), s)
      | None \<Rightarrow> (Inr (), s))"
  by (simp add: late_session_def prog_simps split: option.split)

text \<open>When TLS is required, a startup message on a plain connection is refused with a fatal error of
  SQLSTATE 28000 and has no effect: no message is sent, no handler and no Python code runs.\<close>

theorem tls_guard:
  assumes "ps_require_tls H" and "\<not> c_secure s"
  shows "on_startup E P ops G H (Startup_msg startup) s =
    (Inl (Pg (UserError (error_info_new ''FATAL'' ''28000'' ''TLS is required''))), s)"
  using assms by (simp add: on_startup_def is_startup_def tls_required_def prog_simps)

section \<open>A concrete server\<close>

definition sample_libs :: "(unit, unit, unit) tls_libs" where
  "sample_libs =
     \<lparr>tl_read = (\<lambda>p. if p = ''cert.pem'' then Inr [1] else if p = ''key.pem'' then Inr [2] else Inl ''not found''),
      tl_certificates = (\<lambda>_. Inr [()]), tl_key = (\<lambda>_. Inr ()), tl_acceptor = (\<lambda>_ _. Inr ())\<rparr>"

definition sample_digests :: digests where
  "sample_digests = \<lparr>dg_sha256 = sha256, dg_sha384 = (\<lambda>_. []), dg_sha512 = (\<lambda>_. [])\<rparr>"

definition verifier_args :: serve_args where
  "verifier_args = (serve_defaults 5 ''127.0.0.1:5432'')\<lparr>sa_auth := Some 3, sa_session_factory := Some 8,
     sa_auth_method := ''scram-sha-256-verifier'', sa_scram_iterations := 5000000000\<rparr>"

definition verifier_cfg :: handler_config where
  "verifier_cfg =
     \<lparr>hc_simple_query = 5, hc_extended_query = None, hc_auth = Some 3, hc_auth_method = ScramVerifier,
      hc_require_tls = False, hc_scram_iterations = 5000000000, hc_tls_certificate_pem = None,
      hc_session_factory = Some 8,
      hc_scram_verifier = Some \<lparr>vc_source = 3, vc_certificate = None, vc_mock_secret = replicate 32 1,
        vc_mock_iterations = saturated_u32 5000000000\<rparr>\<rparr>"

lemma verifier_args_accepted:
  "serve_config sample_runtime (\<lambda>_. False) Inr sample_libs sample_digests (\<lambda>_. Inr []) (replicate 32 1) verifier_args =
     Inr (''127.0.0.1:5432'', None, verifier_cfg)"
proof -
  have "(4096 :: 64 word) \<le> 5000000000" by simp
  then show ?thesis
    unfolding serve_config_Inr
    by (simp add: verifier_args_def serve_defaults_def verifier_cfg_def choose_auth_method_def tls_setup_def
        verifier_config_def)
qed


definition sample_pg_handlers :: "(nat, mem_store) pg_handlers" where
  "sample_pg_handlers =
     \<lparr>pg_noop = (\<lambda>_. modify (\<lambda>s. s\<lparr>c_state := ReadyForQuery\<rparr>)),
      pg_cleartext = (\<lambda>_ _. ret ()), pg_scram = (\<lambda>_ _ _ _. ret ())\<rparr>"

definition trust_handler :: "bool \<Rightarrow> startup_handler" where
  "trust_handler tls = \<lparr>ps_inner = Noop, ps_require_tls = tls, ps_session_factory = Some 8\<rparr>"

definition sample_startup :: pg_startup where
  "sample_startup = \<lparr>pgs_major = 3, pgs_minor = 0, pgs_parameters = [(''user'', ''bob'')]\<rparr>"

lemma tls_guard_witness:
  "on_startup login_env rfc_prims login_ops sample_pg_handlers (trust_handler True) (Startup_msg sample_startup) login_conn =
     (Inl (Pg (UserError (error_info_new ''FATAL'' ''28000'' ''TLS is required''))), login_conn)"
  by (rule tls_guard) (simp_all add: trust_handler_def login_conn_def)


end
