(* ===== verification/Connection_Life.thy ===== *)
theory Connection_Life
  imports Startup Server
begin

text \<open>
  A connection from its first message to its last: the startup of \<open>src/server.rs\<close> with the verifier
  authentication exchange, and then the requests of a client. What the startup leaves behind is what the invariant of
  the served connection starts from.
\<close>

section \<open>Before the first request\<close>

text \<open>The resources hold nothing and no call has opened anything.\<close>

definition bare :: "'st store_ops \<Rightarrow> ('w, 'st) conn \<Rightarrow> bool" where
  "bare S s \<longleftrightarrow>
     \<not> b_held s \<and> c_portals s = [] \<and> c_statements s = [] \<and> quiet (b_trace s) \<and>
     (\<forall>n. st_get_statement S (c_store s) n = None \<and> st_get_portal S (c_store s) n = None)"

lemma bare_started: "started S s \<longleftrightarrow> c_installed s \<and> bare S s"
  by (auto simp: started_def bare_def)

text \<open>Programs that leave the resources bare, and do not install them.\<close>

definition holds :: "'st store_ops \<Rightarrow> bool \<Rightarrow> ('w, 'st) conn \<Rightarrow> bool" where
  "holds S b s \<longleftrightarrow> bare S s \<and> c_installed s = b"

lemma holds_events:
  "holds S b s \<Longrightarrow> quiet evs \<Longrightarrow> holds S b (s\<lparr>b_world := w, b_trace := b_trace s @ evs\<rparr>)"
  by (simp add: holds_def bare_def)

lemma keeps_holds_call [keeps_rules]:
  fixes E :: "'w py_env" and S :: "'st store_ops"
  assumes "quiet [Ev_call c True]"
  shows "keeps (holds S b) (call E c)"
  unfolding keeps_def
proof (intro allI impI)
  fix s :: "('w, 'st) conn" assume h: "holds S b s"
  obtain r t where c: "call E c s = (r, t)" by fastforce
  then obtain w ev where "t = s\<lparr>b_world := w, b_trace := b_trace s @ [ev]\<rparr>" and "quiet [ev]"
    by (rule call_event) (use assms in auto)
  with holds_events [OF h] c show "holds S b (snd (call E c s))" by simp
qed

lemma keeps_holds_send [keeps_rules]:
  fixes E :: "'w py_env" and S :: "'st store_ops"
  shows "keeps (holds S b) (send E m)"
  unfolding keeps_def
proof (intro allI impI)
  fix s :: "('w, 'st) conn" assume h: "holds S b s"
  obtain r t where c: "send E m s = (r, t)" by fastforce
  then obtain w evs where "quiet evs" and "t = s\<lparr>b_world := w, b_trace := b_trace s @ evs\<rparr>"
    by (rule send_cases)
  with holds_events [OF h] c show "holds S b (snd (send E m s))" by simp
qed

lemma keeps_holds_modify: "(\<And>s. holds S b s \<Longrightarrow> holds S b (f s)) \<Longrightarrow> keeps (holds S b) (modify f)"
  by (rule keeps_modify)

lemma keeps_holds_draw [keeps_rules]: "keeps (holds S b) (draw f)"
  by (auto simp: keeps_def draw_def holds_def bare_def split: prod.split)

lemma keeps_holds_lift [keeps_rules]: "keeps (holds S b) (lift_pg r)"
  by (cases r) (simp_all add: keeps_ret keeps_throw)

lemma keeps_holds_py_lift [keeps_rules]: "keeps (holds S b) (py_lift E r)"
  by (cases r) (simp_all add: py_lift_def py_fail_def keeps_ret keeps_throw)

lemma quiet_own: "list_all own_event evs \<Longrightarrow> quiet evs"
proof (induction evs)
  case (Cons e evs)
  then show ?case by (cases e) (simp_all add: quiet_def)
qed simp

lemma keeps_holds_negotiate:
  fixes ops :: "('w, 'st) startup_ops"
  assumes "startup_ops_ok ops"
  shows "keeps (holds S b) (pg_negotiate ops m)"
  unfolding keeps_def
proof (intro allI impI)
  fix s :: "('w, 'st) conn" assume h: "holds S b s"
  obtain r t where c: "pg_negotiate ops m s = (r, t)" by fastforce
  with assms obtain w evs where "t = s\<lparr>b_world := w, b_trace := b_trace s @ evs\<rparr>" and "list_all own_event evs"
    unfolding startup_ops_ok_def by metis
  with holds_events [OF h] c quiet_own show "holds S b (snd (pg_negotiate ops m s))" by simp
qed

lemma keeps_holds_finish:
  fixes ops :: "('w, 'st) startup_ops"
  assumes "startup_ops_ok ops"
  shows "keeps (holds S b) (pg_finish ops)"
  unfolding keeps_def
proof (intro allI impI)
  fix s :: "('w, 'st) conn" assume h: "holds S b s"
  obtain r t where c: "pg_finish ops s = (r, t)" by fastforce
  with assms obtain w evs cs ts where
    "t = s\<lparr>b_world := w, b_trace := b_trace s @ evs, c_state := cs, c_status := ts\<rparr>" and "list_all own_event evs"
    unfolding startup_ops_ok_def by metis
  with h c quiet_own show "holds S b (snd (pg_finish ops s))" by (simp add: holds_def bare_def)
qed

lemma keeps_holds_initialize [keeps_rules]: "keeps (holds S b) (initialize_python_session E factory)"
  unfolding initialize_python_session_def set_session_def
  by (intro keeps_rules keeps_holds_modify) (simp_all add: quiet_def holds_def bare_def)

lemma keeps_holds_scram:
  assumes ops: "startup_ops_ok ops"
  shows "keeps (holds S b) (scram_on_startup E P ops H m)"
proof -
  have hello: "keeps (holds S b) (scram_hello E ops cfg st)" for cfg st
    unfolding scram_hello_def
    by (intro keeps_rules keeps_holds_negotiate [OF ops] keeps_holds_modify) (simp_all add: holds_def bare_def)
  have take: "keeps (holds S b) take_state"
    by (simp add: keeps_def take_state_def holds_def bare_def)
  have start: "keeps (holds S b) (start E P ops cfg mech data)" for cfg mech data
    unfolding start_def lookup_def Let_def
    by (intro keeps_rules) (auto simp: quiet_def split: prod.split option.split intro!: keeps_rules)
  have first: "keeps (holds S b) (scram_first E P ops cfg d)" for cfg d
    unfolding scram_first_def
    by (intro keeps_rules) (auto simp: holds_def bare_def intro!: keeps_rules keeps_holds_modify start split: prod.split)
  have final: "keeps (holds S b) (scram_final E P ops sf ex d)" for sf ex d
    unfolding scram_final_def session_part_def publish_def register_connection_def
    by (intro keeps_rules keeps_holds_finish [OF ops] keeps_holds_modify) (simp_all add: holds_def bare_def)
  show ?thesis
    unfolding scram_on_startup_def
    by (auto intro!: keeps_rules hello take first final split: frontend_msg.split scram_state.split)
qed

section \<open>From the first message to the requests\<close>

text \<open>A server whose connections authenticate with the handler \<open>h\<close> against stored verifiers.\<close>

inductive startup_step ::
  "'w py_env \<Rightarrow> scram_prims \<Rightarrow> ('w, 'st) startup_ops \<Rightarrow> ('w, 'st) pg_handlers \<Rightarrow> startup_handler \<Rightarrow>
   ('w, 'st) conn \<Rightarrow> ('w, 'st) conn \<Rightarrow> bool"
  for E P ops G H where
  message: "on_startup E P ops G H m s = (r, t) \<Longrightarrow> startup_step E P ops G H s t"

text \<open>What the messages before the requests keep: nothing is in the tables, and the resources are
  installed only behind a proof.\<close>

definition gate ::
  "'st store_ops \<Rightarrow> 'w py_env \<Rightarrow> scram_prims \<Rightarrow> scram_handler \<Rightarrow> bool \<Rightarrow> ('w, 'st) conn \<Rightarrow> bool" where
  "gate S E P h secure s \<longleftrightarrow>
     bare S s \<and> c_secure s = secure \<and>
     (\<forall>ex. c_scram s = ServerFirstSent ex \<longrightarrow> legit E P (sh_config h) secure ex) \<and>
     (c_state s = ReadyForQuery \<or> c_installed s \<longrightarrow> (\<exists>ex. legit E P (sh_config h) secure ex \<and> proved P ex))"

lemma gate_fresh: "fresh s \<Longrightarrow> bare S s \<Longrightarrow> \<not> c_installed s \<Longrightarrow> gate S E P h (c_secure s) s"
  by (simp add: gate_def fresh_def)

lemma gate_scram:
  assumes P: "scram_crypto P" and ops: "startup_ops_ok ops" and g: "gate S E P h secure s"
    and m: "scram_on_startup E P ops h msg s = (r, t)"
  shows "gate S E P h secure t"
proof -
  have "holds S (c_installed s) t"
    using keeps_holds_scram [OF ops, of S "c_installed s" E P h msg] g m
    unfolding keeps_def holds_def gate_def by (metis snd_conv)
  then have b: "bare S t" "c_installed t = c_installed s" by (simp_all add: holds_def)
  have sec: "c_secure s = secure" using g by (simp add: gate_def)
  show ?thesis
  proof (cases msg)
    case (Startup_msg startup)
    with m have "scram_hello E ops (sh_config h) startup s = (r, t)" by (simp add: scram_on_startup_def)
    with ops obtain evs where "c_secure t = c_secure s" "c_state t = c_state s \<or> c_state t = AuthenticationInProgress"
      "\<forall>e. r = Inl e \<longrightarrow> clean e" "b_trace t = b_trace s @ evs" "made is_lookup evs = 0" "made is_open evs = 0"
      "\<not> final_sent evs" "c_scram t = c_scram s"
      by (rule scram_hello_out)
    with g b show ?thesis by (auto simp: gate_def)
  next
    case Other_msg
    with m g show ?thesis by (auto simp: scram_on_startup_def ret_def)
  next
    case (Password_msg d)
    let ?s = "s\<lparr>c_scram := Done\<rparr>"
    show ?thesis
    proof (cases "c_scram s")
      case Initial
      with m Password_msg have "scram_first E P ops (sh_config h) d ?s = (r, t)"
        by (simp add: scram_on_startup_def)
      then obtain evs where t: "c_secure t = c_secure ?s" "c_state t = c_state ?s" "\<forall>e. r = Inl e \<longrightarrow> clean e"
        "b_trace t = b_trace ?s @ evs" "made is_lookup evs \<le> 1" "made is_open evs = 0" "\<not> final_sent evs"
        "c_scram t = c_scram ?s \<or> (\<exists>ex. c_scram t = ServerFirstSent ex \<and> legit E P (sh_config h) (c_secure ?s) ex)"
        by (rule scram_first_out)
      with g b show ?thesis by (auto simp: gate_def)
    next
      case (ServerFirstSent ex)
      with m Password_msg have f: "scram_final E P ops (sh_session_factory h) ex d ?s = (r, t)"
        by (simp add: scram_on_startup_def)
      from ops f obtain evs where t: "c_scram t = c_scram ?s" "c_secure t = c_secure ?s" "\<forall>e. r = Inl e \<longrightarrow> clean e"
        "b_trace t = b_trace ?s @ evs" "made is_lookup evs = 0"
        "made is_open evs \<le> (if sh_session_factory h = None then 0 else 1)"
        "c_state t \<noteq> c_state ?s \<longrightarrow> final_sent evs"
        "0 < made is_open evs \<or> final_sent evs \<longrightarrow> (\<exists>d out. verify P ex d = Inr out)"
        by (rule scram_final_out)
      have "legit E P (sh_config h) secure ex" using g ServerFirstSent by (simp add: gate_def)
      moreover have acc: "verify P ex d = Inr out \<Longrightarrow> proved P ex" for d out
        using scram_crypto.accepted_proof [OF P] unfolding proved_def by blast
      moreover have "c_state t \<noteq> c_state s \<longrightarrow> proved P ex"
        using t(7,8) acc by auto
      ultimately show ?thesis using g b t(1,2) by (auto simp: gate_def)
    next
      case Done
      with m Password_msg have "t = ?s" by (simp add: scram_on_startup_def throw_def)
      with Done b g show ?thesis by (auto simp: gate_def bare_def)
    qed
  qed
qed

lemma gate_install: "gate S E P h secure s \<Longrightarrow> gate S E P h secure (snd (install_resources s))"
  by (simp add: install_resources_def modify_def gate_def bare_def)

lemma gate_late:
  assumes g: "gate S E P h secure s"
  shows "gate S E P h secure (snd (late_session E sf s))"
proof (cases "\<exists>f. sf = Some f \<and> c_state s = ReadyForQuery \<and> c_ext_session s = None")
  case False
  with g show ?thesis by (auto simp: late_session_eq split: option.split)
next
  case True
  then obtain f where f: "sf = Some f" "c_state s = ReadyForQuery" "c_ext_session s = None" by blast
  obtain r t where i: "initialize_python_session E f s = (r, t)" by fastforce
  with f have l: "snd (late_session E sf s) = t" by (simp add: late_session_eq)
  from i g show ?thesis unfolding l
    by (cases rule: initialize_out) (auto simp: gate_def bare_def quiet_def)
qed

lemma gate_step:
  assumes "scram_crypto P" and "startup_ops_ok ops" and inner: "ps_inner H = Scram_verifier_handler h"
    and "gate S E P h secure s" and "startup_step E P ops G H s t"
  shows "gate S E P h secure t"
proof -
  from assms(5) obtain m r where o: "on_startup E P ops G H m s = (r, t)" by (auto elim: startup_step.cases)
  show ?thesis
  proof (cases "ps_require_tls H \<and> is_startup m \<and> \<not> c_secure s")
    case True
    with o assms(4) show ?thesis by (simp add: on_startup_def throw_def)
  next
    case False
    obtain ir u where i: "scram_on_startup E P ops h m s = (ir, u)" by fastforce
    from gate_scram [OF assms(1,2,4) i] have gu: "gate S E P h secure u" .
    show ?thesis
    proof (cases ir)
      case (Inl e)
      with i inner have "inner_on_startup E P ops G (ps_inner H) m s = (Inl e, u)"
        by (simp add: inner_on_startup_def)
      with o False have "t = u" by (simp add: on_startup_def thenE_def bindE_Inl del: de_Morgan_conj)
      with gu show ?thesis by simp
    next
      case (Inr x)
      with o False i inner have "t = snd (late_session E (ps_session_factory H) (snd (install_resources u)))"
        by (auto simp: on_startup_def inner_on_startup_def install_resources_def prog_simps)
      with gate_late [OF gate_install [OF gu]] show ?thesis by simp
    qed
  qed
qed

lemma gate_run:
  assumes "scram_crypto P" and "startup_ops_ok ops" and "ps_inner H = Scram_verifier_handler h"
    and "fresh s0" and "bare S s0" and "\<not> c_installed s0" and run: "(startup_step E P ops G H)\<^sup>*\<^sup>* s0 s"
  shows "gate S E P h (c_secure s0) s"
  using run
proof (induction rule: rtranclp_induct)
  case base
  from assms(4-6) show ?case by (rule gate_fresh)
next
  case (step t u)
  with gate_step [OF assms(1-3)] show ?case by blast
qed


section \<open>A concrete life\<close>

definition verifier_handler :: startup_handler where
  "verifier_handler =
     \<lparr>ps_inner = Scram_verifier_handler login_handler, ps_require_tls = False, ps_session_factory = Some 8\<rparr>"

definition startup_message :: "bytes \<Rightarrow> (nat, mem_store) conn \<Rightarrow> (nat, mem_store) conn" where
  "startup_message m s =
     snd (on_startup login_env rfc_prims login_ops sample_pg_handlers verifier_handler (Password_msg m) s)"

definition served_conn :: "(nat, mem_store) conn" where
  "served_conn = startup_message sample_final (startup_message (bytes_of_str ''n,,n=user,r=abc'') login_conn)"

lemma startup_message_step:
  "startup_step login_env rfc_prims login_ops sample_pg_handlers verifier_handler s (startup_message m s)"
  unfolding startup_message_def
  by (rule startup_step.message [of _ _ _ _ _ "Password_msg m" s
      "fst (on_startup login_env rfc_prims login_ops sample_pg_handlers verifier_handler (Password_msg m) s)"]) simp

lemma served_reach:
  "(startup_step login_env rfc_prims login_ops sample_pg_handlers verifier_handler)\<^sup>*\<^sup>* login_conn served_conn"
  unfolding served_conn_def by (meson startup_message_step rtranclp.intros)

lemma startup_message_eq:
  assumes "scram_on_startup login_env rfc_prims login_ops login_handler (Password_msg m) s = (Inr (), u)"
  shows "startup_message m s = snd (late_session login_env (Some 8) (snd (install_resources u)))"
  using assms
  by (simp add: startup_message_def on_startup_def verifier_handler_def inner_on_startup_def
      install_resources_def prog_simps)

lemma late_session_installed: "c_installed (snd (late_session E sf s)) = c_installed s"
proof (cases "\<exists>f. sf = Some f \<and> c_state s = ReadyForQuery \<and> c_ext_session s = None")
  case False
  then show ?thesis by (auto simp: late_session_eq split: option.split)
next
  case True
  then obtain f where f: "sf = Some f" "c_state s = ReadyForQuery" "c_ext_session s = None" by blast
  obtain r t where i: "initialize_python_session E f s = (r, t)" by fastforce
  with f have l: "snd (late_session E sf s) = t" by (simp add: late_session_eq)
  from i show ?thesis unfolding l by (cases rule: initialize_out) auto
qed

lemma challenged_state: "c_state challenged_conn \<noteq> ReadyForQuery"
proof -
  from login_first have "scram_first login_env rfc_prims login_ops (sh_config login_handler)
      (bytes_of_str ''n,,n=user,r=abc'') (login_conn\<lparr>c_scram := Done\<rparr>) = (Inr (), challenged_conn)"
    by (simp add: scram_on_startup_def login_conn_def)
  then have "c_state challenged_conn = c_state login_conn" by (rule scram_first_out) simp
  then show ?thesis by (simp add: login_conn_def)
qed

lemma served_installed: "c_installed served_conn"
proof -
  have "startup_message (bytes_of_str ''n,,n=user,r=abc'') login_conn = challenged_conn"
    using startup_message_eq [OF login_first] challenged_state
    by (simp add: install_resources_def modify_def late_session_eq)
  then show ?thesis
    using startup_message_eq [of sample_final challenged_conn ready_conn] ready_final
    by (simp add: served_conn_def late_session_installed install_resources_def modify_def)
qed

lemma login_bare: "bare mem_ops login_conn"
  by (simp add: bare_def login_conn_def mem_ops_def)

lemma login_order: "hash_order_ok login_env"
  using sample_order by (simp add: hash_order_ok_def login_env_def)


end
