(* ===== verification/Sessions.thy ===== *)
theory Sessions
  imports Connection_Life
begin

text \<open>
  The Python session of a connection (\<open>initialize_python_session\<close> of \<open>src/server.rs\<close>, the field
  \<open>session\<close> of \<open>PythonPortals\<close>): over the startup with any of the authentication methods and over
  every request, a connection has the session it opened, opens at most one, and leaves its end to
  the cleanup.
\<close>

section \<open>The ledger of sessions\<close>

text \<open>The resources and the extensions of the connection hold the same session, it is the one that was
  opened, and nobody has closed it.\<close>

definition session_ok :: "('w, 'st) conn \<Rightarrow> bool" where
  "session_ok s \<longleftrightarrow>
     c_session s = c_ext_session s \<and> attempts is_close (b_trace s) = 0 \<and>
     calls_ok is_open (b_trace s) = (if c_session s = None then 0 else 1)"

text \<open>Events that neither open nor close a session.\<close>

definition sessionless :: "event list \<Rightarrow> bool" where
  "sessionless evs \<longleftrightarrow> calls_ok is_open evs = 0 \<and> attempts is_close evs = 0"

lemma attempts_simps [simp]:
  "attempts Q [] = 0"
  "attempts Q (Ev_call c ok # tr) = (if Q c then 1 else 0) + attempts Q tr"
  "attempts Q (Ev_dropped c # tr) = attempts Q tr"
  "attempts Q (Ev_send m ok # tr) = attempts Q tr"
  "attempts Q (Ev_flush ok # tr) = attempts Q tr"
  by (simp_all add: attempts_def List.map_filter_simps)

lemma sessionless_simps [simp]:
  "sessionless []" "sessionless [Ev_send m ok]" "sessionless [Ev_flush ok]" "sessionless [Ev_dropped c]"
  "sessionless [Ev_call c ok] \<longleftrightarrow> \<not> (ok \<and> is_open c) \<and> \<not> is_close c"
  by (simp_all add: sessionless_def)

lemma sessionless_pgwire: "list_all pgwire_event evs \<Longrightarrow> sessionless evs"
proof (induction evs)
  case (Cons e evs)
  then show ?case by (cases e rule: pgwire_event.cases) (auto simp: sessionless_def)
qed simp

lemma session_ok_events:
  "session_ok s \<Longrightarrow> sessionless evs \<Longrightarrow> session_ok (s\<lparr>b_world := w, b_trace := b_trace s @ evs\<rparr>)"
  by (simp add: session_ok_def sessionless_def)

section \<open>Requests keep the session\<close>

text \<open>The requests see the session but do not touch it: they keep \<open>session_ok\<close>.\<close>

lemma keeps_session_await [keeps_rules]:
  fixes E :: "'w py_env"
  assumes "\<not> is_open c" and "\<not> is_close c"
  shows "keeps (session_ok :: ('w, 'st) conn \<Rightarrow> bool) (py_await E c)"
  unfolding keeps_def
proof (intro allI impI)
  fix s :: "('w, 'st) conn" assume s: "session_ok s"
  obtain r w where d: "do_call E c (b_world s) = (r, w)" by fastforce
  have "session_ok (s\<lparr>b_world := w, b_trace := b_trace s @ [ev]\<rparr>)" if "ev \<in> {Ev_call c True, Ev_call c False, Ev_dropped c}" for ev
    using session_ok_events [OF s, of "[ev]"] that assms by auto
  with d show "session_ok (snd (py_await E c s))"
    by (cases r) (auto simp: py_await_def log_event_def Let_def)
qed

lemma keeps_session_fail [keeps_rules]: "keeps session_ok (py_fail E e)"
  by (simp add: py_fail_def keeps_throw)

lemma keeps_session_call [keeps_rules]:
  "\<not> is_open c \<Longrightarrow> \<not> is_close c \<Longrightarrow> keeps (session_ok :: ('w, 'st) conn \<Rightarrow> bool) (call E c)"
  unfolding call_def by (intro keeps_rules) (auto split: call_result.split intro: keeps_rules)

lemma keeps_session_lift [keeps_rules]: "keeps session_ok (py_lift E r)"
  by (cases r) (simp_all add: py_lift_def py_fail_def keeps_ret keeps_throw)

lemma keeps_session_send [keeps_rules]:
  fixes E :: "'w py_env"
  shows "keeps (session_ok :: ('w, 'st) conn \<Rightarrow> bool) (send E m)"
  unfolding keeps_def
proof (intro allI impI)
  fix s :: "('w, 'st) conn" assume s: "session_ok s"
  obtain r w where d: "do_send E m (b_world s) = (r, w)" by fastforce
  with session_ok_events [OF s, of "[]" w] session_ok_events [OF s, of "[Ev_send m True]" w]
    session_ok_events [OF s, of "[Ev_send m False]" w]
  show "session_ok (snd (send E m s))"
    by (cases r) (simp_all add: send_def log_event_def Let_def)
qed

lemma keeps_session_flush [keeps_rules]:
  fixes E :: "'w py_env"
  shows "keeps (session_ok :: ('w, 'st) conn \<Rightarrow> bool) (flush E)"
  unfolding keeps_def
proof (intro allI impI)
  fix s :: "('w, 'st) conn" assume s: "session_ok s"
  obtain r w where d: "do_flush E (b_world s) = (r, w)" by fastforce
  with session_ok_events [OF s, of "[]" w] session_ok_events [OF s, of "[Ev_flush True]" w]
    session_ok_events [OF s, of "[Ev_flush False]" w]
  show "session_ok (snd (flush E s))"
    by (cases r) (simp_all add: flush_def log_event_def Let_def)
qed

lemma keeps_session_closing [keeps_rules]:
  fixes m :: "('w, 'st, 'a) handler"
  assumes "keeps session_ok m"
  shows "keeps session_ok (with_closing E m)"
  unfolding keeps_def
proof (intro allI impI)
  fix s :: "('w, 'st) conn" assume s: "session_ok s"
  then have "session_ok (s\<lparr>b_held := True\<rparr>)" by (simp add: session_ok_def)
  with assms have "session_ok (snd (m (s\<lparr>b_held := True\<rparr>)))" by (simp add: keeps_def)
  with s show "session_ok (snd (with_closing E m s))"
    by (cases "m (s\<lparr>b_held := True\<rparr>)") (simp add: with_closing_def session_ok_def)
qed

lemma keeps_session_update [keeps_rules]: "keeps session_ok (update_store f)"
  by (simp add: keeps_def update_store_def modify_def session_ok_def)

lemma keeps_session_tables [keeps_rules]:
  "keeps session_ok (modify (\<lambda>s. s\<lparr>c_portals := f s\<rparr>))"
  "keeps session_ok (modify (\<lambda>s. s\<lparr>c_statements := g s\<rparr>))"
  by (simp_all add: keeps_def modify_def session_ok_def)

text \<open>A handler keeps the session when its parts do.\<close>

lemma keeps_case_call_result [keeps_rules]:
  "(\<And>e. keeps I (f e)) \<Longrightarrow> (\<And>e. keeps I (g e)) \<Longrightarrow> (\<And>v. keeps I (h v)) \<Longrightarrow>
   keeps I (case r of Dispatch_error e \<Rightarrow> f e | Await_error e \<Rightarrow> g e | Returned v \<Rightarrow> h v)"
  by (cases r) simp_all

lemma keeps_sum [keeps_rules]:
  "(\<And>e. r = Inl e \<Longrightarrow> keeps I (f e)) \<Longrightarrow> (\<And>x. r = Inr x \<Longrightarrow> keeps I (g x)) \<Longrightarrow>
   keeps I (case r of Inl e \<Rightarrow> f e | Inr x \<Rightarrow> g x)"
  by (cases r) simp_all

lemma keeps_session_close_portal [keeps_rules]: "keeps session_ok (close_portal E n)"
  unfolding close_portal_def call_python_def by (intro keeps_rules) simp_all

lemma keeps_session_close_rm [keeps_rules]: "keeps session_ok (close_and_rm E S n)"
  unfolding close_and_rm_def by (intro keeps_rules)

lemma keeps_session_close_all [keeps_rules]: "keeps session_ok (close_all_portals E S)"
  unfolding close_all_portals_def by (intro keeps_rules)

lemma keeps_session_close_statement [keeps_rules]: "keeps session_ok (close_statement E S inst n)"
  unfolding close_statement_def drop_statement_def call_python_def by (intro keeps_rules) simp_all

lemma keeps_session_insert [keeps_rules]: "keeps session_ok (insert_entry n e)"
  unfolding insert_entry_def by (intro keeps_rules)

lemma keeps_session_parse [keeps_rules]: "keeps session_ok (on_parse E S inst m)"
  unfolding on_parse_def parse_and_store_def parse_statement_def Let_def
  by (intro keeps_rules) simp_all

lemma keeps_session_bind_value [keeps_rules]: "keeps session_ok (bind_value E S inst m v)"
  unfolding bind_value_def bind_portal_def Let_def by (intro keeps_rules) simp_all

lemma keeps_session_bind_empty [keeps_rules]: "keeps session_ok (bind_empty E S m)"
  unfolding bind_empty_def Let_def by (intro keeps_rules)

lemma keeps_session_bind [keeps_rules]: "keeps session_ok (on_bind E S inst m)"
proof -
  have "keeps session_ok (case v of Value x \<Rightarrow> bind_value E S inst m x | Empty \<Rightarrow> bind_empty E S m)" for v
    by (cases v) (auto intro: keeps_rules)
  then show ?thesis
    unfolding on_bind_def Let_def by (intro keeps_rules)
qed

lemma keeps_session_portal_for [keeps_rules]: "keeps session_ok (portal_for n)"
  unfolding portal_for_def by (intro keeps_rules)

lemma keeps_session_describe [keeps_rules]:
  "keeps session_ok (do_describe_statement E inst v)" "keeps session_ok (do_describe_portal E inst p)"
  unfolding do_describe_statement_def do_describe_portal_def by (intro keeps_rules; simp)+

lemma keeps_session_execute [keeps_rules]: "keeps session_ok (do_query E S inst p n)"
  unfolding do_query_def Let_def by (intro keeps_rules) simp_all

lemma keeps_session_simple [keeps_rules]: "keeps session_ok (simple_do_query E S inner q)"
  unfolding simple_do_query_def do_query_on_def Let_def by (intro keeps_rules) simp_all


lemma session_pgwire: "pgwire_keeps session_ok"
  unfolding pgwire_keeps_def
  by (auto dest!: sessionless_pgwire simp: session_ok_def sessionless_def)

lemma keeps_attempt [keeps_rules]: "keeps I m \<Longrightarrow> keeps I (attempt m)"
  unfolding keeps_def attempt_def by (auto split: prod.splits sum.splits failure.splits)


text \<open>The invariant of a connection that serves requests, with its session.\<close>

definition served_ok :: "'st store_ops \<Rightarrow> pyobj option \<Rightarrow> ('w, 'st) conn \<Rightarrow> bool" where
  "served_ok S inst s \<longleftrightarrow> conn_inv S inst s \<and> session_ok s"

context serving
begin

abbreviation J :: "('w, 'st) conn \<Rightarrow> bool" where
  "J \<equiv> served_ok S inst"

lemma served_okI:
  assumes "runs I m (\<lambda>_. I)" and "keeps session_ok m"
  shows "triple J m (\<lambda>_. J) (\<lambda>e s. J s \<and> clean e)"
  using triple_conj [OF assms(1) assms(2) [unfolded keeps_triple]]
  unfolding served_ok_def by (rule triple_weaken) auto

lemma served_gets: "triple J (gets f) (\<lambda>_. J) (\<lambda>e s. J s \<and> clean e)"
  by (rule triple_gets)

lemma served_pgwire: "pgwire_keeps J"
proof -
  have "pgwire_keeps (I :: ('w, 'st) conn \<Rightarrow> bool)" by (rule conn_inv_pgwire)
  moreover have "pgwire_keeps (session_ok :: ('w, 'st) conn \<Rightarrow> bool)" by (rule session_pgwire)
  ultimately show ?thesis unfolding pgwire_keeps_def served_ok_def by blast
qed

lemma served_on_query: "triple J (on_query E S inst inner K q) (\<lambda>_. J) (\<lambda>e s. J s \<and> clean e)"
proof -
  have dq: "triple J (simple_do_query E S inner q) (\<lambda>_. J) (\<lambda>e s. J s \<and> clean e)"
    by (intro served_okI simple_do_query_I keeps_rules)
  then have "triple J (attempt (K (simple_do_query E S inner) q)) (\<lambda>_. J) (\<lambda>e s. J s \<and> clean e)"
    by (intro triple_attempt pg_on_query [unfolded pg_on_query_ok_def, rule_format, OF served_pgwire])
  moreover have "triple J (close_and_rm E S n) (\<lambda>_. J) (\<lambda>e s. J s \<and> clean e)" for n
    by (intro served_okI keeps_rules) (rule runs_weaken [OF close_and_rm_I], auto)
  moreover have "triple J (close_statement E S inst n) (\<lambda>_. J) (\<lambda>e s. J s \<and> clean e)" for n
    by (intro served_okI keeps_rules) (rule runs_weaken [OF close_statement_runs], auto)
  moreover have "triple J (only_if b (close_all_portals E S)) (\<lambda>_. J) (\<lambda>e s. J s \<and> clean e)" for b
    by (intro served_okI keeps_rules) (auto simp: only_if_def intro!: triple_ret runs_weaken [OF close_all_I])
  moreover have "triple J (case result of Inl e \<Rightarrow> throw (Pg e) | Inr u \<Rightarrow> ret u) (\<lambda>_. J) (\<lambda>e s. J s \<and> clean e)"
    for result :: "pgwire_error + unit"
    by (cases result) (auto intro!: triple_throw triple_ret)
  moreover have "triple J (throw (Pg e)) (\<lambda>_. J) (\<lambda>e s. J s \<and> clean e)" for e
    by (rule triple_throw) simp
  ultimately show ?thesis
    unfolding on_query_def by (intro triple_bindE [where M = "\<lambda>_. J"] triple_thenE [where M = J] triple_if served_gets)
qed

lemma served_handle: "triple J (handle E S inst inner K req) (\<lambda>_. J) (\<lambda>e s. J s \<and> clean e)"
proof (cases "\<exists>q. req = Req_query q")
  case True
  with served_on_query show ?thesis by (auto simp: handle_def)
next
  case False
  then have "keeps session_ok (handle E S inst inner K req)"
    unfolding handle_def discard_def on_sync_def on_close_def Let_def
    by (cases req) (auto intro!: keeps_rules)
  with handle_runs show ?thesis by (rule served_okI)
qed

lemma served_step: "conn_step E S inst inner K s t \<Longrightarrow> J s \<Longrightarrow> J t"
proof (induction rule: conn_step.induct)
  case (handled req s r t)
  then show ?case
    using served_handle [of req] by (cases r) (auto dest: triple_Inl triple_Inr)
next
  case (pgwire evs s w cs ts)
  with served_pgwire show ?case by (simp add: pgwire_keeps_def)
qed

end

section \<open>The startup opens at most one session\<close>

text \<open>
  pgwire's startup handlers, for the methods without stored verifiers: they ask for passwords through
  the source they are given, exchange messages, and touch only pgwire's own view of the client.
\<close>

definition client_keeps :: "(('w, 'st) conn \<Rightarrow> bool) \<Rightarrow> bool" where
  "client_keeps P \<longleftrightarrow>
     (\<forall>s w evs cs ts login key reg. list_all pgwire_event evs \<longrightarrow> P s \<longrightarrow>
        P (s\<lparr>b_world := w, b_trace := b_trace s @ evs, c_state := cs, c_status := ts, c_login := login,
             c_key := key, c_registered := reg\<rparr>))"

definition safe :: "(('w, 'st) conn \<Rightarrow> bool) \<Rightarrow> ('w, 'st, 'a) handler \<Rightarrow> bool" where
  "safe P m \<longleftrightarrow> triple P m (\<lambda>_. P) (\<lambda>e s. P s \<and> clean e)"

definition pg_handlers_ok :: "('w, 'st) pg_handlers \<Rightarrow> bool" where
  "pg_handlers_ok G \<longleftrightarrow>
     (\<forall>P m. client_keeps P \<longrightarrow> safe P (pg_noop G m)) \<and>
     (\<forall>P source m. client_keeps P \<longrightarrow> (\<forall>login. safe P (source login)) \<longrightarrow> safe P (pg_cleartext G source m)) \<and>
     (\<forall>P source n certificate m. client_keeps P \<longrightarrow> (\<forall>login. safe P (source login)) \<longrightarrow>
        safe P (pg_scram G source n certificate m))"

text \<open>A connection before its first request: the resources hold nothing but perhaps a session; with
  stored verifiers there is no session, and the connection is not ready, before the exchange is over.\<close>

definition with_verifiers :: "startup_handler \<Rightarrow> bool" where
  "with_verifiers H \<longleftrightarrow> (case ps_inner H of Scram_verifier_handler h \<Rightarrow> True | _ \<Rightarrow> False)"

definition starting_ok :: "'st store_ops \<Rightarrow> bool \<Rightarrow> ('w, 'st) conn \<Rightarrow> bool" where
  "starting_ok S verifiers s \<longleftrightarrow>
     bare S s \<and> session_ok s \<and>
     (verifiers \<longrightarrow> c_scram s = Done \<or> c_ext_session s = None \<and> c_state s \<noteq> ReadyForQuery)"

lemma safe_keeps: "safe P m \<Longrightarrow> keeps P m"
  unfolding safe_def keeps_triple by (erule triple_weaken) auto

lemma client_keeps_starting:
  fixes S :: "'st store_ops"
  shows "client_keeps (starting_ok S False :: ('w, 'st) conn \<Rightarrow> bool)"
  unfolding client_keeps_def
proof (intro allI impI)
  fix s :: "('w, 'st) conn" and w evs cs ts login key reg
  assume "list_all pgwire_event evs" and "starting_ok S False s"
  with pgwire_quiet [of evs] sessionless_pgwire [of evs]
  show "starting_ok S False (s\<lparr>b_world := w, b_trace := b_trace s @ evs, c_state := cs, c_status := ts,
      c_login := login, c_key := key, c_registered := reg\<rparr>)"
    by (simp add: starting_ok_def bare_def session_ok_def sessionless_def)
qed

lemma sessionless_own: "list_all own_event evs \<Longrightarrow> sessionless evs"
proof (induction evs)
  case (Cons e evs)
  then show ?case by (cases e) (auto simp: sessionless_def)
qed simp

lemma starting_events:
  "starting_ok S v s \<Longrightarrow> quiet evs \<Longrightarrow> sessionless evs \<Longrightarrow>
   starting_ok S v (s\<lparr>b_world := w, b_trace := b_trace s @ evs\<rparr>)"
  by (simp add: starting_ok_def bare_def session_ok_def sessionless_def)

lemma starting_call:
  assumes "call E c s = (r, t)" and "starting_ok S v s" and "quiet [Ev_call c True]" and "\<not> is_open c" and "\<not> is_close c"
  shows "starting_ok S v t \<and> (\<forall>e. r = Inl e \<longrightarrow> clean e) \<and> c_ext_session t = c_ext_session s \<and>
    c_state t = c_state s \<and> c_scram t = c_scram s"
  using assms(1)
proof (rule call_event)
  fix w ev assume t: "t = s\<lparr>b_world := w, b_trace := b_trace s @ [ev]\<rparr>"
    and "ev = Ev_call c True \<and> (\<exists>v. r = Inr v) \<or>
      (ev = Ev_call c False \<or> ev = Ev_dropped c) \<and> (\<exists>e. r = Inl e \<and> clean e)"
  then have "quiet [ev]" "sessionless [ev]" "\<forall>e. r = Inl e \<longrightarrow> clean e" using assms(3-5) by auto
  with t starting_events [OF assms(2), of "[ev]" w] show ?thesis by simp
qed

lemma safe_get_password: "safe (starting_ok S v) (get_password E source login)"
proof -
  have "safe (starting_ok S v) (call E (Call_get_password source l))" for l
    unfolding safe_def by (rule tripleI) (use starting_call in force)+
  then show ?thesis
    unfolding safe_def get_password_def
    by (intro triple_bindE [where M = "\<lambda>_. starting_ok S v"] triple_ret)
      (auto simp: py_lift_def py_fail_def split: sum.split intro: triple_ret triple_throw)
qed

lemma starting_initialize:
  assumes i: "initialize_python_session E factory s = (r, t)" and s: "starting_ok S v s"
    and "c_ext_session s = None" and "v \<longrightarrow> c_scram s = Done"
  shows "starting_ok S v t \<and> (\<forall>e. r = Inl e \<longrightarrow> clean e) \<and> c_scram t = c_scram s"
  using i
proof (cases rule: initialize_out)
  case (ok w i)
  with assms show ?thesis by (auto simp: starting_ok_def bare_def session_ok_def quiet_def)
next
  case (err w ev e)
  then have "quiet [ev]" "sessionless [ev]" by auto
  with err starting_events [OF s, of "[ev]" w] show ?thesis by simp
qed

lemma starting_install: "starting_ok S v s \<Longrightarrow> starting_ok S v (snd (install_resources s))"
  by (auto simp: install_resources_def modify_def starting_ok_def bare_def session_ok_def)

lemma starting_late:
  assumes l: "late_session E factory s = (r, t)" and s: "starting_ok S v s"
  shows "starting_ok S v t \<and> (\<forall>e. r = Inl e \<longrightarrow> clean e)"
proof (cases "\<exists>f. factory = Some f \<and> c_state s = ReadyForQuery \<and> c_ext_session s = None")
  case False
  with l s show ?thesis by (auto simp: late_session_eq split: option.splits)
next
  case True
  then obtain f where f: "factory = Some f" "c_state s = ReadyForQuery" "c_ext_session s = None" by blast
  with l have "initialize_python_session E f s = (r, t)" by (simp add: late_session_eq)
  moreover from f s have "v \<longrightarrow> c_scram s = Done" by (auto simp: starting_ok_def)
  ultimately show ?thesis using starting_initialize [OF _ s f(3)] by blast
qed

text \<open>The arms of the verifier handler: before the exchange is over, and after it.\<close>

definition early :: "'st store_ops \<Rightarrow> ('w, 'st) conn \<Rightarrow> bool" where
  "early S s \<longleftrightarrow> bare S s \<and> session_ok s \<and> c_ext_session s = None \<and> c_state s \<noteq> ReadyForQuery"

definition late :: "'st store_ops \<Rightarrow> ('w, 'st) conn \<Rightarrow> bool" where
  "late S s \<longleftrightarrow> bare S s \<and> session_ok s \<and> c_scram s = Done"

lemma starting_verifiers: "starting_ok S True s \<longleftrightarrow> early S s \<or> late S s"
  by (auto simp: starting_ok_def early_def late_def)

definition event_closed :: "(('w, 'st) conn \<Rightarrow> bool) \<Rightarrow> bool" where
  "event_closed Q \<longleftrightarrow>
     (\<forall>s w evs. Q s \<longrightarrow> quiet evs \<longrightarrow> sessionless evs \<longrightarrow> Q (s\<lparr>b_world := w, b_trace := b_trace s @ evs\<rparr>))"

lemma event_closedD:
  "event_closed Q \<Longrightarrow> Q s \<Longrightarrow> quiet evs \<Longrightarrow> sessionless evs \<Longrightarrow> Q (s\<lparr>b_world := w, b_trace := b_trace s @ evs\<rparr>)"
  by (simp add: event_closed_def)

lemma closed_early [simp]: "event_closed (early S)" and closed_late [simp]: "event_closed (late S)"
  by (auto simp: event_closed_def early_def late_def bare_def session_ok_def sessionless_def)

lemma keeps_closed_call [keeps_rules]:
  assumes "event_closed Q" and "quiet [Ev_call c True]" and "\<not> is_open c" and "\<not> is_close c"
  shows "keeps Q (call E c)"
  unfolding keeps_def
proof (intro allI impI)
  fix s assume "Q s"
  obtain r t where c: "call E c s = (r, t)" by fastforce
  then obtain w ev where "t = s\<lparr>b_world := w, b_trace := b_trace s @ [ev]\<rparr>" "quiet [ev]" "sessionless [ev]"
    by (rule call_event) (use assms in auto)
  with event_closedD [OF assms(1) \<open>Q s\<close>, of "[ev]" w] c show "Q (snd (call E c s))" by simp
qed

lemma keeps_closed_send [keeps_rules]:
  assumes "event_closed Q"
  shows "keeps Q (send E m)"
  unfolding keeps_def
proof (intro allI impI)
  fix s assume "Q s"
  obtain r t where c: "send E m s = (r, t)" by fastforce
  then show "Q (snd (send E m s))"
  proof (rule send_event)
    fix w evs assume "t = s\<lparr>b_world := w, b_trace := b_trace s @ evs\<rparr>"
      and "(evs = [Ev_send m True] \<and> r = Inr ()) \<or>
        ((evs = [] \<or> evs = [Ev_send m False]) \<and> (\<exists>e. r = Inl e \<and> clean e))"
    moreover from this(2) have "quiet evs" "sessionless evs" by auto
    ultimately show ?thesis using event_closedD [OF assms \<open>Q s\<close>, of evs w] c by simp
  qed
qed

lemma keeps_closed_draw [keeps_rules]:
  assumes "event_closed Q"
  shows "keeps Q (draw f)"
  unfolding keeps_def
proof (intro allI impI)
  fix s assume "Q s"
  obtain x w where f: "f (b_world s) = (x, w)" by fastforce
  with event_closedD [OF assms \<open>Q s\<close>, of "[]" w] show "Q (snd (draw f s))" by (simp add: draw_def)
qed

lemma keeps_closed_negotiate:
  fixes Q :: "('w, 'st) conn \<Rightarrow> bool"
  assumes "event_closed Q" and "startup_ops_ok ops"
  shows "keeps Q (pg_negotiate ops m)"
  unfolding keeps_def
proof (intro allI impI)
  fix s assume "Q s"
  obtain r t where c: "pg_negotiate ops m s = (r, t)" by fastforce
  with assms(2) obtain w evs where "t = s\<lparr>b_world := w, b_trace := b_trace s @ evs\<rparr>" and "list_all own_event evs"
    unfolding startup_ops_ok_def by metis
  with event_closedD [OF assms(1) \<open>Q s\<close>, of evs w] quiet_own sessionless_own c
  show "Q (snd (pg_negotiate ops m s))" by simp
qed

lemma keeps_any_lift [keeps_rules]: "keeps Q (lift_pg r)" "keeps Q (py_lift E x)"
  by (cases r; cases x; simp add: py_lift_def py_fail_def keeps_ret keeps_throw)+

lemma keeps_late_finish:
  fixes ops :: "('w, 'st) startup_ops"
  assumes "startup_ops_ok ops"
  shows "keeps (late S) (pg_finish ops)"
  unfolding keeps_def
proof (intro allI impI)
  fix s :: "('w, 'st) conn" assume "late S s"
  obtain r t where c: "pg_finish ops s = (r, t)" by fastforce
  with assms obtain w evs cs ts where
    "t = s\<lparr>b_world := w, b_trace := b_trace s @ evs, c_state := cs, c_status := ts\<rparr>" and "list_all own_event evs"
    unfolding startup_ops_ok_def by metis
  with \<open>late S s\<close> quiet_own [of evs] sessionless_own [of evs] c show "late S (snd (pg_finish ops s))"
    by (simp add: late_def bare_def session_ok_def sessionless_def)
qed

lemma keeps_hello:
  assumes "startup_ops_ok ops"
  shows "keeps (early S) (scram_hello E ops cfg m)" and "keeps (late S) (scram_hello E ops cfg m)"
  unfolding scram_hello_def
  by (intro keeps_rules keeps_closed_negotiate [OF _ assms] keeps_modify;
      simp add: early_def late_def bare_def session_ok_def)+

lemma keeps_start: "event_closed Q \<Longrightarrow> keeps Q (start E P ops cfg mech data)"
  unfolding start_def lookup_def Let_def
  by (intro keeps_rules) (auto split: prod.split option.split intro!: keeps_rules)

lemma keeps_first: "keeps (early S) (scram_first E P ops cfg d)"
  unfolding scram_first_def
  by (auto intro!: keeps_rules keeps_start keeps_modify split: prod.split
      simp: early_def bare_def session_ok_def)


lemma keeps_publish:
  assumes "startup_ops_ok ops"
  shows "keeps (late S) (publish E ops final)"
  unfolding publish_def register_connection_def
  by (intro keeps_rules keeps_late_finish [OF assms] keeps_modify) (simp_all add: late_def bare_def session_ok_def)

lemma starting_session_part:
  assumes "session_part E factory s = (r, t)" and "late S s" and "c_ext_session s = None"
  shows "late S t"
proof (cases factory)
  case None
  with assms show ?thesis by (simp add: session_part_def ret_def)
next
  case (Some f)
  with assms have i: "initialize_python_session E f s = (r, t)" by (simp add: session_part_def)
  have "starting_ok S False s" using assms(2) by (simp add: starting_ok_def late_def)
  from starting_initialize [OF i this assms(3)] assms(2) show ?thesis by (simp add: starting_ok_def late_def)
qed

lemma starting_final:
  assumes ops: "startup_ops_ok ops" and f: "scram_final E P ops factory ex d s = (r, t)"
    and s: "late S s" "c_ext_session s = None"
  shows "late S t"
proof (cases "\<exists>x final. pg_response ops d = Inr x \<and> verify P ex x = Inr final")
  case False
  then have "t = s"
    using f by (cases "pg_response ops d"; cases "verify P ex (projr (pg_response ops d))")
      (auto simp: scram_final_def)
  with s show ?thesis by simp
next
  case True
  then obtain x final where x: "pg_response ops d = Inr x" "verify P ex x = Inr final" by blast
  obtain sr u where sp: "session_part E factory s = (sr, u)" by fastforce
  from starting_session_part [OF sp s] have u: "late S u" .
  show ?thesis
  proof (cases sr)
    case (Inl e)
    with f x sp have "t = u" by (simp add: scram_final_def prog_simps)
    with u show ?thesis by simp
  next
    case (Inr y)
    with f x sp have "publish E ops final u = (r, t)" by (simp add: scram_final_def prog_simps)
    with keeps_publish [OF ops] u show ?thesis unfolding keeps_def by (metis snd_conv)
  qed
qed

lemma starting_scram:
  assumes ops: "startup_ops_ok ops" and m: "scram_on_startup E P ops H msg s = (r, t)" and s: "starting_ok S True s"
  shows "starting_ok S True t"
proof (cases msg)
  case (Startup_msg startup)
  with m have "snd (scram_hello E ops (sh_config H) startup s) = t" by (simp add: scram_on_startup_def)
  with s keeps_hello [OF ops] show ?thesis unfolding starting_verifiers keeps_def by blast
next
  case Other_msg
  with m s show ?thesis by (simp add: scram_on_startup_def ret_def)
next
  case (Password_msg d)
  let ?s = "s\<lparr>c_scram := Done\<rparr>"
  have l: "late S ?s" using s by (simp add: starting_ok_def late_def bare_def session_ok_def)
  have e: "c_scram s \<noteq> Done \<Longrightarrow> early S ?s"
    using s by (auto simp: starting_ok_def early_def bare_def session_ok_def)
  show ?thesis
  proof (cases "c_scram s")
    case Initial
    with m Password_msg have "snd (scram_first E P ops (sh_config H) d ?s) = t" by (simp add: scram_on_startup_def)
    with e Initial keeps_first show ?thesis unfolding starting_verifiers keeps_def by fastforce
  next
    case (ServerFirstSent ex)
    with m Password_msg have "scram_final E P ops (sh_session_factory H) ex d ?s = (r, t)"
      by (simp add: scram_on_startup_def)
    moreover have "c_ext_session ?s = None" using e ServerFirstSent by (simp add: early_def)
    ultimately show ?thesis using starting_final [OF ops _ l] unfolding starting_verifiers by blast
  next
    case Done
    with m Password_msg l show ?thesis unfolding starting_verifiers by (simp add: scram_on_startup_def throw_def)
  qed
qed

lemma scram_clean:
  assumes ops: "startup_ops_ok ops" and m: "scram_on_startup E P ops H msg s = (Inl e, t)"
  shows "clean e"
proof (cases msg)
  case (Startup_msg startup)
  with m have "scram_hello E ops (sh_config H) startup s = (Inl e, t)" by (simp add: scram_on_startup_def)
  with ops show ?thesis by (rule scram_hello_out) simp
next
  case Other_msg
  with m show ?thesis by (simp add: scram_on_startup_def ret_def)
next
  case (Password_msg d)
  show ?thesis
  proof (cases "c_scram s")
    case Initial
    with m Password_msg have "scram_first E P ops (sh_config H) d (s\<lparr>c_scram := Done\<rparr>) = (Inl e, t)"
      by (simp add: scram_on_startup_def)
    then show ?thesis by (rule scram_first_out) simp
  next
    case (ServerFirstSent ex)
    with m Password_msg have "scram_final E P ops (sh_session_factory H) ex d (s\<lparr>c_scram := Done\<rparr>) = (Inl e, t)"
      by (simp add: scram_on_startup_def)
    with ops show ?thesis by (rule scram_final_out) simp
  next
    case Done
    with m Password_msg show ?thesis by (auto simp: scram_on_startup_def throw_def)
  qed
qed

lemma starting_inner:
  assumes "startup_ops_ok ops" and G: "pg_handlers_ok G"
    and m: "inner_on_startup E P ops G (ps_inner H) msg s = (r, t)" and s: "starting_ok S (with_verifiers H) s"
  shows "starting_ok S (with_verifiers H) t \<and> (\<forall>e. r = Inl e \<longrightarrow> clean e)"
proof (cases "\<exists>h. ps_inner H = Scram_verifier_handler h")
  case True
  then obtain h where "ps_inner H = Scram_verifier_handler h" by blast
  with m s starting_scram [OF assms(1)] scram_clean [OF assms(1)] show ?thesis
    by (auto simp: with_verifiers_def inner_on_startup_def)
next
  case False
  then have v: "\<not> with_verifiers H" by (auto simp: with_verifiers_def split: startup_inner.split)
  have src: "safe (starting_ok S False) (wrapper_get_password E source login)" for source login
    unfolding wrapper_get_password_def by (rule safe_get_password)
  have "safe (starting_ok S False) (inner_on_startup E P ops G (ps_inner H) msg)"
    using False G src client_keeps_starting [of S] unfolding pg_handlers_ok_def inner_on_startup_def
    by (cases "ps_inner H") auto
  with m s v show ?thesis unfolding safe_def by (cases r) (auto dest: triple_Inl triple_Inr)
qed

lemma starting_on_startup:
  assumes "startup_ops_ok ops" and "pg_handlers_ok G"
    and m: "on_startup E P ops G H msg s = (r, t)" and s: "starting_ok S (with_verifiers H) s"
  shows "starting_ok S (with_verifiers H) t \<and> (\<forall>e. r = Inl e \<longrightarrow> clean e)"
proof (cases "ps_require_tls H \<and> is_startup msg \<and> \<not> c_secure s")
  case True
  with m s show ?thesis by (auto simp: on_startup_def throw_def)
next
  case False
  obtain ir u where i: "inner_on_startup E P ops G (ps_inner H) msg s = (ir, u)" by fastforce
  from starting_inner [OF assms(1,2) i s] have u: "starting_ok S (with_verifiers H) u" "\<forall>e. ir = Inl e \<longrightarrow> clean e" by auto
  show ?thesis
  proof (cases ir)
    case (Inl e)
    with i m False have "r = Inl e" "t = u" by (simp_all add: on_startup_def thenE_def bindE_Inl del: de_Morgan_conj)
    with u Inl show ?thesis by simp
  next
    case (Inr x)
    with i m False have "late_session E (ps_session_factory H) (snd (install_resources u)) = (r, t)"
      by (auto simp: on_startup_def install_resources_def prog_simps)
    with starting_late [OF _ starting_install [OF u(1)]] show ?thesis by blast
  qed
qed

end
