(* ===== verification/Serve_Loop.thy ===== *)
theory Serve_Loop
  imports Startup
begin

text \<open>
  The accept loop of \<open>serve\<close> in \<open>src/server.rs\<close> and its graceful shutdown, as a step relation over
  the connections in its \<open>JoinSet\<close>. A connection runs its socket until that ends or until it is told
  to stop; told to stop, it waits for the lock \<open>closing\<close> (which is fair), so a close callback that is
  running and the removal of its entry are never torn apart; then it cleans up.
\<close>

section \<open>The state\<close>

text \<open>
  A connection: \<open>Serving held\<close>, polling its socket, with the lock held or not by a handler;
  \<open>Stopping held\<close>, told to stop and queued for the lock, still polling its socket; in its cleanup;
  or finished and waiting to be joined.
\<close>

datatype task = Serving bool | Stopping bool | Cleaning | Finished

datatype phase = Accepting | Draining | Ended "py_err + unit" | Cancelled

text \<open>The ghost counters count the connections accepted, cleaned up by their own task, and dropped
  before that together with the loop (then the destructor of their resources cleans up).\<close>

record server =
  sl_phase :: phase
  sl_stop :: bool
  sl_tasks :: "task list"
  sl_accepted :: nat
  sl_cleaned :: nat
  sl_dropped :: nat

definition unclean :: "task \<Rightarrow> bool" where
  "unclean t \<longleftrightarrow> t \<noteq> Finished"

text \<open>After the listener is bound.\<close>

definition server_start :: server where
  "server_start =
     \<lparr>sl_phase = Accepting, sl_stop = False, sl_tasks = [], sl_accepted = 0, sl_cleaned = 0, sl_dropped = 0\<rparr>"

text \<open>Binding the listener: \<open>bind\<close> is the operating system's, \<open>show_addr\<close> prints an address.\<close>

definition serve_bind :: "('addr \<Rightarrow> string + unit) \<Rightarrow> ('addr \<Rightarrow> string) \<Rightarrow> 'addr \<Rightarrow> py_err + server" where
  "serve_bind bind show_addr addr =
     (case bind addr of
        Inl e \<Rightarrow> Inl (New_err Py_OSError (''bind '' @ show_addr addr @ '' failed: '' @ e))
      | Inr _ \<Rightarrow> Inr server_start)"

text \<open>The test helper that learns a free port: it binds one, reads the address and releases the listener.\<close>

definition bind_ephemeral :: "(string \<Rightarrow> string + 'l) \<Rightarrow> ('l \<Rightarrow> string + 'a) \<Rightarrow> ('a \<Rightarrow> u16) \<Rightarrow> py_err + u16" where
  "bind_ephemeral bind local_addr port_of =
     (case bind ''127.0.0.1:0'' of
        Inl e \<Rightarrow> Inl (New_err Py_OSError (''bind failed: '' @ e))
      | Inr listener \<Rightarrow>
          (case local_addr listener of
             Inl e \<Rightarrow> Inl (New_err Py_OSError e)
           | Inr addr \<Rightarrow> Inr (port_of addr)))"

text \<open>The loop returns early or is cancelled: the \<open>JoinSet\<close> is dropped and aborts its tasks.\<close>

definition abandon :: "phase \<Rightarrow> server \<Rightarrow> server" where
  "abandon p s = s\<lparr>sl_phase := p, sl_tasks := [], sl_dropped := sl_dropped s + length (filter unclean (sl_tasks s))\<rparr>"

text \<open>What the accept loop does with an accepted socket.\<close>

definition accepted ::
  "py_runtime \<Rightarrow> (bytes \<Rightarrow> pgwire_error + unit) \<Rightarrow> handler_config \<Rightarrow> server \<Rightarrow> server" where
  "accepted r configure cfg s =
     (case build configure cfg of
        Inr handlers \<Rightarrow> s\<lparr>sl_tasks := sl_tasks s @ [Serving False], sl_accepted := Suc (sl_accepted s)\<rparr>
      | Inl (Pg error) \<Rightarrow> abandon (Ended (Inl (New_err Py_RuntimeError (rt_display r error)))) s
      | Inl _ \<Rightarrow> abandon Cancelled s)"

section \<open>The steps\<close>

text \<open>Steps of one connection, given whether the server was told to stop; the second relation is the
  lock of a connection that has not been told, taken and released by its handlers.\<close>

inductive task_step :: "bool \<Rightarrow> task \<Rightarrow> task \<Rightarrow> bool" where
  socket_end: "task_step stop (Serving False) Cleaning"
| told: "task_step True (Serving held) (Stopping held)"
| release: "task_step stop (Stopping True) (Stopping False)"
| closing_free: "task_step stop (Stopping False) Cleaning"
| cleaned: "task_step stop Cleaning Finished"

inductive lock_step :: "task \<Rightarrow> task \<Rightarrow> bool" where
  lock: "lock_step (Serving False) (Serving True)"
| unlock: "lock_step (Serving True) (Serving False)"

definition ran :: "nat \<Rightarrow> task \<Rightarrow> server \<Rightarrow> server" where
  "ran i t s = s\<lparr>sl_tasks := (sl_tasks s)[i := t], sl_cleaned := sl_cleaned s + (if t = Finished then 1 else 0)\<rparr>"

definition joined :: "nat \<Rightarrow> server \<Rightarrow> server" where
  "joined i s = s\<lparr>sl_tasks := take i (sl_tasks s) @ drop (Suc i) (sl_tasks s)\<rparr>"

definition live :: "server \<Rightarrow> bool" where
  "live s \<longleftrightarrow> sl_phase s = Accepting \<or> sl_phase s = Draining"

text \<open>The steps of the server that a drain consists of.\<close>

inductive drain_step :: "server \<Rightarrow> server \<Rightarrow> bool" where
  task: "live s \<Longrightarrow> i < length (sl_tasks s) \<Longrightarrow> task_step (sl_stop s) (sl_tasks s ! i) t \<Longrightarrow>
    drain_step s (ran i t s)"
| join: "live s \<Longrightarrow> i < length (sl_tasks s) \<Longrightarrow> sl_tasks s ! i = Finished \<Longrightarrow> drain_step s (joined i s)"
| finish: "sl_phase s = Draining \<Longrightarrow> sl_tasks s = [] \<Longrightarrow> drain_step s (s\<lparr>sl_phase := Ended (Inr ())\<rparr>)"

inductive serve_step ::
  "py_runtime \<Rightarrow> (bytes \<Rightarrow> pgwire_error + unit) \<Rightarrow> handler_config \<Rightarrow> server \<Rightarrow> server \<Rightarrow> bool"
  for r configure cfg where
  drain: "drain_step s t \<Longrightarrow> serve_step r configure cfg s t"
| closing: "live s \<Longrightarrow> i < length (sl_tasks s) \<Longrightarrow> lock_step (sl_tasks s ! i) t \<Longrightarrow>
    serve_step r configure cfg s (ran i t s)"
| accept: "sl_phase s = Accepting \<Longrightarrow> serve_step r configure cfg s (accepted r configure cfg s)"
| accept_failed: "sl_phase s = Accepting \<Longrightarrow>
    serve_step r configure cfg s (abandon (Ended (Inl (New_err Py_OSError (''accept failed: '' @ e)))) s)"
| shutdown: "sl_phase s = Accepting \<Longrightarrow>
    serve_step r configure cfg s (s\<lparr>sl_phase := Draining, sl_stop := True\<rparr>)"
| shutdown_failed: "sl_phase s = Accepting \<Longrightarrow> serve_step r configure cfg s (abandon (Ended (Inl err)) s)"
| cancel: "live s \<Longrightarrow> serve_step r configure cfg s (abandon Cancelled s)"

inductive_cases task_stepE: "task_step stop t u"
inductive_simps task_step_finished [simp]: "task_step stop Finished u"
inductive_simps lock_step_simps: "lock_step t u"
inductive_cases drain_stepE: "drain_step s t"

section \<open>Every connection is accounted for\<close>

definition server_inv :: "server \<Rightarrow> bool" where
  "server_inv s \<longleftrightarrow>
     sl_accepted s = sl_cleaned s + sl_dropped s + length (filter unclean (sl_tasks s)) \<and>
     (live s \<longrightarrow> sl_dropped s = 0) \<and> (sl_stop s \<longleftrightarrow> sl_phase s = Draining \<or> sl_stop s \<and> \<not> live s) \<and>
     (\<not> live s \<longrightarrow> sl_tasks s = []) \<and> (sl_phase s = Ended (Inr ()) \<longrightarrow> sl_dropped s = 0)"

lemma live_simps [simp]:
  "sl_phase s = Accepting \<Longrightarrow> live s" "sl_phase s = Draining \<Longrightarrow> live s"
  "sl_phase s = Ended r \<Longrightarrow> \<not> live s" "sl_phase s = Cancelled \<Longrightarrow> \<not> live s"
  by (simp_all add: live_def)

lemma unclean_simps [simp]:
  "unclean (Serving h)" "unclean (Stopping h)" "unclean Cleaning" "\<not> unclean Finished"
  by (simp_all add: unclean_def)

lemma length_filter_update:
  "i < length xs \<Longrightarrow>
   length (filter P (xs[i := x])) + (if P (xs ! i) then 1 else 0) = length (filter P xs) + (if P x then 1 else 0)"
proof (induction xs arbitrary: i)
  case (Cons y ys)
  then show ?case by (cases i) auto
qed simp

lemma length_filter_drop_one:
  assumes "i < length xs" and "\<not> P (xs ! i)"
  shows "length (filter P (take i xs @ drop (Suc i) xs)) = length (filter P xs)"
proof -
  have "filter P xs = filter P (take i xs @ xs ! i # drop (Suc i) xs)"
    using assms(1) by (simp add: id_take_nth_drop [symmetric])
  with assms(2) show ?thesis by simp
qed

lemma task_step_unclean: "task_step stop t u \<Longrightarrow> unclean t"
  by (auto elim: task_step.cases)

lemma lock_step_unclean: "lock_step t u \<Longrightarrow> unclean t \<and> unclean u"
  by (auto elim: lock_step.cases)

lemma server_inv_ran:
  assumes "server_inv s" and "live s" and "i < length (sl_tasks s)" and "unclean (sl_tasks s ! i)"
  shows "server_inv (ran i t s)"
proof -
  have "length (filter unclean ((sl_tasks s)[i := t])) + 1 =
      length (filter unclean (sl_tasks s)) + (if unclean t then 1 else 0)"
    using length_filter_update [OF assms(3), of unclean t] assms(4) by simp
  with assms(1,2) show ?thesis
    by (auto simp: server_inv_def ran_def live_def unclean_def split: if_splits)
qed

lemma server_inv_abandon: "server_inv s \<Longrightarrow> live s \<Longrightarrow> p = Cancelled \<or> (\<exists>e. p = Ended (Inl e)) \<Longrightarrow> server_inv (abandon p s)"
  by (auto simp: server_inv_def abandon_def live_def)

lemma server_inv_drain: "drain_step s t \<Longrightarrow> server_inv s \<Longrightarrow> server_inv t"
proof (induction rule: drain_step.induct)
  case (task s i t)
  then show ?case by (intro server_inv_ran) (auto dest: task_step_unclean)
next
  case (join s i)
  then have "length (filter unclean (take i (sl_tasks s) @ drop (Suc i) (sl_tasks s))) = length (filter unclean (sl_tasks s))"
    by (intro length_filter_drop_one) simp_all
  with join show ?case by (auto simp: server_inv_def joined_def live_def)
next
  case (finish s)
  then show ?case by (auto simp: server_inv_def live_def)
qed

lemma server_inv_step: "serve_step r configure cfg s t \<Longrightarrow> server_inv s \<Longrightarrow> server_inv t"
proof (induction rule: serve_step.induct)
  case (drain s t)
  then show ?case by (rule server_inv_drain)
next
  case (closing s i t)
  then show ?case by (intro server_inv_ran) (auto dest: lock_step_unclean)
next
  case (accept s)
  then show ?case
    by (auto simp: accepted_def server_inv_def live_def abandon_def split: sum.split failure.split)
next
  case (accept_failed s e)
  then show ?case by (intro server_inv_abandon) auto
next
  case (shutdown s)
  then show ?case by (auto simp: server_inv_def live_def)
next
  case (shutdown_failed s err)
  then show ?case by (intro server_inv_abandon) auto
next
  case (cancel s)
  then show ?case by (intro server_inv_abandon) auto
qed

lemma server_inv_reachable:
  assumes "(serve_step r configure cfg)\<^sup>*\<^sup>* server_start s"
  shows "server_inv s"
  using assms
proof (induction rule: rtranclp_induct)
  case base
  show ?case by (simp add: server_inv_def server_start_def live_def)
next
  case (step t u)
  then show ?case by (blast intro: server_inv_step)
qed

section \<open>A drain ends\<close>

fun weight :: "task \<Rightarrow> nat" where
  "weight (Serving h) = 5"
| "weight (Stopping h) = (if h then 4 else 3)"
| "weight Cleaning = 2"
| "weight Finished = 1"

definition drain_measure :: "server \<Rightarrow> nat" where
  "drain_measure s = sum_list (map weight (sl_tasks s)) + (if live s then 1 else 0)"

lemma sum_list_update_weight:
  "i < length xs \<Longrightarrow> sum_list (map weight (xs[i := x])) + weight (xs ! i) = sum_list (map weight xs) + weight x"
proof (induction xs arbitrary: i)
  case (Cons y ys)
  show ?case
  proof (cases i)
    case (Suc j)
    with Cons.IH [of j] Cons.prems show ?thesis by simp
  qed simp
qed simp

lemma sum_list_drop_one:
  "i < length xs \<Longrightarrow> sum_list (map weight (take i xs @ drop (Suc i) xs)) + weight (xs ! i) = sum_list (map weight xs)"
proof -
  assume "i < length xs"
  then have "sum_list (map weight xs) = sum_list (map weight (take i xs @ xs ! i # drop (Suc i) xs))"
    by (simp add: id_take_nth_drop [symmetric])
  then show ?thesis by simp
qed

lemma task_step_weight: "task_step stop t u \<Longrightarrow> weight u < weight t"
  by (induction rule: task_step.induct) auto

lemma drain_step_less: "drain_step s t \<Longrightarrow> drain_measure t < drain_measure s"
proof (induction rule: drain_step.induct)
  case (task s i t)
  from sum_list_update_weight [OF task(2), of t] task_step_weight [OF task(3)] task(1)
  show ?case by (simp add: drain_measure_def ran_def live_def)
next
  case (join s i)
  from sum_list_drop_one [OF join(2)] join show ?case by (simp add: drain_measure_def joined_def live_def)
next
  case (finish s)
  then show ?case by (simp add: drain_measure_def live_def)
qed

lemma drain_step_count: "(drain_step ^^ n) s t \<Longrightarrow> n + drain_measure t \<le> drain_measure s"
proof (induction n arbitrary: t)
  case (Suc n)
  then obtain u where "(drain_step ^^ n) s u" "drain_step u t" by auto
  with Suc.IH [of u] drain_step_less [of u t] show ?case by simp
qed simp

text \<open>Steps that a client makes by ending its connection; the shutdown must not depend on them.\<close>

definition hung_up :: "server \<Rightarrow> server \<Rightarrow> bool" where
  "hung_up s t \<longleftrightarrow> (\<exists>i<length (sl_tasks s). sl_tasks s ! i = Serving False \<and> t = ran i Cleaning s)"

lemma hung_up_ran:
  assumes "i < length (sl_tasks s)" and "hung_up s (ran i t s)"
  shows "sl_tasks s ! i = Serving False \<and> t = Cleaning"
proof -
  from assms(2) obtain j where j: "j < length (sl_tasks s)" "sl_tasks s ! j = Serving False"
    and ran: "ran i t s = ran j Cleaning s"
    by (auto simp: hung_up_def)
  have eq: "(sl_tasks s)[i := t] = (sl_tasks s)[j := Cleaning]"
    using arg_cong [OF ran, of sl_tasks] by (simp add: ran_def)
  from arg_cong [OF eq, of "\<lambda>xs. xs ! j"] j have "i = j"
    by (cases "i = j") simp_all
  with arg_cong [OF eq, of "\<lambda>xs. xs ! i"] j show ?thesis by simp
qed

lemma hung_up_joined: "i < length (sl_tasks s) \<Longrightarrow> \<not> hung_up s (joined i s)"
proof
  assume i: "i < length (sl_tasks s)" and "hung_up s (joined i s)"
  then have "length (sl_tasks (joined i s)) = length (sl_tasks s)" by (auto simp: hung_up_def ran_def)
  with i show False by (simp add: joined_def)
qed

lemma task_progress:
  obtains "t = Finished" | u where "task_step True t u" "t = Serving False \<longrightarrow> u \<noteq> Cleaning"
proof (cases t)
  case (Serving h)
  then show ?thesis using that(2) [of "Stopping h"] by (auto intro: task_step.intros)
next
  case (Stopping h)
  then show ?thesis
    using that(2) [of "Stopping False"] that(2) [of Cleaning] by (cases h) (auto intro: task_step.intros)
qed (use that task_step.cleaned in blast)+

text \<open>Until it has ended, a draining server has a step to make, whatever its clients do.\<close>

lemma drain_progress:
  assumes "server_inv s" and "sl_phase s = Draining"
  shows "\<exists>t. drain_step s t \<and> \<not> hung_up s t"
proof (cases "sl_tasks s")
  case Nil
  with assms(2) drain_step.finish show ?thesis by (auto simp: hung_up_def)
next
  case (Cons x xs)
  have stop: "sl_stop s" using assms by (auto simp: server_inv_def)
  have l: "live s" "0 < length (sl_tasks s)" "sl_tasks s ! 0 = x" using assms(2) Cons by simp_all
  show ?thesis
  proof (cases x rule: task_progress)
    case 1
    with l drain_step.join hung_up_joined show ?thesis by blast
  next
    case (2 u)
    with l stop have "drain_step s (ran 0 u s)" by (intro drain_step.task) simp_all
    moreover have "\<not> hung_up s (ran 0 u s)" using hung_up_ran [OF l(2), of u] l(3) 2(2) by blast
    ultimately show ?thesis by blast
  qed
qed

lemma drain_phases:
  "drain_step\<^sup>*\<^sup>* s t \<Longrightarrow> sl_phase s = Draining \<Longrightarrow> sl_phase t = Draining \<or> sl_phase t = Ended (Inr ())"
proof (induction rule: rtranclp_induct)
  case (step t u)
  then show ?case by (auto elim!: drain_stepE simp: ran_def joined_def live_def)
qed simp

lemma drain_reachable:
  "drain_step\<^sup>*\<^sup>* s t \<Longrightarrow> server_inv s \<Longrightarrow> server_inv t"
  by (induction rule: rtranclp_induct) (auto intro: server_inv_drain)

section \<open>Properties\<close>

text \<open>The accept loop loses no connection: in every state it can reach, each accepted connection is
  still in its set, was cleaned up by its own task, or was dropped with the loop, which happens only
  when the loop fails or is cancelled. When \<open>serve\<close> returns without an error, every connection it
  ever accepted has finished its cleanup.\<close>

theorem every_connection_cleaned:
  assumes "(serve_step r configure cfg)\<^sup>*\<^sup>* server_start s"
  shows "sl_accepted s = sl_cleaned s + sl_dropped s + length (filter unclean (sl_tasks s)) \<and>
    (live s \<longrightarrow> sl_dropped s = 0) \<and>
    (sl_phase s = Ended (Inr ()) \<longrightarrow> sl_tasks s = [] \<and> sl_cleaned s = sl_accepted s)"
  using server_inv_reachable [OF assms] by (auto simp: server_inv_def)

text \<open>A shutdown ends: once it was requested, the steps that end, clean up and join connections can
  be made at most as often as the connections left allow (five times for each, and once to return),
  whatever their order; the handlers taking and releasing locks in between do not add to that; and
  when none of these steps is left but those in which a client hangs up, \<open>serve\<close> has returned without
  an error and every connection is clean: a shutdown never waits for a client.\<close>

theorem shutdown_terminates:
  assumes "(serve_step r configure cfg)\<^sup>*\<^sup>* server_start s" and "sl_phase s = Draining"
  shows "(\<forall>n t. (drain_step ^^ n) s t \<longrightarrow> n \<le> 5 * length (sl_tasks s) + 1) \<and>
    (\<forall>i t. i < length (sl_tasks s) \<longrightarrow> lock_step (sl_tasks s ! i) t \<longrightarrow> drain_measure (ran i t s) = drain_measure s) \<and>
    (\<forall>t. drain_step\<^sup>*\<^sup>* s t \<longrightarrow> (\<forall>u. drain_step t u \<longrightarrow> hung_up t u) \<longrightarrow>
       sl_phase t = Ended (Inr ()) \<and> sl_cleaned t = sl_accepted t)"
proof (intro conjI allI impI)
  fix n t assume "(drain_step ^^ n) s t"
  then have "n \<le> drain_measure s" using drain_step_count by force
  moreover have "weight x \<le> 5" for x by (cases x) simp_all
  then have "sum_list (map weight (sl_tasks s)) \<le> 5 * length (sl_tasks s)"
    by (induction "sl_tasks s") (use sum_list_mono [of "sl_tasks s" weight "\<lambda>_. 5"] in \<open>simp_all add: sum_list_triv\<close>)
  ultimately show "n \<le> 5 * length (sl_tasks s) + 1" using assms(2) by (simp add: drain_measure_def)
next
  fix i t assume i: "i < length (sl_tasks s)" and "lock_step (sl_tasks s ! i) t"
  then have "weight t = weight (sl_tasks s ! i)" by (auto simp: lock_step_simps)
  with sum_list_update_weight [OF i, of t] assms(2) show "drain_measure (ran i t s) = drain_measure s"
    by (simp add: drain_measure_def ran_def live_def)
next
  fix t assume run: "drain_step\<^sup>*\<^sup>* s t" and stuck: "\<forall>u. drain_step t u \<longrightarrow> hung_up t u"
  have inv: "server_inv t" using drain_reachable [OF run] server_inv_reachable [OF assms(1)] by blast
  with stuck drain_progress drain_phases [OF run assms(2)] have "sl_phase t = Ended (Inr ())" by blast
  with inv show "sl_phase t = Ended (Inr ())" and "sl_cleaned t = sl_accepted t" by (simp_all add: server_inv_def)
qed

section \<open>A concrete shutdown\<close>

text \<open>A server with two connections, one of which is in a protocol close when the shutdown comes.\<close>

definition busy_server :: server where
  "busy_server =
     \<lparr>sl_phase = Draining, sl_stop = True, sl_tasks = [Serving True, Serving False], sl_accepted = 2,
      sl_cleaned = 0, sl_dropped = 0\<rparr>"

lemma busy_reachable:
  "(serve_step sample_runtime (\<lambda>_. Inr ()) verifier_cfg)\<^sup>*\<^sup>* server_start busy_server"
proof -
  let ?step = "serve_step sample_runtime (\<lambda>_. Inr ()) verifier_cfg"
  let ?s1 = "server_start\<lparr>sl_tasks := [Serving False], sl_accepted := 1\<rparr>"
  let ?s2 = "server_start\<lparr>sl_tasks := [Serving False, Serving False], sl_accepted := 2\<rparr>"
  let ?s3 = "ran 0 (Serving True) ?s2"
  have b: "accepted sample_runtime (\<lambda>_. Inr ()) verifier_cfg s =
      s\<lparr>sl_tasks := sl_tasks s @ [Serving False], sl_accepted := Suc (sl_accepted s)\<rparr>" for s
    by (simp add: accepted_def build_def build_inner_def verifier_cfg_def)
  have "?step server_start (accepted sample_runtime (\<lambda>_. Inr ()) verifier_cfg server_start)"
    by (rule serve_step.accept) (simp add: server_start_def)
  then have 1: "?step server_start ?s1" by (simp add: b server_start_def)
  have "?step ?s1 (accepted sample_runtime (\<lambda>_. Inr ()) verifier_cfg ?s1)"
    by (rule serve_step.accept) (simp add: server_start_def)
  then have 2: "?step ?s1 ?s2" by (simp add: b server_start_def numeral_2_eq_2)
  have 3: "?step ?s2 ?s3"
    by (rule serve_step.closing) (simp_all add: live_def server_start_def lock_step.lock)
  have "?step ?s3 (?s3\<lparr>sl_phase := Draining, sl_stop := True\<rparr>)"
    by (rule serve_step.shutdown) (simp add: ran_def server_start_def)
  then have 4: "?step ?s3 busy_server" by (simp add: ran_def server_start_def busy_server_def)
  from 1 2 3 4 show ?thesis by (meson rtranclp.intros)
qed

lemma every_connection_cleaned_witness:
  "2 = sl_cleaned busy_server + sl_dropped busy_server + length (filter unclean (sl_tasks busy_server))"
proof -
  have "sl_accepted busy_server = 2" by (simp add: busy_server_def)
  with every_connection_cleaned [OF busy_reachable] show ?thesis by simp
qed

text \<open>The same server after its drain: both connections have been cleaned up and joined.\<close>

definition drained_server :: server where
  "drained_server =
     \<lparr>sl_phase = Ended (Inr ()), sl_stop = True, sl_tasks = [], sl_accepted = 2, sl_cleaned = 2, sl_dropped = 0\<rparr>"

abbreviation draining :: "task list \<Rightarrow> nat \<Rightarrow> server" where
  "draining ts n \<equiv>
     \<lparr>sl_phase = Draining, sl_stop = True, sl_tasks = ts, sl_accepted = 2, sl_cleaned = n, sl_dropped = 0\<rparr>"

lemma draining_run:
  assumes "i < length ts" and "task_step True (ts ! i) t"
  shows "drain_step (draining ts n) (draining (ts[i := t]) (n + (if t = Finished then 1 else 0)))"
  using drain_step.task [of "draining ts n" i t] assms by (simp add: ran_def)

lemma draining_join:
  assumes "i < length ts" and "ts ! i = Finished"
  shows "drain_step (draining ts n) (draining (take i ts @ drop (Suc i) ts) n)"
  using drain_step.join [of "draining ts n" i] assms by (simp add: joined_def)

lemma busy_drains: "drain_step\<^sup>*\<^sup>* busy_server drained_server"
proof -
  have "drain_step (draining [Serving True, t] n) (draining [Stopping True, t] n)" for t n
    using draining_run [of 0 "[Serving True, t]" "Stopping True" n] by (simp add: task_step.told)
  moreover have "drain_step (draining [Stopping True, t] n) (draining [Stopping False, t] n)" for t n
    using draining_run [of 0 "[Stopping True, t]" "Stopping False" n] by (simp add: task_step.release)
  moreover have "drain_step (draining [Stopping False, t] n) (draining [Cleaning, t] n)" for t n
    using draining_run [of 0 "[Stopping False, t]" Cleaning n] by (simp add: task_step.closing_free)
  moreover have "drain_step (draining [Cleaning, t] n) (draining [Finished, t] (Suc n))" for t n
    using draining_run [of 0 "[Cleaning, t]" Finished n] by (simp add: task_step.cleaned)
  moreover have "drain_step (draining [Finished, t] n) (draining [t] n)" for t n
    using draining_join [of 0 "[Finished, t]" n] by simp
  moreover have "drain_step (draining [Serving False] n) (draining [Cleaning] n)" for n
    using draining_run [of 0 "[Serving False]" Cleaning n] by (simp add: task_step.socket_end)
  moreover have "drain_step (draining [Cleaning] n) (draining [Finished] (Suc n))" for n
    using draining_run [of 0 "[Cleaning]" Finished n] by (simp add: task_step.cleaned)
  moreover have "drain_step (draining [Finished] n) (draining [] n)" for n
    using draining_join [of 0 "[Finished]" n] by simp
  moreover have "drain_step (draining [] 2) drained_server"
    using drain_step.finish [of "draining [] 2"] by (simp add: drained_server_def)
  ultimately show ?thesis unfolding busy_server_def numeral_2_eq_2
    by (meson converse_rtranclp_into_rtranclp rtranclp.rtrancl_refl)
qed

lemma shutdown_terminates_witness:
  "(\<nexists>t. (drain_step ^^ 12) busy_server t) \<and>
   drain_step\<^sup>*\<^sup>* busy_server drained_server \<and> sl_cleaned drained_server = sl_accepted drained_server"
proof -
  have b: "sl_phase busy_server = Draining" "length (sl_tasks busy_server) = 2" by (simp_all add: busy_server_def)
  have "\<nexists>u. drain_step drained_server u" by (auto simp: drained_server_def live_def elim: drain_stepE)
  with shutdown_terminates [OF busy_reachable b(1)] b(2) busy_drains show ?thesis by fastforce
qed

end
