(* ===== verification/Live_Server.thy ===== *)
theory Live_Server
  imports Sessions Serve_Loop
begin

text \<open>
  The whole server of \<open>src/server.rs\<close>: the accept loop with the connections in it. Where the theory
  Serve_Loop knows of a connection only its phase, here it is the state of its handlers, from the
  first message of the client over its requests to the cleanup, as the task that \<open>serve\<close> spawns
  runs them. The loop of Serve_Loop is the abstract specification that this server refines, and what
  holds of a single connection is put together to what holds when \<open>serve\<close> returns.
\<close>

section \<open>The parts of a running server\<close>

text \<open>What a server is made of: Python with the sockets, the cryptography, pgwire's parts, and the
  configuration that \<open>serve\<close> accepted.\<close>

record ('w, 'st) deployment =
  dp_env :: "'w py_env"
  dp_prims :: scram_prims
  dp_ops :: "('w, 'st) startup_ops"
  dp_pg :: "('w, 'st) pg_handlers"
  dp_store :: "'st store_ops"
  dp_on_query :: "('w, 'st) pg_on_query"
  dp_configure :: "bytes \<Rightarrow> pgwire_error + unit"
  dp_config :: handler_config

definition deployment_ok :: "('w, 'st) deployment \<Rightarrow> bool" where
  "deployment_ok D \<longleftrightarrow>
     portal_store (dp_store D) \<and> hash_order_ok (dp_env D) \<and> pg_on_query_ok (dp_on_query D) \<and>
     startup_ops_ok (dp_ops D) \<and> pg_handlers_ok (dp_pg D)"

definition handlers :: "('w, 'st) deployment \<Rightarrow> failure + startup_handler" where
  "handlers D = build (dp_configure D) (dp_config D)"

text \<open>The startup handler and the request handlers of a connection, and pgwire's own steps on it.\<close>

definition greet :: "('w, 'st) deployment \<Rightarrow> startup_handler \<Rightarrow> frontend_msg \<Rightarrow> ('w, 'st, unit) handler" where
  "greet D H m = on_startup (dp_env D) (dp_prims D) (dp_ops D) (dp_pg D) H m"

definition answer :: "('w, 'st) deployment \<Rightarrow> request \<Rightarrow> ('w, 'st, unit) handler" where
  "answer D req = handle (dp_env D) (dp_store D) (hc_extended_query (dp_config D)) (hc_simple_query (dp_config D))
     (dp_on_query D) req"

definition between :: "('w, 'st) deployment \<Rightarrow> ('w, 'st) conn \<Rightarrow> ('w, 'st) conn \<Rightarrow> bool" where
  "between D s t = conn_step (dp_env D) (dp_store D) (hc_extended_query (dp_config D)) (hc_simple_query (dp_config D))
     (dp_on_query D) s t"

section \<open>The task of a connection\<close>

text \<open>A connection before its first request, one that answers requests, one whose socket task is over
  and whose resources are cleaned up, one that is through, and one whose handler has panicked or
  waits for itself.\<close>

datatype ('w, 'st) life =
    Greeting "('w, 'st) conn"
  | Answering "('w, 'st) conn"
  | Leaving "('w, 'st) conn"
  | Gone "('w, 'st) conn"
  | Crashed "('w, 'st) conn"

definition crash :: "failure + unit \<Rightarrow> bool" where
  "crash r \<longleftrightarrow> r = Inl Panic \<or> r = Inl Deadlock"

text \<open>The resources of a new connection are new.\<close>

definition newborn :: "'st store_ops \<Rightarrow> ('w, 'st) conn \<Rightarrow> bool" where
  "newborn S c \<longleftrightarrow> fresh c \<and> bare S c \<and> \<not> c_installed c \<and> c_ext_session c = None \<and> c_session c = None"

text \<open>The steps a task makes on its own when it is told to stop, and all its steps.\<close>

inductive own_step :: "('w, 'st) deployment \<Rightarrow> bool \<Rightarrow> ('w, 'st) life \<Rightarrow> ('w, 'st) life \<Rightarrow> bool"
  for D stop where
  told: "stop \<Longrightarrow> l = Greeting s \<or> l = Answering s \<Longrightarrow> own_step D stop l (Leaving s)"
| cleaned: "cleanup (dp_env D) s = (r, t) \<Longrightarrow> own_step D stop (Leaving s) (Gone t)"

inductive life_step :: "('w, 'st) deployment \<Rightarrow> bool \<Rightarrow> ('w, 'st) life \<Rightarrow> ('w, 'st) life \<Rightarrow> bool"
  for D stop where
  own: "own_step D stop l l' \<Longrightarrow> life_step D stop l l'"
| message: "handlers D = Inr H \<Longrightarrow> greet D H m s = (r, t) \<Longrightarrow> \<not> crash r \<Longrightarrow>
    life_step D stop (Greeting s) (Greeting t)"
| waiting: "life_step D stop (Greeting s) (Greeting (s\<lparr>b_world := w\<rparr>))"
| ready: "c_installed s \<Longrightarrow> c_state s = ReadyForQuery \<Longrightarrow> life_step D stop (Greeting s) (Answering s)"
| request: "answer D req s = (r, t) \<Longrightarrow> \<not> crash r \<Longrightarrow> life_step D stop (Answering s) (Answering t)"
| pgwire: "between D s t \<Longrightarrow> life_step D stop (Answering s) (Answering t)"
| greeting_crash: "handlers D = Inr H \<Longrightarrow> greet D H m s = (r, t) \<Longrightarrow> crash r \<Longrightarrow>
    life_step D stop (Greeting s) (Crashed t)"
| request_crash: "answer D req s = (r, t) \<Longrightarrow> crash r \<Longrightarrow> life_step D stop (Answering s) (Crashed t)"
| hang_up: "l = Greeting s \<or> l = Answering s \<Longrightarrow> life_step D stop l (Leaving s)"

section \<open>The loop\<close>

text \<open>The event \<open>_shutdown\<close> of Python, if \<open>serve\<close> was given one, is shared with the loop: whether it is set
  is \<open>lv_event\<close>.\<close>

record ('w, 'st) live_server =
  lv_phase :: phase
  lv_event :: "bool option"
  lv_stop :: bool
  lv_tasks :: "('w, 'st) life list"
  lv_accepted :: nat
  lv_done :: "('w, 'st) conn list"
  lv_lost :: "('w, 'st) conn list"

definition live_start :: "bool option \<Rightarrow> ('w, 'st) live_server" where
  "live_start e =
     \<lparr>lv_phase = Accepting, lv_event = e, lv_stop = False, lv_tasks = [], lv_accepted = 0, lv_done = [], lv_lost = []\<rparr>"

definition running :: "('w, 'st) live_server \<Rightarrow> bool" where
  "running v \<longleftrightarrow> lv_phase v = Accepting \<or> lv_phase v = Draining"

text \<open>The loop ends early: the tasks are aborted, and what they held is dropped on the runtime, except
  that a cleanup that has begun runs in a task of its own and goes on.\<close>

fun is_gone :: "('w, 'st) life \<Rightarrow> bool" where
  "is_gone (Gone s) \<longleftrightarrow> True"
| "is_gone _ \<longleftrightarrow> False"

fun last_state :: "'w py_env \<Rightarrow> ('w, 'st) life \<Rightarrow> ('w, 'st) conn" where
  "last_state E (Greeting s) = snd (drop_portals E True s)"
| "last_state E (Answering s) = snd (drop_portals E True s)"
| "last_state E (Crashed s) = snd (drop_portals E True s)"
| "last_state E (Leaving s) = snd (cleanup E s)"
| "last_state E (Gone s) = s"

definition give_up :: "'w py_env \<Rightarrow> phase \<Rightarrow> ('w, 'st) live_server \<Rightarrow> ('w, 'st) live_server" where
  "give_up E p v =
     v\<lparr>lv_phase := p, lv_tasks := [],
       lv_done := lv_done v @ map (last_state E) (filter is_gone (lv_tasks v)),
       lv_lost := lv_lost v @ map (last_state E) (filter (\<lambda>l. \<not> is_gone l) (lv_tasks v))\<rparr>"

definition admit :: "('w, 'st) deployment \<Rightarrow> ('w, 'st) conn \<Rightarrow> ('w, 'st) live_server \<Rightarrow> ('w, 'st) live_server" where
  "admit D c v =
     (case handlers D of
        Inr H \<Rightarrow> v\<lparr>lv_tasks := lv_tasks v @ [Greeting c], lv_accepted := Suc (lv_accepted v)\<rparr>
      | Inl (Pg error) \<Rightarrow>
          give_up (dp_env D) (Ended (Inl (New_err Py_RuntimeError (rt_display (rt (dp_env D)) error)))) v
      | Inl _ \<Rightarrow> give_up (dp_env D) Cancelled v)"

text \<open>The steps a shutdown consists of, and the steps of the server itself: waiting for the event may
  raise, and without one \<open>serve\<close> waits for nothing.\<close>

inductive wind_down :: "('w, 'st) deployment \<Rightarrow> ('w, 'st) live_server \<Rightarrow> ('w, 'st) live_server \<Rightarrow> bool"
  for D where
  task: "running v \<Longrightarrow> i < length (lv_tasks v) \<Longrightarrow> own_step D (lv_stop v) (lv_tasks v ! i) l \<Longrightarrow>
    wind_down D v (v\<lparr>lv_tasks := (lv_tasks v)[i := l]\<rparr>)"
| join: "running v \<Longrightarrow> i < length (lv_tasks v) \<Longrightarrow> lv_tasks v ! i = Gone s \<Longrightarrow>
    wind_down D v (v\<lparr>lv_tasks := take i (lv_tasks v) @ drop (Suc i) (lv_tasks v), lv_done := lv_done v @ [s]\<rparr>)"
| finish: "lv_phase v = Draining \<Longrightarrow> lv_tasks v = [] \<Longrightarrow> wind_down D v (v\<lparr>lv_phase := Ended (Inr ())\<rparr>)"

inductive server_step :: "('w, 'st) deployment \<Rightarrow> ('w, 'st) live_server \<Rightarrow> ('w, 'st) live_server \<Rightarrow> bool"
  for D where
  wind: "wind_down D v u \<Longrightarrow> server_step D v u"
| task: "running v \<Longrightarrow> i < length (lv_tasks v) \<Longrightarrow> life_step D (lv_stop v) (lv_tasks v ! i) l \<Longrightarrow>
    server_step D v (v\<lparr>lv_tasks := (lv_tasks v)[i := l]\<rparr>)"
| accept: "lv_phase v = Accepting \<Longrightarrow> newborn (dp_store D) c \<Longrightarrow> server_step D v (admit D c v)"
| accept_failed: "lv_phase v = Accepting \<Longrightarrow>
    server_step D v (give_up (dp_env D) (Ended (Inl (New_err Py_OSError (''accept failed: '' @ e)))) v)"
| shutdown: "lv_phase v = Accepting \<Longrightarrow> lv_event v = Some True \<Longrightarrow>
    server_step D v (v\<lparr>lv_phase := Draining, lv_stop := True\<rparr>)"
| shutdown_failed: "lv_phase v = Accepting \<Longrightarrow> lv_event v \<noteq> None \<Longrightarrow>
    server_step D v (give_up (dp_env D) (Ended (Inl err)) v)"

text \<open>What Python does from outside: it sets the event, or drops the future of \<open>serve\<close>.\<close>

inductive live_step :: "('w, 'st) deployment \<Rightarrow> ('w, 'st) live_server \<Rightarrow> ('w, 'st) live_server \<Rightarrow> bool"
  for D where
  server: "server_step D v u \<Longrightarrow> live_step D v u"
| signal: "lv_event v \<noteq> None \<Longrightarrow> live_step D v (v\<lparr>lv_event := Some True\<rparr>)"
| cancel: "running v \<Longrightarrow> live_step D v (give_up (dp_env D) Cancelled v)"

text \<open>A step of a task, or one of the loop itself.\<close>

lemma live_cases:
  assumes "live_step D v u"
  obtains (task) i l where "u = v\<lparr>lv_tasks := (lv_tasks v)[i := l]\<rparr>" "running v" "i < length (lv_tasks v)"
      "life_step D (lv_stop v) (lv_tasks v ! i) l"
  | (join) i s where "u = v\<lparr>lv_tasks := take i (lv_tasks v) @ drop (Suc i) (lv_tasks v), lv_done := lv_done v @ [s]\<rparr>"
      "running v" "i < length (lv_tasks v)" "lv_tasks v ! i = Gone s"
  | (finish) "u = v\<lparr>lv_phase := Ended (Inr ())\<rparr>" "lv_phase v = Draining" "lv_tasks v = []"
  | (accept) c where "u = admit D c v" "lv_phase v = Accepting" "newborn (dp_store D) c"
  | (accept_failed) e where
      "u = give_up (dp_env D) (Ended (Inl (New_err Py_OSError (''accept failed: '' @ e)))) v" "lv_phase v = Accepting"
  | (shutdown) "u = v\<lparr>lv_phase := Draining, lv_stop := True\<rparr>" "lv_phase v = Accepting" "lv_event v = Some True"
  | (shutdown_failed) err where "u = give_up (dp_env D) (Ended (Inl err)) v" "lv_phase v = Accepting" "lv_event v \<noteq> None"
  | (signal) "u = v\<lparr>lv_event := Some True\<rparr>" "lv_event v \<noteq> None"
  | (cancel) "u = give_up (dp_env D) Cancelled v" "running v"
  using assms
proof (cases rule: live_step.cases)
  case server
  then show thesis
  proof (cases rule: server_step.cases)
    case wind
    then show thesis
      by (cases rule: wind_down.cases) (auto intro: task join finish life_step.own)
  qed (auto intro: that)
qed (auto intro: that)

lemmas wind_live = live_step.server [OF server_step.wind]
lemmas task_live = live_step.server [OF server_step.task]

section \<open>It refines the abstract loop\<close>

fun task_of :: "('w, 'st) life \<Rightarrow> task" where
  "task_of (Leaving s) = Cleaning"
| "task_of (Gone s) = Finished"
| "task_of _ = Serving False"

definition loop_of :: "('w, 'st) live_server \<Rightarrow> server" where
  "loop_of v =
     \<lparr>sl_phase = lv_phase v, sl_stop = lv_stop v, sl_tasks = map task_of (lv_tasks v),
      sl_accepted = lv_accepted v,
      sl_cleaned = length (lv_done v) + length (filter is_gone (lv_tasks v)),
      sl_dropped = length (lv_lost v)\<rparr>"

lemma task_of_finished [simp]: "task_of l = Finished \<longleftrightarrow> is_gone l"
  by (cases l) simp_all

lemma unclean_task_of [simp]: "unclean (task_of l) \<longleftrightarrow> \<not> is_gone l"
  by (simp add: unclean_def)

lemma live_loop [simp]: "live (loop_of v) \<longleftrightarrow> running v"
  by (simp add: live_def running_def loop_of_def)

lemma loop_of_start: "loop_of (live_start e) = server_start"
  by (simp add: loop_of_def live_start_def server_start_def)

lemma loop_of_give_up: "loop_of (give_up E p v) = abandon p (loop_of v)"
  by (simp add: loop_of_def give_up_def abandon_def filter_map o_def)

lemma gone_update:
  "i < length ls \<Longrightarrow> \<not> is_gone (ls ! i) \<Longrightarrow>
   length (filter is_gone (ls[i := l])) = length (filter is_gone ls) + (if is_gone l then 1 else 0)"
  using length_filter_update [of i ls is_gone l] by simp

lemma loop_of_update:
  assumes "i < length (lv_tasks v)" and "\<not> is_gone (lv_tasks v ! i)"
  shows "loop_of (v\<lparr>lv_tasks := (lv_tasks v)[i := l]\<rparr>) = ran i (task_of l) (loop_of v)"
  using gone_update [OF assms, of l] by (simp add: loop_of_def ran_def map_update)

lemma ran_same: "i < length (sl_tasks s) \<Longrightarrow> sl_tasks s ! i = t \<Longrightarrow> t \<noteq> Finished \<Longrightarrow> ran i t s = s"
  by (auto simp: ran_def)

text \<open>A step of a connection's task is at most two steps of the abstract task.\<close>

lemma task_run:
  assumes "life_step D stop l l'"
  shows "\<not> is_gone l \<and> (task_of l' = task_of l \<or> task_step stop (task_of l) (task_of l') \<or>
    (\<exists>u. task_step stop (task_of l) u \<and> u \<noteq> Finished \<and> task_step stop u (task_of l')))"
  using assms
proof (cases rule: life_step.cases)
  case own
  have "task_step True (Serving False) (Stopping False)" "task_step True (Stopping False) Cleaning"
    by (rule task_step.told, rule task_step.closing_free)
  with own task_step.cleaned show ?thesis by (cases rule: own_step.cases) auto
next
  case (hang_up s)
  then show ?thesis using task_step.socket_end by auto
qed auto


lemma loop_run_twice:
  assumes "live s" and i: "i < length (sl_tasks s)" and u: "task_step (sl_stop s) (sl_tasks s ! i) u" "u \<noteq> Finished"
    and t: "task_step (sl_stop s) u t"
  shows "drain_step\<^sup>*\<^sup>* s (ran i t s)"
proof -
  have "drain_step s (ran i u s)" using assms(1) i u(1) by (rule drain_step.task)
  moreover have "drain_step (ran i u s) (ran i t (ran i u s))"
    using assms(1) i t by (intro drain_step.task) (simp_all add: ran_def live_def)
  moreover have "ran i t (ran i u s) = ran i t s" using u(2) by (simp add: ran_def)
  ultimately show ?thesis by auto
qed

abbreviation loop_step :: "('w, 'st) deployment \<Rightarrow> server \<Rightarrow> server \<Rightarrow> bool" where
  "loop_step D \<equiv> serve_step (rt (dp_env D)) (dp_configure D) (dp_config D)"

lemma task_refines:
  assumes v: "running v" "i < length (lv_tasks v)" and l: "life_step D (lv_stop v) (lv_tasks v ! i) l"
  shows "drain_step\<^sup>*\<^sup>* (loop_of v) (loop_of (v\<lparr>lv_tasks := (lv_tasks v)[i := l]\<rparr>))"
proof -
  let ?s = "loop_of v" and ?t = "task_of l"
  have i: "i < length (sl_tasks ?s)" "sl_tasks ?s ! i = task_of (lv_tasks v ! i)" "sl_stop ?s = lv_stop v" "live ?s"
    using v by (simp_all add: loop_of_def live_def running_def)
  from task_run [OF l] have ng: "\<not> is_gone (lv_tasks v ! i)"
    and run: "?t = sl_tasks ?s ! i \<or> task_step (sl_stop ?s) (sl_tasks ?s ! i) ?t \<or>
      (\<exists>u. task_step (sl_stop ?s) (sl_tasks ?s ! i) u \<and> u \<noteq> Finished \<and> task_step (sl_stop ?s) u ?t)"
    using i by auto
  from run have "drain_step\<^sup>*\<^sup>* ?s (ran i ?t ?s)"
  proof (elim disjE exE conjE)
    assume "?t = sl_tasks ?s ! i"
    with ng i have "ran i ?t ?s = ?s" by (intro ran_same) simp_all
    then show ?thesis by simp
  next
    assume "task_step (sl_stop ?s) (sl_tasks ?s ! i) ?t"
    with i have "drain_step ?s (ran i ?t ?s)" by (intro drain_step.task)
    then show ?thesis by simp
  next
    fix x assume "task_step (sl_stop ?s) (sl_tasks ?s ! i) x" "x \<noteq> Finished" "task_step (sl_stop ?s) x ?t"
    with loop_run_twice [OF i(4) i(1)] show ?thesis by simp
  qed
  with loop_of_update [OF v(2) ng] show ?thesis by simp
qed

lemma join_refines:
  assumes "running v" and "i < length (lv_tasks v)" and "lv_tasks v ! i = Gone s"
  shows "drain_step (loop_of v)
    (loop_of (v\<lparr>lv_tasks := take i (lv_tasks v) @ drop (Suc i) (lv_tasks v), lv_done := lv_done v @ [s]\<rparr>))"
proof -
  have "filter is_gone (lv_tasks v) = filter is_gone (take i (lv_tasks v) @ lv_tasks v ! i # drop (Suc i) (lv_tasks v))"
    using assms(2) by (simp add: id_take_nth_drop [symmetric])
  with assms(3) have "length (filter is_gone (lv_tasks v)) =
      Suc (length (filter is_gone (take i (lv_tasks v) @ drop (Suc i) (lv_tasks v))))" by simp
  then have "loop_of (v\<lparr>lv_tasks := take i (lv_tasks v) @ drop (Suc i) (lv_tasks v), lv_done := lv_done v @ [s]\<rparr>) =
      joined i (loop_of v)"
    by (simp add: loop_of_def joined_def take_map drop_map)
  moreover have "drain_step (loop_of v) (joined i (loop_of v))"
    using assms by (intro drain_step.join) (simp_all add: loop_of_def live_def running_def)
  ultimately show ?thesis by simp
qed

lemma admit_refines: "loop_of (admit D c v) = accepted (rt (dp_env D)) (dp_configure D) (dp_config D) (loop_of v)"
  by (auto simp: admit_def accepted_def handlers_def loop_of_give_up split: sum.split failure.split)
    (simp add: loop_of_def)

lemma step_refines:
  assumes "live_step D v u"
  shows "(loop_step D)\<^sup>*\<^sup>* (loop_of v) (loop_of u)"
proof -
  have drain: "drain_step\<^sup>*\<^sup>* s t \<Longrightarrow> (loop_step D)\<^sup>*\<^sup>* s t" for s t
    using mono_rtranclp [of drain_step "loop_step D" s t] serve_step.drain by blast
  show ?thesis
    using assms
  proof (cases rule: live_cases)
    case (task i l)
    with drain [OF task_refines [OF task(2-4)]] show ?thesis by simp
  next
    case (join i s)
    with join_refines [OF join(2-4)] have "drain_step (loop_of v) (loop_of u)" by simp
    then show ?thesis by (intro drain r_into_rtranclp)
  next
    case finish
    then have "drain_step (loop_of v) ((loop_of v)\<lparr>sl_phase := Ended (Inr ())\<rparr>)"
      by (intro drain_step.finish) (simp_all add: loop_of_def)
    moreover have "loop_of u = (loop_of v)\<lparr>sl_phase := Ended (Inr ())\<rparr>" using finish by (simp add: loop_of_def)
    ultimately show ?thesis using serve_step.drain by (metis r_into_rtranclp)
  next
    case (accept c)
    have "loop_step D (loop_of v) (accepted (rt (dp_env D)) (dp_configure D) (dp_config D) (loop_of v))"
      by (rule serve_step.accept) (use accept in \<open>simp add: loop_of_def\<close>)
    with accept show ?thesis by (auto simp: admit_refines)
  next
    case (accept_failed e)
    have "loop_step D (loop_of v) (abandon (Ended (Inl (New_err Py_OSError (''accept failed: '' @ e)))) (loop_of v))"
      by (rule serve_step.accept_failed) (use accept_failed in \<open>simp add: loop_of_def\<close>)
    with accept_failed show ?thesis by (auto simp: loop_of_give_up)
  next
    case shutdown
    then have "loop_step D (loop_of v) ((loop_of v)\<lparr>sl_phase := Draining, sl_stop := True\<rparr>)"
      by (intro serve_step.shutdown) (simp add: loop_of_def)
    with shutdown show ?thesis by (auto simp: loop_of_def)
  next
    case (shutdown_failed err)
    have "loop_step D (loop_of v) (abandon (Ended (Inl err)) (loop_of v))"
      by (rule serve_step.shutdown_failed) (use shutdown_failed in \<open>simp add: loop_of_def\<close>)
    with shutdown_failed show ?thesis by (auto simp: loop_of_give_up)
  next
    case signal
    then show ?thesis by (simp add: loop_of_def)
  next
    case cancel
    have "loop_step D (loop_of v) (abandon Cancelled (loop_of v))"
      by (rule serve_step.cancel) (use cancel in simp)
    with cancel show ?thesis by (auto simp: loop_of_give_up)
  qed
qed

lemma run_refines:
  assumes "(live_step D)\<^sup>*\<^sup>* (live_start e) v"
  shows "(serve_step (rt (dp_env D)) (dp_configure D) (dp_config D))\<^sup>*\<^sup>* server_start (loop_of v)"
  using assms
proof (induction rule: rtranclp_induct)
  case base
  show ?case by (simp add: loop_of_start)
next
  case (step v u)
  from step.IH step_refines [OF step.hyps(2)] show ?case by (rule rtranclp_trans)
qed


section \<open>What holds of every connection\<close>

text \<open>The balance of a connection that is through: its tables and its session are gone, and of what its
  trace opened, each part was closed in its life or once by the cleanup at its end. A session is
  closed if it can be (if it has a method \<open>close\<close>), and by the cleanup alone.\<close>

definition balanced :: "'w py_env \<Rightarrow> event list \<Rightarrow> bool" where
  "balanced E tr \<longleftrightarrow>
     (\<exists>served last. tr = served @ last \<and>
        (\<forall>n. calls_ok (bind_of n) served = calls_ok (close_of n) served + attempts (close_of n) last) \<and>
        (\<forall>n. calls_ok (parse_of n) served =
             calls_ok (close_statement_of n) served + attempts (close_statement_of n) last) \<and>
        attempts is_close served = 0 \<and> calls_ok is_open served \<le> 1 \<and>
        attempts is_close last \<le> calls_ok is_open served \<and>
        ((\<forall>i w. fst (has_close E i w)) \<longrightarrow> attempts is_close last = calls_ok is_open served))"

definition over :: "'w py_env \<Rightarrow> ('w, 'st) conn \<Rightarrow> bool" where
  "over E s \<longleftrightarrow> c_portals s = [] \<and> c_statements s = [] \<and> c_session s = None \<and> balanced E (b_trace s)"

definition ending_ok :: "('w, 'st) conn \<Rightarrow> bool" where
  "ending_ok s \<longleftrightarrow>
     table_ok (c_portals s) \<and> table_ok (c_statements s) \<and>
     ledger (b_trace s) (c_portals s) (c_statements s) \<and> session_ok s"

fun life_ok :: "('w, 'st) deployment \<Rightarrow> ('w, 'st) life \<Rightarrow> bool" where
  "life_ok D (Greeting s) \<longleftrightarrow>
     (\<forall>H. handlers D = Inr H \<longrightarrow> starting_ok (dp_store D) (with_verifiers H) s) \<and> starting_ok (dp_store D) False s"
| "life_ok D (Answering s) \<longleftrightarrow> served_ok (dp_store D) (hc_extended_query (dp_config D)) s"
| "life_ok D (Leaving s) \<longleftrightarrow> ending_ok s"
| "life_ok D (Gone s) \<longleftrightarrow> over (dp_env D) s"
| "life_ok D (Crashed s) \<longleftrightarrow> False"

lemma starting_ending: "starting_ok S v s \<Longrightarrow> ending_ok s"
  by (simp add: starting_ok_def ending_ok_def bare_def ledger_def quiet_def bound_at_def)

lemma served_ending: "served_ok S inst s \<Longrightarrow> ending_ok s"
  by (simp add: served_ok_def ending_ok_def conn_inv_def)

lemma life_ending: "life_ok D (Greeting s) \<Longrightarrow> ending_ok s" "life_ok D (Answering s) \<Longrightarrow> ending_ok s"
  by (auto dest: starting_ending served_ending)

lemma life_leaving: "l = Greeting s \<or> l = Answering s \<Longrightarrow> life_ok D l \<Longrightarrow> life_ok D (Leaving s)"
  by (auto dest: starting_ending served_ending)

subsection \<open>The cleanup\<close>

lemma cleanup_over:
  assumes "hash_order_ok E" and e: "ending_ok s" and c: "cleanup E s = (r, t)"
  shows "over E t"
proof -
  from e have "table_ok (c_portals s)" "table_ok (c_statements s)" by (simp_all add: ending_ok_def)
  from cleanup_attempts [OF assms(1) this] obtain w evs where
    t: "t = s\<lparr>c_portals := [], c_statements := [], c_session := None, b_world := w, b_trace := b_trace s @ evs\<rparr>"
    and evs: "\<forall>n. attempts (close_of n) evs = (if bound_at (c_portals s) n \<noteq> None then 1 else 0)"
      "\<forall>n. attempts (close_statement_of n) evs = (if table_get (c_statements s) n \<noteq> None then 1 else 0)"
      "attempts is_close evs \<le> (if c_session s = None then 0 else 1)"
      "(\<forall>i w. fst (has_close E i w)) \<longrightarrow> attempts is_close evs = (if c_session s = None then 0 else 1)"
    using c by auto
  have "balanced E (b_trace s @ evs)"
    unfolding balanced_def
    using e evs by (intro exI [of _ "b_trace s"] exI [of _ evs]) (simp add: ending_ok_def ledger_def session_ok_def)
  with t show ?thesis by (simp add: over_def)
qed

lemma drop_over:
  assumes "hash_order_ok E" and e: "ending_ok s"
  shows "over E (snd (drop_portals E True s))"
proof (cases "c_portals s = [] \<and> c_statements s = [] \<and> c_session s = None")
  case True
  with e have "balanced E (b_trace s)"
    unfolding balanced_def
    by (intro exI [of _ "b_trace s"] exI [of _ "[]"]) (simp add: ending_ok_def ledger_def session_ok_def bound_at_def)
  with True show ?thesis by (simp add: drop_portals_def prog_simps over_def)
next
  case False
  then have "drop_portals E True s = cleanup E s"
    by (simp add: drop_portals_def cleanup_def prog_simps del: de_Morgan_conj)
  with cleanup_over [OF assms] show ?thesis by (cases "cleanup E s") simp
qed

lemma last_state_over:
  assumes "hash_order_ok (dp_env D)" and "life_ok D l"
  shows "over (dp_env D) (last_state (dp_env D) l)"
proof (cases l)
  case (Leaving s)
  with assms(2) have "over (dp_env D) t" if "cleanup (dp_env D) s = (r, t)" for r t
    using cleanup_over [OF assms(1) _ that] by simp
  with Leaving show ?thesis by (cases "cleanup (dp_env D) s") simp
next
  case (Answering s)
  with assms(2) have "ending_ok s" using life_ending(2) by blast
  with Answering drop_over [OF assms(1)] show ?thesis by simp
next
  case (Greeting s)
  with assms(2) have "ending_ok s" using life_ending(1) by blast
  with Greeting drop_over [OF assms(1)] show ?thesis by simp
qed (use assms in auto)

subsection \<open>Every task keeps it\<close>

lemma starting_world: "starting_ok S v s \<Longrightarrow> starting_ok S v (s\<lparr>b_world := w\<rparr>)"
  by (simp add: starting_ok_def bare_def session_ok_def)

lemma starting_served: "starting_ok S v s \<Longrightarrow> c_installed s \<Longrightarrow> served_ok S inst s"
  by (simp add: starting_ok_def served_ok_def started_inv bare_started)

lemma starting_False: "starting_ok S v s \<Longrightarrow> starting_ok S False s"
  by (simp add: starting_ok_def)

lemma deployment_serving: "deployment_ok D \<Longrightarrow> serving (dp_store D) (dp_env D) (dp_on_query D)"
  by (intro serving_intro) (simp_all add: deployment_ok_def)

lemma greet_ok:
  assumes D: "deployment_ok D" and H: "handlers D = Inr H" and g: "greet D H m s = (r, t)"
    and ok: "life_ok D (Greeting s)"
  shows "starting_ok (dp_store D) (with_verifiers H) t \<and> (\<forall>e. r = Inl e \<longrightarrow> clean e)"
proof (rule starting_on_startup)
  show "startup_ops_ok (dp_ops D)" "pg_handlers_ok (dp_pg D)" using D by (simp_all add: deployment_ok_def)
  show "on_startup (dp_env D) (dp_prims D) (dp_ops D) (dp_pg D) H m s = (r, t)"
    using g by (simp add: greet_def)
  show "starting_ok (dp_store D) (with_verifiers H) s" using ok H by simp
qed

lemma answer_ok:
  assumes "deployment_ok D" and "answer D req s = (r, t)" and "life_ok D (Answering s)"
  shows "served_ok (dp_store D) (hc_extended_query (dp_config D)) t \<and> (\<forall>e. r = Inl e \<longrightarrow> clean e)"
proof (cases r)
  case (Inl e)
  with triple_Inl [OF serving.served_handle [OF deployment_serving [OF assms(1)]], of _ s _ req e t] assms(2,3)
  show ?thesis by (simp add: answer_def)
next
  case (Inr x)
  with triple_Inr [OF serving.served_handle [OF deployment_serving [OF assms(1)]], of _ s _ req x t] assms(2,3)
  show ?thesis by (simp add: answer_def)
qed

lemma life_step_ok:
  assumes D: "deployment_ok D" and "life_step D stop l l'" and ok: "life_ok D l"
  shows "life_ok D l'"
proof -
  note sv = deployment_serving [OF D] and greeted = greet_ok [OF D] and answered = answer_ok [OF D]
  show ?thesis
    using assms(2)
  proof (cases rule: life_step.cases)
    case (message H m s r t)
    with ok greeted [of H m s r t] starting_False [of _ "with_verifiers H" t] show ?thesis by auto
  next
    case (waiting s w)
    with ok show ?thesis by (auto intro: starting_world)
  next
    case (ready s)
    with ok show ?thesis by (auto intro: starting_served)
  next
    case (request req s r t)
    with ok answered show ?thesis by auto
  next
    case (pgwire s t)
    with ok serving.served_step [OF sv] show ?thesis by (auto simp: between_def)
  next
    case (greeting_crash H s m r t)
    with ok greeted show ?thesis by (force simp: crash_def)
  next
    case (request_crash req s r t)
    with ok answered show ?thesis by (force simp: crash_def)
  next
    case (hang_up s)
    with life_leaving ok show ?thesis by blast
  next
    case own
    then show ?thesis
    proof (cases rule: own_step.cases)
      case (told s)
      with life_leaving ok show ?thesis by blast
    next
      case (cleaned s r t)
      with ok cleanup_over D show ?thesis by (auto simp: deployment_ok_def)
    qed
  qed
qed

section \<open>What holds of the server\<close>

definition server_ok :: "('w, 'st) deployment \<Rightarrow> ('w, 'st) live_server \<Rightarrow> bool" where
  "server_ok D v \<longleftrightarrow>
     list_all (life_ok D) (lv_tasks v) \<and> list_all (over (dp_env D)) (lv_done v) \<and>
     list_all (over (dp_env D)) (lv_lost v)"

lemma newborn_ok: "newborn S c \<Longrightarrow> starting_ok S v c"
  by (simp add: newborn_def starting_ok_def session_ok_def fresh_def)

lemma server_ok_give_up: "hash_order_ok (dp_env D) \<Longrightarrow> server_ok D v \<Longrightarrow> server_ok D (give_up (dp_env D) p v)"
  using last_state_over by (auto simp: server_ok_def give_up_def list_all_iff)

lemma server_ok_step:
  assumes D: "deployment_ok D" and "live_step D v u" and ok: "server_ok D v"
  shows "server_ok D u"
proof -
  have ho: "hash_order_ok (dp_env D)" using D by (simp add: deployment_ok_def)
  show ?thesis
    using assms(2)
  proof (cases rule: live_cases)
    case (task i l)
    with ok have "life_ok D (lv_tasks v ! i)" by (simp add: server_ok_def list_all_length)
    with task life_step_ok [OF D] have "life_ok D l" by blast
    with task ok set_update_subset_insert [of "lv_tasks v" i l] show ?thesis
      by (auto simp: server_ok_def list_all_iff)
  next
    case (join i s)
    with ok have "over (dp_env D) s" by (auto simp: server_ok_def list_all_length)
    with join ok show ?thesis
      by (auto simp: server_ok_def list_all_iff dest: in_set_takeD in_set_dropD)
  next
    case (accept c)
    with ok newborn_ok server_ok_give_up [OF ho ok] show ?thesis
      by (auto simp: admit_def server_ok_def split: sum.split failure.split)
  qed (use ok server_ok_give_up [OF ho] in \<open>auto simp: server_ok_def\<close>)
qed

lemma server_ok_run:
  assumes "deployment_ok D" and "(live_step D)\<^sup>*\<^sup>* (live_start e) v"
  shows "server_ok D v"
  using assms(2)
proof (induction rule: rtranclp_induct)
  case base
  show ?case by (simp add: server_ok_def live_start_def)
next
  case (step v u)
  with server_ok_step [OF assms(1)] show ?case by blast
qed


text \<open>Only a set event makes the loop drain.\<close>

lemma give_up_event [simp]: "lv_event (give_up E p v) = lv_event v" "lv_phase (give_up E p v) = p"
  by (simp_all add: give_up_def)

lemma admit_event [simp]: "lv_event (admit D c v) = lv_event v"
  by (simp add: admit_def split: sum.split failure.split)

lemma admit_phase: "lv_phase (admit D c v) = lv_phase v \<or> lv_phase (admit D c v) = Cancelled \<or> (\<exists>e. lv_phase (admit D c v) = Ended (Inl e))"
  by (simp add: admit_def split: sum.split failure.split)

lemma event_run:
  assumes "(live_step D)\<^sup>*\<^sup>* (live_start e) v"
  shows "(lv_event v = None \<longleftrightarrow> e = None) \<and>
    (lv_phase v = Draining \<or> lv_phase v = Ended (Inr ()) \<longrightarrow> lv_event v = Some True)"
  using assms
proof (induction rule: rtranclp_induct)
  case base
  show ?case by (simp add: live_start_def)
next
  case (step v u)
  from step(2) show ?case
  proof (cases rule: live_cases)
    case (accept c)
    with step.IH admit_phase [of D c v] show ?thesis by auto
  qed (use step.IH in auto)
qed

section \<open>A shutdown ends\<close>

text \<open>What is left to do for a task, when its client does nothing.\<close>

fun steps_left :: "('w, 'st) life \<Rightarrow> nat" where
  "steps_left (Leaving s) = 2"
| "steps_left (Gone s) = 1"
| "steps_left _ = 3"

definition left_to_do :: "('w, 'st) live_server \<Rightarrow> nat" where
  "left_to_do v = sum_list (map steps_left (lv_tasks v)) + (if running v then 1 else 0)"

lemma sum_list_update_nat:
  "i < length xs \<Longrightarrow> sum_list (xs[i := x]) + xs ! i = sum_list xs + (x :: nat)"
proof (induction xs arbitrary: i)
  case (Cons y ys)
  then show ?case by (cases i) auto
qed simp

lemma own_step_less: "own_step D stop l l' \<Longrightarrow> steps_left l = Suc (steps_left l')"
  by (auto elim!: own_step.cases)

lemma wind_down_less:
  assumes "wind_down D v u"
  shows "left_to_do v = Suc (left_to_do u)"
  using assms
proof (cases rule: wind_down.cases)
  case (task i l)
  have "sum_list (map steps_left ((lv_tasks v)[i := l])) + steps_left (lv_tasks v ! i) =
      sum_list (map steps_left (lv_tasks v)) + steps_left l"
    using sum_list_update_nat [of i "map steps_left (lv_tasks v)" "steps_left l"] task by (simp add: map_update)
  with task own_step_less [OF task(4)] show ?thesis by (simp add: left_to_do_def running_def)
next
  case (join i s)
  have "map steps_left (lv_tasks v) = map steps_left (take i (lv_tasks v) @ lv_tasks v ! i # drop (Suc i) (lv_tasks v))"
    by (rule arg_cong [OF id_take_nth_drop [OF join(3)]])
  with join show ?thesis by (simp add: left_to_do_def running_def)
next
  case finish
  then show ?thesis by (simp add: left_to_do_def running_def)
qed

lemma wind_down_count: "(wind_down D ^^ n) v u \<Longrightarrow> left_to_do v = n + left_to_do u"
proof (induction n arbitrary: u)
  case (Suc n)
  then obtain w where "(wind_down D ^^ n) v w" "wind_down D w u" by auto
  with Suc.IH [of w] wind_down_less [of D w u] show ?case by simp
qed simp

lemma left_to_do_bound: "left_to_do v \<le> 3 * length (lv_tasks v) + 1"
proof -
  have "sum_list (map steps_left ls) \<le> 3 * length ls" for ls :: "('a, 'b) life list"
  proof (induction ls)
    case (Cons l ls)
    then show ?case by (cases l) simp_all
  qed simp
  from this [of "lv_tasks v"] show ?thesis by (simp add: left_to_do_def)
qed

lemma stop_when_draining:
  assumes "(live_step D)\<^sup>*\<^sup>* (live_start e) v" and "lv_phase v = Draining"
  shows "lv_stop v"
proof -
  have "server_inv (loop_of v)" by (rule server_inv_reachable [OF run_refines [OF assms(1)]])
  with assms(2) show ?thesis by (simp add: server_inv_def loop_of_def)
qed

lemma wind_down_progress:
  assumes "lv_phase v = Draining" and "lv_stop v" and "\<forall>s. Crashed s \<notin> set (lv_tasks v)"
  shows "\<exists>u. wind_down D v u"
proof (cases "lv_tasks v")
  case Nil
  with assms(1) wind_down.finish show ?thesis by blast
next
  case (Cons l ls)
  have r: "running v" "0 < length (lv_tasks v)" "lv_tasks v ! 0 = l" using assms(1) Cons by (simp_all add: running_def)
  show ?thesis
  proof (cases l)
    case (Leaving s)
    obtain x t where "cleanup (dp_env D) s = (x, t)" by fastforce
    then have "own_step D (lv_stop v) l (Gone t)" using Leaving own_step.cleaned by blast
    with r wind_down.task [of v 0] show ?thesis by blast
  next
    case (Gone s)
    with r wind_down.join [of v 0 s] show ?thesis by blast
  next
    case (Crashed s)
    with assms(3) Cons show ?thesis by auto
  next
    case (Greeting s)
    with assms(2) have "own_step D (lv_stop v) l (Leaving s)" by (simp add: own_step.told)
    with r wind_down.task [of v 0] show ?thesis by blast
  next
    case (Answering s)
    with assms(2) have "own_step D (lv_stop v) l (Leaving s)" by (simp add: own_step.told)
    with r wind_down.task [of v 0] show ?thesis by blast
  qed
qed

lemma wind_down_phase:
  "(wind_down D)\<^sup>*\<^sup>* v u \<Longrightarrow> lv_phase v = Draining \<Longrightarrow> lv_phase u = Draining \<or> lv_phase u = Ended (Inr ())"
proof (induction rule: rtranclp_induct)
  case (step u w)
  then show ?case by (auto elim!: wind_down.cases simp: running_def)
qed simp

lemma server_balance:
  assumes "deployment_ok D" and "(live_step D)\<^sup>*\<^sup>* (live_start e) v"
  shows "\<forall>s \<in> set (lv_done v) \<union> set (lv_lost v). over (dp_env D) s"
    and "\<not> running v \<longrightarrow> lv_accepted v = length (lv_done v) + length (lv_lost v)"
proof -
  show "\<forall>s \<in> set (lv_done v) \<union> set (lv_lost v). over (dp_env D) s"
    using server_ok_run [OF assms] by (auto simp: server_ok_def list_all_iff)
  have "length (filter unclean (map task_of ls)) + length (filter is_gone ls) = length ls" for ls :: "('a, 'b) life list"
    by (induction ls) auto
  with server_inv_reachable [OF run_refines [OF assms(2)]]
  show "\<not> running v \<longrightarrow> lv_accepted v = length (lv_done v) + length (lv_lost v)"
    by (auto simp: server_inv_def loop_of_def live_def running_def)
qed

section \<open>Properties\<close>

text \<open>C7: The server with its connections refines the abstract accept loop: every run of it, with all
  that the handlers of the connections do, is a run of the loop in which a connection is only being
  served, being cleaned up or finished. So no connection is lost: each one accepted is still with a
  task, was cleaned up by its task, or was dropped with the loop.\<close>

theorem server_refines_loop:
  assumes "(live_step D)\<^sup>*\<^sup>* (live_start e) v"
  shows "(serve_step (rt (dp_env D)) (dp_configure D) (dp_config D))\<^sup>*\<^sup>* server_start (loop_of v) \<and>
    lv_accepted v = length (lv_done v) + length (lv_lost v) + length (lv_tasks v)"
proof
  show run: "(serve_step (rt (dp_env D)) (dp_configure D) (dp_config D))\<^sup>*\<^sup>* server_start (loop_of v)"
    using assms by (rule run_refines)
  have "length (filter unclean (map task_of ls)) + length (filter is_gone ls) = length ls" for ls :: "('a, 'b) life list"
    by (induction ls) auto
  with server_inv_reachable [OF run] show "lv_accepted v = length (lv_done v) + length (lv_lost v) + length (lv_tasks v)"
    by (simp add: server_inv_def loop_of_def) (metis add.commute add.left_commute)
qed


text \<open>C8: A shutdown of the whole server ends: once it was requested, the tasks being told to stop,
  cleaning up and being joined make at most three steps for each connection, and the loop one more;
  and when none is left, which no client can prevent, \<open>serve\<close> has returned without an error and every
  connection is through.\<close>

theorem server_shutdown_ends:
  assumes "deployment_ok D" and "(live_step D)\<^sup>*\<^sup>* (live_start e) v" and "lv_phase v = Draining"
  shows "(\<forall>n u. (wind_down D ^^ n) v u \<longrightarrow> n \<le> 3 * length (lv_tasks v) + 1) \<and>
    (\<forall>u. (wind_down D)\<^sup>*\<^sup>* v u \<longrightarrow> (\<nexists>w. wind_down D u w) \<longrightarrow>
       lv_phase u = Ended (Inr ()) \<and> length (lv_done u) = lv_accepted u \<and> (\<forall>s \<in> set (lv_done u). over (dp_env D) s))"
proof (intro conjI allI impI)
  fix n u assume "(wind_down D ^^ n) v u"
  then show "n \<le> 3 * length (lv_tasks v) + 1"
    using wind_down_count [of n D v u] left_to_do_bound [of v] by simp
next
  fix u assume run: "(wind_down D)\<^sup>*\<^sup>* v u" and stuck: "\<nexists>w. wind_down D u w"
  from run have "(live_step D)\<^sup>*\<^sup>* v u" using mono_rtranclp [of "wind_down D" "live_step D"] wind_live by blast
  with assms(2) have u: "(live_step D)\<^sup>*\<^sup>* (live_start e) u" by simp
  have ok: "server_ok D u" by (rule server_ok_run [OF assms(1) u])
  then have "\<forall>s. Crashed s \<notin> set (lv_tasks u)" by (auto simp: server_ok_def list_all_iff)
  with stuck wind_down_progress stop_when_draining [OF u] wind_down_phase [OF run assms(3)]
  have e: "lv_phase u = Ended (Inr ())" by blast
  from server_inv_reachable [OF run_refines [OF u]] e
  have "length (lv_done u) = lv_accepted u" by (simp add: server_inv_def loop_of_def live_def)
  with e ok show "lv_phase u = Ended (Inr ())" "length (lv_done u) = lv_accepted u"
    "\<forall>s \<in> set (lv_done u). over (dp_env D) s"
    by (simp_all add: server_ok_def list_all_iff)
qed


section \<open>A concrete server\<close>

text \<open>A server without authentication, whose one client opens a session, prepares a statement and is
  still connected when the server is shut down.\<close>

definition trust_cfg :: handler_config where
  "trust_cfg =
     \<lparr>hc_simple_query = 5, hc_extended_query = None, hc_auth = None, hc_auth_method = Trust,
      hc_require_tls = False, hc_scram_iterations = 4096, hc_tls_certificate_pem = None,
      hc_session_factory = Some 8, hc_scram_verifier = None\<rparr>"

definition sample_deployment :: "(nat, mem_store) deployment" where
  "sample_deployment =
     \<lparr>dp_env = sample_env, dp_prims = rfc_prims, dp_ops = login_ops, dp_pg = sample_pg_handlers,
      dp_store = mem_ops, dp_on_query = sample_on_query, dp_configure = (\<lambda>_. Inr ()), dp_config = trust_cfg\<rparr>"

lemma sample_pg_ok: "pg_handlers_ok sample_pg_handlers"
proof -
  have "P (s\<lparr>c_state := ReadyForQuery\<rparr>)" if "client_keeps P" "P s" for P and s :: "(nat, mem_store) conn"
  proof -
    have "P (s\<lparr>b_world := b_world s, b_trace := b_trace s @ [], c_state := ReadyForQuery, c_status := c_status s,
        c_login := c_login s, c_key := c_key s, c_registered := c_registered s\<rparr>)"
      using that unfolding client_keeps_def by (metis list.pred_inject(1))
    then show ?thesis by simp
  qed
  then show ?thesis
    unfolding pg_handlers_ok_def safe_def sample_pg_handlers_def by (auto intro: triple_modify triple_ret)
qed

lemma sample_deployment_ok: "deployment_ok sample_deployment"
  using mem.portal_store_axioms sample_order sample_on_query_ok login_ops_ok sample_pg_ok
  by (simp add: deployment_ok_def sample_deployment_def)

lemma sample_handlers: "handlers sample_deployment = Inr (trust_handler False)"
  by (simp add: handlers_def sample_deployment_def build_def build_inner_def trust_cfg_def trust_handler_def)

definition greeted_conn :: "(nat, mem_store) conn" where
  "greeted_conn = login_conn\<lparr>c_state := ReadyForQuery, c_installed := True,
     b_trace := [Ev_call (Call_open 8 (login_info_from_pg (c_login login_conn))) True],
     c_ext_session := Some 1, c_session := Some 1\<rparr>"

lemma sample_greet:
  "greet sample_deployment (trust_handler False) (Startup_msg sample_startup) login_conn = (Inr (), greeted_conn)"
  by (simp add: greet_def sample_deployment_def on_startup_def trust_handler_def inner_on_startup_def
      sample_pg_handlers_def install_resources_def late_session_def initialize_python_session_def set_session_def
      call_def py_await_def sample_env_def dropped_def log_event_def login_conn_def greeted_conn_def prog_simps Let_def)

definition prepared_conn :: "(nat, mem_store) conn" where
  "prepared_conn = snd (answer sample_deployment (Req_parse sample_parse) greeted_conn)"

lemma sample_answer: "answer sample_deployment (Req_parse sample_parse) greeted_conn = (Inr (), prepared_conn)"
  by (simp add: prepared_conn_def answer_def sample_deployment_def handle_def on_parse_def sample_parse_def
      name_or_default_def mem_ops_def greeted_conn_def login_conn_def parse_and_store_def parse_statement_def
      instance_for_def call_def py_await_def sample_env_def log_event_def dropped_def send_def update_store_def
      prog_simps table_insert_def is_ascii_whitespace_def Let_def)

abbreviation with_task :: "phase \<Rightarrow> bool \<Rightarrow> (nat, mem_store) life list \<Rightarrow> (nat, mem_store) conn list \<Rightarrow> (nat, mem_store) live_server" where
  "with_task p stop ls cs \<equiv>
     \<lparr>lv_phase = p, lv_event = Some stop, lv_stop = stop, lv_tasks = ls, lv_accepted = 1, lv_done = cs, lv_lost = []\<rparr>"

definition signalled_server :: "(nat, mem_store) live_server" where
  "signalled_server = (with_task Accepting False [Answering prepared_conn] [])\<lparr>lv_event := Some True\<rparr>"

definition stopping_server :: "(nat, mem_store) live_server" where
  "stopping_server = with_task Draining True [Answering prepared_conn] []"

definition stopped_server :: "(nat, mem_store) live_server" where
  "stopped_server = with_task (Ended (Inr ())) True [] [snd (cleanup sample_env prepared_conn)]"

lemma task_moves:
  assumes "p = Accepting \<or> p = Draining" and "life_step sample_deployment b l l'"
  shows "server_step sample_deployment (with_task p b [l] cs) (with_task p b [l'] cs)"
  using server_step.task [of "with_task p b [l] cs" 0 sample_deployment l'] assms by (simp add: running_def)

lemma sample_newborn: "newborn (dp_store sample_deployment) login_conn"
  using login_fresh login_bare by (simp add: newborn_def sample_deployment_def login_conn_def)

lemma serving_steps:
  "server_step sample_deployment (live_start (Some False)) (with_task Accepting False [Greeting login_conn] [])"
  "server_step sample_deployment (with_task Accepting False [Greeting login_conn] []) (with_task Accepting False [Greeting greeted_conn] [])"
  "server_step sample_deployment (with_task Accepting False [Greeting greeted_conn] []) (with_task Accepting False [Answering greeted_conn] [])"
  "server_step sample_deployment (with_task Accepting False [Answering greeted_conn] []) (with_task Accepting False [Answering prepared_conn] [])"
  "server_step sample_deployment signalled_server stopping_server"
proof -
  let ?step = "server_step sample_deployment"
  have "?step (live_start (Some False)) (admit sample_deployment login_conn (live_start (Some False)))"
    by (rule server_step.accept [OF _ sample_newborn]) (simp add: live_start_def)
  then show "?step (live_start (Some False)) (with_task Accepting False [Greeting login_conn] [])"
    by (simp add: admit_def sample_handlers live_start_def)
  show "?step (with_task Accepting False [Greeting login_conn] []) (with_task Accepting False [Greeting greeted_conn] [])"
    by (intro task_moves life_step.message [OF sample_handlers sample_greet]) (simp_all add: crash_def)
  show "?step (with_task Accepting False [Greeting greeted_conn] []) (with_task Accepting False [Answering greeted_conn] [])"
    by (intro task_moves life_step.ready) (simp_all add: greeted_conn_def)
  show "?step (with_task Accepting False [Answering greeted_conn] []) (with_task Accepting False [Answering prepared_conn] [])"
    by (intro task_moves life_step.request [OF sample_answer]) (simp_all add: crash_def)
  show "?step signalled_server stopping_server"
    using server_step.shutdown [of signalled_server sample_deployment]
    by (simp add: signalled_server_def stopping_server_def)
qed

lemma stopping_steps:
  "server_step sample_deployment stopping_server (with_task Draining True [Leaving prepared_conn] [])"
  "server_step sample_deployment (with_task Draining True [Leaving prepared_conn] [])
     (with_task Draining True [Gone (snd (cleanup sample_env prepared_conn))] [])"
  "server_step sample_deployment (with_task Draining True [Gone (snd (cleanup sample_env prepared_conn))] [])
     (with_task Draining True [] [snd (cleanup sample_env prepared_conn)])"
  "server_step sample_deployment (with_task Draining True [] [snd (cleanup sample_env prepared_conn)]) stopped_server"
proof -
  let ?step = "server_step sample_deployment" and ?c = "snd (cleanup sample_env prepared_conn)"
  show "?step stopping_server (with_task Draining True [Leaving prepared_conn] [])"
    unfolding stopping_server_def by (intro task_moves life_step.own own_step.told) simp_all
  have "cleanup (dp_env sample_deployment) prepared_conn = (fst (cleanup sample_env prepared_conn), ?c)"
    by (simp add: sample_deployment_def)
  from own_step.cleaned [OF this] have "life_step sample_deployment True (Leaving prepared_conn) (Gone ?c)"
    by (rule life_step.own)
  then show "?step (with_task Draining True [Leaving prepared_conn] []) (with_task Draining True [Gone ?c] [])"
    by (intro task_moves) simp
  show "?step (with_task Draining True [Gone ?c] []) (with_task Draining True [] [?c])"
    using server_step.wind [OF wind_down.join [of "with_task Draining True [Gone ?c] []" 0 ?c]] by (simp add: running_def)
  show "?step (with_task Draining True [] [?c]) stopped_server"
    using server_step.wind [OF wind_down.finish [of "with_task Draining True [] [?c]"]] by (simp add: stopped_server_def)
qed

lemma signal_step: "live_step sample_deployment (with_task Accepting False [Answering prepared_conn] []) signalled_server"
  unfolding signalled_server_def by (rule live_step.signal) simp

lemmas sample_steps = serving_steps(1-4) [THEN live_step.server] signal_step serving_steps(5) [THEN live_step.server]
  stopping_steps [THEN live_step.server]

lemma stopping_reach: "(live_step sample_deployment)\<^sup>*\<^sup>* (live_start (Some False)) stopping_server"
  using sample_steps(1-6) by (meson rtranclp.intros)

lemma stopped_reach: "(live_step sample_deployment)\<^sup>*\<^sup>* (live_start (Some False)) stopped_server"
  using stopping_reach sample_steps(7-10) by (meson rtranclp.intros)

lemma server_refines_loop_witness:
  "(serve_step sample_runtime (\<lambda>_. Inr ()) trust_cfg)\<^sup>*\<^sup>* server_start
     \<lparr>sl_phase = Draining, sl_stop = True, sl_tasks = [Serving False], sl_accepted = 1, sl_cleaned = 0, sl_dropped = 0\<rparr>"
  using server_refines_loop [OF stopping_reach]
  by (simp add: loop_of_def stopping_server_def sample_deployment_def sample_env_def)


lemma server_shutdown_ends_witness: "\<nexists>u. (wind_down sample_deployment ^^ 5) stopping_server u"
proof -
  have "lv_phase stopping_server = Draining" "length (lv_tasks stopping_server) = 1"
    by (simp_all add: stopping_server_def)
  with server_shutdown_ends [OF sample_deployment_ok stopping_reach] show ?thesis by fastforce
qed

end
