(* ===== verification/Fairness.thy ===== *)
theory Fairness
  imports Main
begin

text \<open>
  Infinite runs of a step relation and weak fairness: what can be done from some point on without
  interruption is done at last. The rule of the theory leads from fairness of some steps and a
  measure they decrease to a goal.
\<close>

definition run_of :: "('s \<Rightarrow> 's \<Rightarrow> bool) \<Rightarrow> (nat \<Rightarrow> 's) \<Rightarrow> bool" where
  "run_of step \<sigma> \<longleftrightarrow> (\<forall>n. step (\<sigma> n) (\<sigma> (Suc n)) \<or> \<sigma> (Suc n) = \<sigma> n)"

definition weakly_fair :: "('s \<Rightarrow> 's \<Rightarrow> bool) \<Rightarrow> (nat \<Rightarrow> 's) \<Rightarrow> bool" where
  "weakly_fair A \<sigma> \<longleftrightarrow> (\<forall>n. (\<forall>m \<ge> n. \<exists>u. A (\<sigma> m) u) \<longrightarrow> (\<exists>m \<ge> n. A (\<sigma> m) (\<sigma> (Suc m))))"

lemma run_of_step: "run_of step \<sigma> \<Longrightarrow> step (\<sigma> n) (\<sigma> (Suc n)) \<or> \<sigma> (Suc n) = \<sigma> n"
  by (simp add: run_of_def)

lemma run_of_reach: "run_of step \<sigma> \<Longrightarrow> step\<^sup>*\<^sup>* (\<sigma> n) (\<sigma> (n + k))"
proof (induction k)
  case (Suc k)
  with run_of_step [OF Suc.prems, of "n + k"] show ?case by (auto intro: rtranclp.rtrancl_into_rtrancl)
qed simp

lemma run_of_reach_le: "run_of step \<sigma> \<Longrightarrow> n \<le> m \<Longrightarrow> step\<^sup>*\<^sup>* (\<sigma> n) (\<sigma> m)"
  using run_of_reach [of step \<sigma> n "m - n"] by simp

text \<open>A property that steps keep, from the point on where it holds.\<close>

lemma run_of_stable:
  assumes "run_of step \<sigma>" and "P (\<sigma> n)" and "n \<le> m"
    and "\<And>s t. step s t \<Longrightarrow> P s \<Longrightarrow> P t"
  shows "P (\<sigma> m)"
  using run_of_reach_le [OF assms(1,3)] assms(2,4) by (induction rule: rtranclp_induct) blast+

text \<open>As long as the goal is not reached, the steps of \<open>A\<close> are possible and decrease the measure, and no
  other step increases it.\<close>

lemma fair_reaches:
  fixes \<mu> :: "'s \<Rightarrow> nat"
  assumes run: "run_of step \<sigma>" and fair: "weakly_fair A \<sigma>"
    and possible: "\<And>m. n \<le> m \<Longrightarrow> \<not> G (\<sigma> m) \<Longrightarrow> \<exists>u. A (\<sigma> m) u"
    and decreases: "\<And>m. n \<le> m \<Longrightarrow> \<not> G (\<sigma> m) \<Longrightarrow> A (\<sigma> m) (\<sigma> (Suc m)) \<Longrightarrow> \<not> G (\<sigma> (Suc m)) \<Longrightarrow>
      \<mu> (\<sigma> (Suc m)) < \<mu> (\<sigma> m)"
    and keeps: "\<And>m. n \<le> m \<Longrightarrow> \<not> G (\<sigma> m) \<Longrightarrow> step (\<sigma> m) (\<sigma> (Suc m)) \<Longrightarrow> \<not> G (\<sigma> (Suc m)) \<Longrightarrow>
      \<mu> (\<sigma> (Suc m)) \<le> \<mu> (\<sigma> m)"
  shows "\<exists>m \<ge> n. G (\<sigma> m)"
proof (rule ccontr)
  assume "\<not> ?thesis"
  then have never: "\<And>m. n \<le> m \<Longrightarrow> \<not> G (\<sigma> m)" by blast
  have le: "\<mu> (\<sigma> (k + i)) \<le> \<mu> (\<sigma> k)" if "n \<le> k" for k i
  proof (induction i)
    case (Suc i)
    have "\<mu> (\<sigma> (Suc (k + i))) \<le> \<mu> (\<sigma> (k + i))"
      using run_of_step [OF run, of "k + i"] keeps [of "k + i"] never [of "k + i"] never [of "Suc (k + i)"] that by auto
    with Suc show ?case by simp
  qed simp
  have "\<forall>k \<ge> n. \<mu> (\<sigma> k) \<noteq> x" for x
  proof (induction x rule: less_induct)
    case (less x)
    show ?case
    proof (intro allI impI notI)
      fix k assume k: "n \<le> k" "\<mu> (\<sigma> k) = x"
      from fair possible never k(1) obtain m where m: "k \<le> m" "A (\<sigma> m) (\<sigma> (Suc m))"
        unfolding weakly_fair_def by (meson le_trans)
      with decreases never k(1) have "\<mu> (\<sigma> (Suc m)) < \<mu> (\<sigma> m)" by simp
      also have "\<mu> (\<sigma> m) \<le> x" using le [OF k(1), of "m - k"] k(2) m(1) by simp
      finally have "\<mu> (\<sigma> (Suc m)) < x" .
      moreover have "n \<le> Suc m" using k(1) m(1) by simp
      ultimately show False using less.IH by blast
    qed
  qed
  then show False by blast
qed

text \<open>A list of states followed by its last one for ever.\<close>

definition then_forever :: "'s list \<Rightarrow> nat \<Rightarrow> 's" where
  "then_forever ss n = ss ! min n (length ss - 1)"

lemma then_forever_run:
  assumes "ss \<noteq> []" and "successively step ss"
  shows "run_of step (then_forever ss)"
  unfolding run_of_def
proof
  fix n
  show "step (then_forever ss n) (then_forever ss (Suc n)) \<or> then_forever ss (Suc n) = then_forever ss n"
  proof (cases "Suc n < length ss")
    case True
    with assms(2) show ?thesis by (simp add: then_forever_def successively_conv_nth)
  next
    case False
    then show ?thesis by (simp add: then_forever_def)
  qed
qed

lemma then_forever_fair:
  assumes "ss \<noteq> []" and "\<nexists>u. A (last ss) u"
  shows "weakly_fair A (then_forever ss)"
  unfolding weakly_fair_def
proof (intro allI impI)
  fix n assume "\<forall>m \<ge> n. \<exists>u. A (then_forever ss m) u"
  then have "\<exists>u. A (then_forever ss (n + length ss)) u" by simp
  with assms show "\<exists>m \<ge> n. A (then_forever ss m) (then_forever ss (Suc m))"
    by (simp add: then_forever_def last_conv_nth)
qed

end
