(* ===== verification/Serve_Wrapper.thy ===== *)
theory Serve_Wrapper
  imports Live_Server Fairness
begin

text \<open>
  How a server is stopped: the liveness of the loop once its event is set, and the coroutine \<open>serve\<close>
  of \<open>pywire/server.py\<close> that runs the loop, shields it from the cancellation of its own task, and
  sets the event instead.
\<close>

section \<open>A server that is told to stop stops\<close>

definition shutdown_step :: "('w, 'st) live_server \<Rightarrow> ('w, 'st) live_server \<Rightarrow> bool" where
  "shutdown_step v u \<longleftrightarrow>
     lv_phase v = Accepting \<and> lv_event v = Some True \<and> u = v\<lparr>lv_phase := Draining, lv_stop := True\<rparr>"

lemma event_stays: "live_step D v u \<Longrightarrow> lv_event v = Some True \<Longrightarrow> lv_event u = Some True"
  by (erule live_cases) auto

lemma draining_stays:
  assumes "live_step D v u" and "lv_phase v \<noteq> Accepting"
  shows "lv_phase u \<noteq> Accepting"
  using assms by (cases rule: live_cases) auto

lemma steps_left_le:
  assumes "life_step D stop l l'"
  shows "steps_left l' \<le> steps_left l"
  using assms
proof (cases rule: life_step.cases)
  case own
  with own_step_less [of D stop l l'] show ?thesis by simp
qed auto

lemma draining_measure:
  assumes "live_step D v u" and "lv_phase v = Draining" and "running u"
  shows "left_to_do u \<le> left_to_do v"
  using assms(1)
proof (cases rule: live_cases)
  case (task i l)
  have "sum_list (map steps_left ((lv_tasks v)[i := l])) + steps_left (lv_tasks v ! i) =
      sum_list (map steps_left (lv_tasks v)) + steps_left l"
    using sum_list_update_nat [of i "map steps_left (lv_tasks v)" "steps_left l"] task by (simp add: map_update)
  with task steps_left_le [OF task(4)] show ?thesis by (simp add: left_to_do_def running_def)
next
  case (join i s)
  then have "wind_down D v u" using wind_down.join by blast
  from wind_down_less [OF this] show ?thesis by simp
qed (use assms in \<open>auto simp: left_to_do_def running_def\<close>)

text \<open>C3: A server whose event is set stops, whatever its clients do and however many more of them
  connect: in every run in which the loop takes the event at last and the tasks that are told to
  stop, cleaning up or waiting to be joined are not passed over for ever, there comes a point where
  the loop is over, every connection that was ever accepted is through, and nothing of it is open.\<close>

theorem told_server_stops:
  assumes D: "deployment_ok D" and start: "\<sigma> 0 = live_start e" and run: "run_of (live_step D) \<sigma>"
    and fair: "weakly_fair shutdown_step \<sigma>" "weakly_fair (wind_down D) \<sigma>" and told: "lv_event (\<sigma> n) = Some True"
  shows "\<exists>m \<ge> n. \<not> running (\<sigma> m) \<and> lv_accepted (\<sigma> m) = length (lv_done (\<sigma> m)) + length (lv_lost (\<sigma> m)) \<and>
    (\<forall>s \<in> set (lv_done (\<sigma> m)) \<union> set (lv_lost (\<sigma> m)). over (dp_env D) s)"
proof -
  have reach: "(live_step D)\<^sup>*\<^sup>* (live_start e) (\<sigma> m)" for m
    using run_of_reach [OF run, of 0 m] start by simp
  have event: "lv_event (\<sigma> m) = Some True" if "n \<le> m" for m
    using run_of_stable [OF run, where P = "\<lambda>v. lv_event v = Some True"] told that event_stays by blast
  have "\<exists>m \<ge> n. lv_phase (\<sigma> m) \<noteq> Accepting"
    by (rule fair_reaches [OF run fair(1), where \<mu> = "\<lambda>_. 0"]) (auto simp: shutdown_step_def event)
  then obtain k where k: "n \<le> k" "lv_phase (\<sigma> k) \<noteq> Accepting" by blast
  have later: "lv_phase (\<sigma> m) \<noteq> Accepting" if "k \<le> m" for m
    using run_of_stable [OF run, where P = "\<lambda>v. lv_phase v \<noteq> Accepting"] k(2) that draining_stays by blast
  have draining: "lv_phase (\<sigma> m) = Draining" if "k \<le> m" "running (\<sigma> m)" for m
    using later [OF that(1)] that(2) by (simp add: running_def)
  have "\<exists>m \<ge> k. \<not> running (\<sigma> m)"
  proof (rule fair_reaches [OF run fair(2), where \<mu> = left_to_do], goal_cases)
    case (1 m)
    then have "\<forall>s. Crashed s \<notin> set (lv_tasks (\<sigma> m))"
      using server_ok_run [OF D reach [of m]] by (auto simp: server_ok_def list_all_iff)
    with 1 draining stop_when_draining [OF reach] show ?case by (intro wind_down_progress) auto
  next
    case (2 m)
    with wind_down_less [of D "\<sigma> m" "\<sigma> (Suc m)"] show ?case by simp
  next
    case (3 m)
    with draining draining_measure [of D "\<sigma> m" "\<sigma> (Suc m)"] show ?case by auto
  qed
  then obtain m where "k \<le> m" "\<not> running (\<sigma> m)" by blast
  with k(1) server_balance [OF D reach [of m]] show ?thesis by (meson le_trans)
qed

section \<open>The coroutine \<open>serve\<close>\<close>

text \<open>How the coroutine ends: it returns, it raises what the loop raised or the panic that ended it,
  or it raises the \<open>CancelledError\<close> of its own task.\<close>

datatype outcome = Finished_normally | Raised_by_loop py_err | Loop_panicked | Raised_cancelled

datatype wrapper_phase = Awaiting | Stopping_loop | Over outcome

record ('w, 'st) serve_call =
  sc_phase :: wrapper_phase
  sc_server :: "('w, 'st) live_server"

text \<open>The call, once the loop has bound its listener.\<close>

definition serve_called :: "('w, 'st) serve_call" where
  "serve_called = \<lparr>sc_phase = Awaiting, sc_server = live_start (Some False)\<rparr>"

text \<open>\<open>running.result()\<close> of the loop's future, when it is done.\<close>

fun loop_result :: "phase \<Rightarrow> (outcome + unit) option" where
  "loop_result (Ended (Inr x)) = Some (Inr ())"
| "loop_result (Ended (Inl e)) = Some (Inl (Raised_by_loop e))"
| "loop_result Cancelled = Some (Inl Loop_panicked)"
| "loop_result _ = None"

text \<open>The future of the loop is shielded, so that nothing drops it; only the coroutine sets the event.
  A cancellation of the task arrives at an await.\<close>

inductive wrapper_step :: "('w, 'st) deployment \<Rightarrow> ('w, 'st) serve_call \<Rightarrow> ('w, 'st) serve_call \<Rightarrow> bool"
  for D where
  loop: "server_step D (sc_server c) u \<Longrightarrow> wrapper_step D c (c\<lparr>sc_server := u\<rparr>)"
| returns: "sc_phase c = Awaiting \<Longrightarrow> loop_result (lv_phase (sc_server c)) = Some (Inr ()) \<Longrightarrow>
    wrapper_step D c (c\<lparr>sc_phase := Over Finished_normally\<rparr>)"
| raises: "sc_phase c = Awaiting \<or> sc_phase c = Stopping_loop \<Longrightarrow>
    loop_result (lv_phase (sc_server c)) = Some (Inl r) \<Longrightarrow> wrapper_step D c (c\<lparr>sc_phase := Over r\<rparr>)"
| cancelled: "sc_phase c = Awaiting \<Longrightarrow>
    wrapper_step D c \<lparr>sc_phase = Stopping_loop, sc_server = (sc_server c)\<lparr>lv_event := Some True\<rparr>\<rparr>"
| cancelled_again: "sc_phase c = Stopping_loop \<Longrightarrow> wrapper_step D c c"
| stopped: "sc_phase c = Stopping_loop \<Longrightarrow> loop_result (lv_phase (sc_server c)) = Some (Inr ()) \<Longrightarrow>
    wrapper_step D c (c\<lparr>sc_phase := Over Raised_cancelled\<rparr>)"

text \<open>A run of the coroutine is a run of the server, in which the loop drains only after a cancellation.\<close>

definition wrapper_inv :: "('w, 'st) deployment \<Rightarrow> ('w, 'st) serve_call \<Rightarrow> bool" where
  "wrapper_inv D c \<longleftrightarrow>
     (live_step D)\<^sup>*\<^sup>* (live_start (Some False)) (sc_server c) \<and>
     (case sc_phase c of
        Awaiting \<Rightarrow> lv_event (sc_server c) = Some False
      | Stopping_loop \<Rightarrow> True
      | Over Finished_normally \<Rightarrow> False
      | Over (Raised_by_loop e) \<Rightarrow> lv_phase (sc_server c) = Ended (Inl e)
      | Over Loop_panicked \<Rightarrow> lv_phase (sc_server c) = Cancelled
      | Over Raised_cancelled \<Rightarrow> lv_phase (sc_server c) = Ended (Inr ()))"

lemma server_step_event: "server_step D v u \<Longrightarrow> lv_event u = lv_event v"
  by (cases rule: server_step.cases) (auto elim: wind_down.cases)

lemma server_step_running: "server_step D v u \<Longrightarrow> running v"
  by (cases rule: server_step.cases) (auto elim: wind_down.cases simp: running_def)

lemma loop_result_Some:
  "loop_result p = Some (Inr ()) \<longleftrightarrow> p = Ended (Inr ())"
  "loop_result p = Some (Inl (Raised_by_loop e)) \<longleftrightarrow> p = Ended (Inl e)"
  "loop_result p = Some (Inl Loop_panicked) \<longleftrightarrow> p = Cancelled"
  "loop_result p \<noteq> Some (Inl Finished_normally)" "loop_result p \<noteq> Some (Inl Raised_cancelled)"
  by (cases p rule: loop_result.cases; auto)+

lemma wrapper_inv_step:
  assumes "wrapper_step D c d" and inv: "wrapper_inv D c"
  shows "wrapper_inv D d"
  using assms(1)
proof (cases rule: wrapper_step.cases)
  case (loop u)
  from loop(2) have "live_step D (sc_server c) u" by (rule live_step.server)
  moreover from loop(2) have "running (sc_server c)" "lv_event u = lv_event (sc_server c)"
    by (rule server_step_running, rule server_step_event)
  ultimately show ?thesis
    using inv loop(1) by (auto simp: wrapper_inv_def running_def split: wrapper_phase.splits outcome.splits)
next
  case returns
  then show ?thesis
    using inv event_run [of D "Some False" "sc_server c"] by (auto simp: wrapper_inv_def loop_result_Some)
next
  case (raises r)
  then show ?thesis
    using inv by (cases r) (auto simp: wrapper_inv_def loop_result_Some)
next
  case cancelled
  have "live_step D (sc_server c) ((sc_server c)\<lparr>lv_event := Some True\<rparr>)"
    using inv cancelled(2) by (intro live_step.signal) (simp add: wrapper_inv_def)
  with inv cancelled show ?thesis by (auto simp: wrapper_inv_def intro: rtranclp.rtrancl_into_rtrancl)
next
  case stopped
  then show ?thesis using inv by (auto simp: wrapper_inv_def loop_result_Some)
qed (use inv in simp)

lemma wrapper_inv_run: "(wrapper_step D)\<^sup>*\<^sup>* serve_called c \<Longrightarrow> wrapper_inv D c"
proof (induction rule: rtranclp_induct)
  case base
  show ?case by (simp add: wrapper_inv_def serve_called_def live_start_def)
next
  case (step c d)
  with wrapper_inv_step show ?case by blast
qed

text \<open>With a configuration that \<open>serve\<close> accepted, the loop does not panic.\<close>

lemma server_step_no_panic:
  assumes "server_step D v u" and "\<forall>f. handlers D = Inl f \<longrightarrow> (\<exists>e. f = Pg e)" and "lv_phase v \<noteq> Cancelled"
  shows "lv_phase u \<noteq> Cancelled"
  using assms
proof (cases rule: server_step.cases)
  case (accept c)
  with assms(2,3) show ?thesis by (auto simp: admit_def give_up_def split: sum.split)
qed (auto simp: give_up_def elim: wind_down.cases)

lemma wrapper_no_panic:
  assumes "(wrapper_step D)\<^sup>*\<^sup>* serve_called c" and "\<forall>f. handlers D = Inl f \<longrightarrow> (\<exists>e. f = Pg e)"
  shows "lv_phase (sc_server c) \<noteq> Cancelled"
  using assms(1)
proof (induction rule: rtranclp_induct)
  case base
  show ?case by (simp add: serve_called_def live_start_def)
next
  case (step c d)
  from step(2,3) show ?case
    by (cases rule: wrapper_step.cases) (use server_step_no_panic [OF _ assms(2)] in auto)
qed


section \<open>A concrete run\<close>

definition sample_run :: "nat \<Rightarrow> (nat, mem_store) live_server" where
  "sample_run = then_forever
     [live_start (Some False), with_task Accepting False [Greeting login_conn] [],
      with_task Accepting False [Greeting greeted_conn] [], with_task Accepting False [Answering greeted_conn] [],
      with_task Accepting False [Answering prepared_conn] [], signalled_server, stopping_server,
      with_task Draining True [Leaving prepared_conn] [],
      with_task Draining True [Gone (snd (cleanup sample_env prepared_conn))] [],
      with_task Draining True [] [snd (cleanup sample_env prepared_conn)], stopped_server]"

lemma sample_run_ok: "run_of (live_step sample_deployment) sample_run"
  unfolding sample_run_def using sample_steps by (intro then_forever_run) simp_all

lemma sample_run_fair: "weakly_fair shutdown_step sample_run" "weakly_fair (wind_down sample_deployment) sample_run"
  unfolding sample_run_def
  by (intro then_forever_fair; auto simp: stopped_server_def shutdown_step_def running_def elim!: wind_down.cases)+

lemma told_server_stops_witness: "\<exists>m. \<not> running (sample_run m)"
proof -
  have "sample_run 0 = live_start (Some False)" by (simp add: sample_run_def then_forever_def)
  moreover have "lv_event (sample_run 5) = Some True"
    by (simp add: sample_run_def then_forever_def signalled_server_def eval_nat_numeral)
  ultimately show ?thesis
    using told_server_stops [OF sample_deployment_ok _ sample_run_ok sample_run_fair] by blast
qed

definition cancelled_call :: "(nat, mem_store) serve_call" where
  "cancelled_call = \<lparr>sc_phase = Over Raised_cancelled, sc_server = stopped_server\<rparr>"

lemma loop_moves:
  "server_step D v u \<Longrightarrow> wrapper_step D \<lparr>sc_phase = p, sc_server = v\<rparr> \<lparr>sc_phase = p, sc_server = u\<rparr>"
  using wrapper_step.loop [of D "\<lparr>sc_phase = p, sc_server = v\<rparr>" u] by simp

lemma cancelled_reach: "(wrapper_step sample_deployment)\<^sup>*\<^sup>* serve_called cancelled_call"
proof -
  let ?step = "wrapper_step sample_deployment" and ?c = "\<lambda>p v. \<lparr>sc_phase = p, sc_server = v\<rparr>"
  let ?v = "with_task Accepting False [Answering prepared_conn] []"
  have 1: "?step\<^sup>*\<^sup>* serve_called (?c Awaiting ?v)"
    unfolding serve_called_def using serving_steps(1-4) [THEN loop_moves] by (meson rtranclp.intros)
  have 2: "?step (?c Awaiting ?v) (?c Stopping_loop signalled_server)"
    using wrapper_step.cancelled [of "?c Awaiting ?v"] by (simp add: signalled_server_def)
  have 3: "?step\<^sup>*\<^sup>* (?c Stopping_loop signalled_server) (?c Stopping_loop stopped_server)"
    using serving_steps(5) [THEN loop_moves] stopping_steps [THEN loop_moves] by (meson rtranclp.intros)
  have 4: "?step (?c Stopping_loop stopped_server) cancelled_call"
    using wrapper_step.stopped [of "?c Stopping_loop stopped_server" sample_deployment]
    by (simp add: stopped_server_def cancelled_call_def)
  from 1 2 3 4 show ?thesis by (meson rtranclp.rtrancl_into_rtrancl rtranclp_trans)
qed

text \<open>The configuration of the sample is the one \<open>serve\<close> makes of these arguments.\<close>

definition trust_args :: serve_args where
  "trust_args = (serve_defaults 5 ''127.0.0.1:5432'')\<lparr>sa_session_factory := Some 8, sa_auth_method := ''trust''\<rparr>"

lemma trust_args_accepted:
  "serve_config sample_runtime (\<lambda>_. False) Inr sample_libs sample_digests (\<lambda>_. Inr []) (replicate 32 1) trust_args =
     Inr (''127.0.0.1:5432'', None, dp_config sample_deployment)"
  unfolding serve_config_Inr
  by (simp add: trust_args_def serve_defaults_def trust_cfg_def sample_deployment_def choose_auth_method_def
      tls_setup_def verifier_config_def)


end
