(* ===== verification/Module_Init.thy ===== *)
theory Module_Init
  imports Errors Messages
begin

text \<open>
  The start of the extension module: the initialiser of \<open>_pywire\<close> (\<open>src/lib.rs\<close>) and the function
  \<open>register\<close> of every source file. Module objects are shared (\<open>sys.modules\<close> and the attribute of the
  parent name the same object), so they live in a store and are named by their index. Any call of
  Python's interface may raise.
\<close>

section \<open>The interpreter\<close>

datatype attribute =
    A_exception exc_class
  | A_class string
  | A_function string
  | A_module nat

record py_module =
  mo_name :: string
  mo_dict :: "attribute table"

datatype runtime_builder = Multi_thread bool

record interpreter =
  in_heap :: "py_module list"
  in_modules :: "nat table"
  in_runtime :: "runtime_builder option"
  in_calls :: nat

datatype init_failure = Raised py_err | Type_panic py_err

text \<open>Which call of Python raises what; the calls are counted.\<close>

type_synonym faults = "nat \<Rightarrow> py_err option"

type_synonym 'a py = "(interpreter, init_failure, 'a) prog"

definition attempt :: "faults \<Rightarrow> (py_err \<Rightarrow> init_failure) \<Rightarrow> unit py" where
  "attempt F wrap =
     bindE (gets in_calls) (\<lambda>n.
     thenE (modify (\<lambda>s. s\<lparr>in_calls := Suc n\<rparr>))
           (case F n of Some e \<Rightarrow> throw (wrap e) | None \<Rightarrow> ret ()))"

abbreviation api :: "faults \<Rightarrow> unit py" where
  "api F \<equiv> attempt F Raised"

text \<open>\<open>PyModule::new\<close> and \<open>PyModule::add\<close>: a new module object, and an attribute of one.\<close>

definition module_new :: "faults \<Rightarrow> string \<Rightarrow> nat py" where
  "module_new F name =
     thenE (api F)
    (bindE (gets (\<lambda>s. length (in_heap s))) (\<lambda>m.
     thenE (modify (\<lambda>s. s\<lparr>in_heap := in_heap s @ [\<lparr>mo_name = name, mo_dict = []\<rparr>]\<rparr>))
           (ret m)))"

definition set_attribute :: "nat \<Rightarrow> string \<Rightarrow> attribute \<Rightarrow> py_module list \<Rightarrow> py_module list" where
  "set_attribute m name a h = h[m := (h ! m)\<lparr>mo_dict := table_insert name a (mo_dict (h ! m))\<rparr>]"

definition add :: "faults \<Rightarrow> nat \<Rightarrow> string \<Rightarrow> attribute \<Rightarrow> unit py" where
  "add F m name a =
     thenE (api F) (modify (\<lambda>s. s\<lparr>in_heap := set_attribute m name a (in_heap s)\<rparr>))"

text \<open>What a registration adds: an exception class (\<open>reg!\<close>; creating its type object is an \<open>expect\<close>), a
  class with its type object, or a wrapped function under its \<open>__name__\<close>.\<close>

datatype item = Exception_item exc_class | Class_item string | Function_item string

fun item_name :: "item \<Rightarrow> string" where
  "item_name (Exception_item c) = exc_name c"
| "item_name (Class_item n) = n"
| "item_name (Function_item n) = n"

fun item_attribute :: "item \<Rightarrow> attribute" where
  "item_attribute (Exception_item c) = A_exception c"
| "item_attribute (Class_item n) = A_class n"
| "item_attribute (Function_item n) = A_function n"

fun obtain_item :: "faults \<Rightarrow> item \<Rightarrow> unit py" where
  "obtain_item F (Exception_item c) = attempt F Type_panic"
| "obtain_item F (Class_item n) = api F"
| "obtain_item F (Function_item n) = thenE (api F) (api F)"

definition add_item :: "faults \<Rightarrow> nat \<Rightarrow> item \<Rightarrow> unit py" where
  "add_item F m it = thenE (obtain_item F it) (add F m (item_name it) (item_attribute it))"

text \<open>\<open>add_submodule\<close> reads the name of the module it adds.\<close>

definition add_submodule :: "faults \<Rightarrow> nat \<Rightarrow> nat \<Rightarrow> unit py" where
  "add_submodule F parent m =
     thenE (api F) (bindE (gets (\<lambda>s. mo_name (in_heap s ! m))) (\<lambda>name. add F parent name (A_module m)))"

text \<open>\<open>import sys\<close>, its attribute \<open>modules\<close>, and the entry set in it.\<close>

definition enter_sys_modules :: "faults \<Rightarrow> string \<Rightarrow> nat \<Rightarrow> unit py" where
  "enter_sys_modules F q m =
     thenE (api F) (thenE (api F) (thenE (api F)
       (modify (\<lambda>s. s\<lparr>in_modules := table_insert q m (in_modules s)\<rparr>))))"

section \<open>The registrations\<close>

definition register_submodule :: "faults \<Rightarrow> nat \<Rightarrow> string \<Rightarrow> string \<Rightarrow> item list \<Rightarrow> unit py" where
  "register_submodule F parent name q items =
     bindE (module_new F name) (\<lambda>m.
     thenE (for_each (add_item F m) items)
    (thenE (add_submodule F parent m)
           (enter_sys_modules F q m)))"

definition errors_items :: "item list" where
  "errors_items =
     map Exception_item registered @
     [Class_item ''ErrorInfo'', Function_item ''_test_raise_for'', Function_item ''_test_py_err_to_pywire_tag'']"

fun message_class_name :: "message_class \<Rightarrow> string" where
  "message_class_name C_TransactionStatus = ''TransactionStatus''"
| "message_class_name C_FieldDescription = ''FieldDescription''"
| "message_class_name C_Startup = ''Startup''"
| "message_class_name C_Query = ''Query''"
| "message_class_name C_Terminate = ''Terminate''"
| "message_class_name C_ReadyForQuery = ''ReadyForQuery''"
| "message_class_name C_CommandComplete = ''CommandComplete''"
| "message_class_name C_RowDescription = ''RowDescription''"
| "message_class_name C_DataRow = ''DataRow''"
| "message_class_name C_ErrorResponse = ''ErrorResponse''"

definition messages_items :: "item list" where
  "messages_items = map (\<lambda>c. Class_item (message_class_name c)) registered_messages"

definition scram_items :: "item list" where
  "scram_items = [Class_item ''ScramVerifier'']"

definition auth_items :: "item list" where
  "auth_items =
     [Class_item ''LoginInfo'', Class_item ''Password''] @ scram_items @ [Function_item ''_test_call_get_password'']"

definition query_items :: "item list" where
  "query_items = [Class_item ''FieldInfo'', Class_item ''Response'', Function_item ''_test_drive_handler'']"

definition server_items :: "item list" where
  "server_items = [Function_item ''serve'', Function_item ''_test_bind_ephemeral'']"

definition runtime_items :: "item list" where
  "runtime_items =
     [Function_item ''_test_async_sleep'', Function_item ''_test_await_python_coro'', Function_item ''_test_async_add'']"

definition register_errors :: "faults \<Rightarrow> nat \<Rightarrow> unit py" where
  "register_errors F parent = register_submodule F parent ''errors'' ''pywire._pywire.errors'' errors_items"

definition register_messages :: "faults \<Rightarrow> nat \<Rightarrow> unit py" where
  "register_messages F parent = register_submodule F parent ''messages'' ''pywire._pywire.messages'' messages_items"

definition register_auth :: "faults \<Rightarrow> nat \<Rightarrow> unit py" where
  "register_auth F parent = register_submodule F parent ''auth'' ''pywire._pywire.auth'' auth_items"

definition register_query :: "faults \<Rightarrow> nat \<Rightarrow> unit py" where
  "register_query F parent = register_submodule F parent ''query'' ''pywire._pywire.query'' query_items"

definition register_server :: "faults \<Rightarrow> nat \<Rightarrow> unit py" where
  "register_server F parent = for_each (add_item F parent) server_items"

definition register_runtime :: "faults \<Rightarrow> nat \<Rightarrow> unit py" where
  "register_runtime F parent = for_each (add_item F parent) runtime_items"

text \<open>\<open>runtime::init\<close> only stores the builder of the runtime, and cannot fail.\<close>

definition runtime_init :: "unit py" where
  "runtime_init = modify (\<lambda>s. s\<lparr>in_runtime := Some (Multi_thread True)\<rparr>)"

definition pywire_init :: "faults \<Rightarrow> nat \<Rightarrow> unit py" where
  "pywire_init F m =
     thenE runtime_init
    (thenE (add_item F m (Function_item ''supported_protocol_range''))
    (thenE (register_errors F m)
    (thenE (register_messages F m)
    (thenE (register_auth F m)
    (thenE (register_query F m)
    (thenE (register_server F m)
           (register_runtime F m)))))))"

section \<open>What the Python package imports\<close>

text \<open>The names the modules of the package \<open>pywire\<close> and its tests import from the extension module, by
  the module they import them from.\<close>

definition package_imports :: "(string option \<times> string list) list" where
  "package_imports =
     [(Some ''errors'',
       [''ApiError'', ''AuthError'', ''Error'', ''ErrorInfo'', ''FailedToCoercePasswordMessage'',
        ''FailedToParseParameter'', ''InvalidAuthenticationMessageCode'', ''InvalidCancelRequest'',
        ''InvalidElementCount'', ''InvalidGssEncRequestMessage'', ''InvalidMessageType'', ''InvalidOauthMessage'',
        ''InvalidOptionValue'', ''InvalidPassword'', ''InvalidRustTypeForParameter'', ''InvalidSASLState'',
        ''InvalidScramMessage'', ''InvalidSecretKey'', ''InvalidSSLRequestMessage'', ''InvalidStartupMessage'',
        ''InvalidTargetType'', ''InvalidTransactionStatus'', ''MessageTooLarge'', ''NotReadyForQuery'',
        ''OAuthAuthenticationFailed'', ''OauthAuthzIdError'', ''OAuthValidationError'',
        ''ParameterIndexOutOfBound'', ''PortalNotFound'', ''PortalNotStarted'', ''ProtocolError'',
        ''QueryCanceled'', ''StatementNotFound'', ''UnsupportedCertificateSignatureAlgorithm'',
        ''UnsupportedProtocolVersion'', ''UnsupportedSASLAuthMethod'', ''UserError'', ''UserNameRequired'',
        ''_test_py_err_to_pywire_tag'', ''_test_raise_for'']),
      (Some ''messages'',
       [''CommandComplete'', ''DataRow'', ''ErrorResponse'', ''FieldDescription'', ''Query'', ''ReadyForQuery'',
        ''RowDescription'', ''Startup'', ''Terminate'', ''TransactionStatus'']),
      (Some ''auth'', [''LoginInfo'', ''Password'', ''ScramVerifier'', ''_test_call_get_password'']),
      (Some ''query'', [''FieldInfo'', ''Response'', ''_test_drive_handler'']),
      (None,
       [''supported_protocol_range'', ''serve'', ''_test_bind_ephemeral'', ''_test_async_add'',
        ''_test_async_sleep'', ''_test_await_python_coro''])]"

definition full_name :: "string \<Rightarrow> string" where
  "full_name sub = ''pywire._pywire.'' @ sub"

text \<open>How \<open>from pywire._pywire.sub import name\<close> finds its value: by the entry in \<open>sys.modules\<close>.\<close>

definition import_from :: "interpreter \<Rightarrow> nat \<Rightarrow> string option \<Rightarrow> string \<Rightarrow> attribute option" where
  "import_from s m sub name =
     (case sub of
        None \<Rightarrow> table_get (mo_dict (in_heap s ! m)) name
      | Some sub \<Rightarrow>
          (case table_get (in_modules s) (full_name sub) of
             None \<Rightarrow> None
           | Some i \<Rightarrow> table_get (mo_dict (in_heap s ! i)) name))"

section \<open>What a registration does\<close>

definition extend :: "item list \<Rightarrow> attribute table \<Rightarrow> attribute table" where
  "extend items d = fold (\<lambda>it. table_insert (item_name it) (item_attribute it)) items d"

definition grown :: "nat \<Rightarrow> item list \<Rightarrow> py_module list \<Rightarrow> py_module list" where
  "grown m items h = h[m := (h ! m)\<lparr>mo_dict := extend items (mo_dict (h ! m))\<rparr>]"

definition core :: "interpreter \<Rightarrow> py_module list \<times> nat table \<times> runtime_builder option" where
  "core s = (in_heap s, in_modules s, in_runtime s)"

text \<open>The failures that the faults can cause.\<close>

definition failed :: "faults \<Rightarrow> init_failure \<Rightarrow> bool" where
  "failed F e \<longleftrightarrow> (\<exists>n x. F n = Some x \<and> (e = Raised x \<or> e = Type_panic x))"

lemma core_simps [simp]:
  "core (s\<lparr>in_heap := h\<rparr>) = (h, in_modules s, in_runtime s)"
  "core (s\<lparr>in_modules := t\<rparr>) = (in_heap s, t, in_runtime s)"
  "core (s\<lparr>in_runtime := b\<rparr>) = (in_heap s, in_modules s, b)"
  "core (s\<lparr>in_calls := n\<rparr>) = core s"
  by (simp_all add: core_def)

lemma extend_simps [simp]:
  "extend [] d = d"
  "extend (it # items) d = extend items (table_insert (item_name it) (item_attribute it) d)"
  by (simp_all add: extend_def)

lemma grown_simps [simp]:
  "length (grown m items h) = length h"
  "grown m [] h = h"
  "m < length h \<Longrightarrow> grown m (it # items) h = grown m items (set_attribute m (item_name it) (item_attribute it) h)"
  "i \<noteq> m \<Longrightarrow> grown m items h ! i = h ! i"
  "m < length h \<Longrightarrow> grown m items h ! m = (h ! m)\<lparr>mo_dict := extend items (mo_dict (h ! m))\<rparr>"
  by (simp_all add: grown_def set_attribute_def)

lemma set_attribute_simps [simp]:
  "length (set_attribute m name a h) = length h"
  "i \<noteq> m \<Longrightarrow> set_attribute m name a h ! i = h ! i"
  "m < length h \<Longrightarrow> set_attribute m name a h ! m = (h ! m)\<lparr>mo_dict := table_insert name a (mo_dict (h ! m))\<rparr>"
  by (simp_all add: set_attribute_def)

lemma extend_other: "n \<notin> item_name ` set items \<Longrightarrow> table_get (extend items d) n = table_get d n"
  by (induction items arbitrary: d) auto

lemma extend_get:
  "distinct (map item_name items) \<Longrightarrow> it \<in> set items \<Longrightarrow>
   table_get (extend items d) (item_name it) = Some (item_attribute it)"
  by (induction items arbitrary: d) (auto simp: extend_other)

text \<open>The triples of the calls: on an error, nothing but the store of modules can have changed.\<close>

lemma attempt_triple:
  assumes "w = Raised \<or> w = Type_panic"
  shows "triple (\<lambda>s. core s = k) (attempt F w) (\<lambda>_ s. core s = k) (\<lambda>e s. core s = k \<and> failed F e)"
  using assms by (auto simp: triple_def attempt_def failed_def prog_simps split: option.split)

lemma api_then:
  assumes "triple (\<lambda>s. core s = k) m Q R" and "\<And>e s. core s = k \<Longrightarrow> failed F e \<Longrightarrow> R e s"
  shows "triple (\<lambda>s. core s = k) (thenE (api F) m) Q R"
  by (rule triple_thenE [OF triple_weaken [OF attempt_triple] assms(1)]) (auto intro: assms(2))

lemma obtain_triple:
  "triple (\<lambda>s. core s = k) (obtain_item F it) (\<lambda>_ s. core s = k) (\<lambda>e s. core s = k \<and> failed F e)"
  by (cases it) (auto intro!: attempt_triple api_then)

lemma add_triple:
  "triple (\<lambda>s. core s = (h, ms, b)) (add F m name a) (\<lambda>_ s. core s = (set_attribute m name a h, ms, b))
     (\<lambda>e s. core s = (h, ms, b) \<and> failed F e)"
  unfolding add_def by (rule api_then) (auto intro!: triple_modify simp: core_def)

lemma add_item_triple:
  "triple (\<lambda>s. core s = (h, ms, b)) (add_item F m it)
     (\<lambda>_ s. core s = (set_attribute m (item_name it) (item_attribute it) h, ms, b))
     (\<lambda>e s. core s = (h, ms, b) \<and> failed F e)"
  unfolding add_item_def by (rule triple_thenE [OF obtain_triple add_triple])

text \<open>The modules other than \<open>m\<close> as they were.\<close>

definition only_at :: "nat \<Rightarrow> py_module list \<Rightarrow> py_module list \<Rightarrow> bool" where
  "only_at m h h' \<longleftrightarrow> length h \<le> length h' \<and> (\<forall>i < length h. i \<noteq> m \<longrightarrow> h' ! i = h ! i)"

lemma only_at_refl [simp]: "only_at m h h"
  by (simp add: only_at_def)

lemma only_at_set [simp]: "only_at m h (set_attribute m name a h)"
  by (simp add: only_at_def)

lemma only_at_trans: "only_at m h h' \<Longrightarrow> only_at m h' h'' \<Longrightarrow> only_at m h h''"
  by (auto simp: only_at_def)

lemma only_at_append: "only_at (length h) (h @ [x]) h' \<Longrightarrow> only_at m h h'"
  by (auto simp: only_at_def nth_append split: if_splits)

lemma populate_triple:
  assumes "m < length h"
  shows "triple (\<lambda>s. core s = (h, ms, b)) (for_each (add_item F m) items)
    (\<lambda>_ s. core s = (grown m items h, ms, b))
    (\<lambda>e s. (\<exists>h'. core s = (h', ms, b) \<and> only_at m h h') \<and> failed F e)"
  using assms
proof (induction items arbitrary: h)
  case (Cons it items)
  let ?h = "set_attribute m (item_name it) (item_attribute it) h"
  let ?R = "\<lambda>e s. (\<exists>h'. core s = (h', ms, b) \<and> only_at m h h') \<and> failed F e"
  have one: "triple (\<lambda>s. core s = (h, ms, b)) (add_item F m it) (\<lambda>_ s. core s = (?h, ms, b)) ?R"
    by (rule triple_weaken [OF add_item_triple]) auto
  have rest: "triple (\<lambda>s. core s = (?h, ms, b)) (for_each (add_item F m) items)
      (\<lambda>_ s. core s = (grown m (it # items) h, ms, b)) ?R"
    using Cons.prems only_at_trans [OF only_at_set] by (intro triple_weaken [OF Cons.IH [of ?h]]) auto
  show ?case by (simp only: for_each.simps) (rule triple_thenE [OF one rest])
qed (simp add: triple_ret)

text \<open>A registration that succeeds has put a complete module in the store, under both of its names;
  one that fails has not touched \<open>sys.modules\<close>.\<close>

definition built :: "string \<Rightarrow> item list \<Rightarrow> py_module" where
  "built name items = \<lparr>mo_name = name, mo_dict = extend items []\<rparr>"

lemma module_new_triple:
  "triple (\<lambda>s. core s = (h, ms, b)) (module_new F name)
     (\<lambda>m s. m = length h \<and> core s = (h @ [built name []], ms, b))
     (\<lambda>e s. (\<exists>h'. core s = (h', ms, b) \<and> only_at p h h') \<and> failed F e)"
  unfolding module_new_def by (rule api_then) (auto simp: triple_def prog_simps core_def built_def)

lemma fill_triple:
  "triple (\<lambda>s. core s = (h @ [built name []], ms, b)) (for_each (add_item F (length h)) items)
     (\<lambda>_ s. core s = (h @ [built name items], ms, b))
     (\<lambda>e s. (\<exists>h'. core s = (h', ms, b) \<and> only_at p h h') \<and> failed F e)"
proof -
  have "grown (length h) items (h @ [built name []]) = h @ [built name items]"
    by (simp add: grown_def built_def)
  with triple_weaken [OF populate_triple [of "length h" "h @ [built name []]" ms b F items]] only_at_append
  show ?thesis by (smt (verit, del_insts) length_append_singleton lessI)
qed

lemma submodule_triple:
  assumes "p < length h"
  shows "triple (\<lambda>s. core s = (h @ [built name items], ms, b)) (add_submodule F p (length h))
    (\<lambda>_ s. core s = (set_attribute p name (A_module (length h)) (h @ [built name items]), ms, b))
    (\<lambda>e s. (\<exists>h'. core s = (h', ms, b) \<and> only_at p h h') \<and> failed F e)"
  unfolding add_submodule_def
proof (rule api_then)
  let ?P = "\<lambda>s. core s = (h @ [built name items], ms, b)"
    and ?Q = "\<lambda>_ s. core s = (set_attribute p name (A_module (length h)) (h @ [built name items]), ms, b)"
    and ?R = "\<lambda>e s. (\<exists>h'. core s = (h', ms, b) \<and> only_at p h h') \<and> failed F e"
  show "triple ?P (bindE (gets (\<lambda>s. mo_name (in_heap s ! length h))) (\<lambda>name. add F p name (A_module (length h)))) ?Q ?R"
  proof (rule triple_bind_gets)
    fix x
    have "triple ?P (add F p name (A_module (length h))) ?Q ?R"
      by (intro triple_weaken [OF add_triple]) (auto simp: only_at_def nth_append)
    then show "triple (\<lambda>s. ?P s \<and> x = mo_name (in_heap s ! length h)) (add F p x (A_module (length h))) ?Q ?R"
      by (auto simp: triple_def core_def built_def)
  qed
qed (auto simp: only_at_def nth_append)

lemma register_triple:
  assumes "p < length h"
  shows "triple (\<lambda>s. core s = (h, ms, b)) (register_submodule F p name q items)
    (\<lambda>_ s. core s = (set_attribute p name (A_module (length h)) (h @ [built name items]), table_insert q (length h) ms, b))
    (\<lambda>e s. (\<exists>h'. core s = (h', ms, b) \<and> only_at p h h') \<and> failed F e)"
    (is "triple ?P _ ?Q ?R")
proof -
  let ?m = "length h"
  have pub: "triple (\<lambda>s. core s = (set_attribute p name (A_module ?m) (h @ [built name items]), ms, b))
      (enter_sys_modules F q ?m) ?Q ?R"
    unfolding enter_sys_modules_def using assms
    by (intro api_then triple_modify) (auto simp: core_def only_at_def nth_append set_attribute_def nth_list_update)
  show ?thesis
    unfolding register_submodule_def
  proof (rule triple_bindE [OF module_new_triple])
    fix m
    show "triple (\<lambda>s. m = ?m \<and> core s = (h @ [built name []], ms, b))
        (thenE (for_each (add_item F m) items) (thenE (add_submodule F p m) (enter_sys_modules F q m))) ?Q ?R"
      by (rule triple_pre [where C = "m = ?m"])
        (auto intro!: triple_thenE [OF fill_triple triple_thenE [OF submodule_triple [OF assms] pub]])
  qed
qed

section \<open>The initialiser\<close>

definition submodules :: "(string \<times> item list) list" where
  "submodules =
     [(''errors'', errors_items), (''messages'', messages_items), (''auth'', auth_items), (''query'', query_items)]"

text \<open>Every entry of \<open>sys.modules\<close> is an old one or a complete new module, and of the old modules only
  \<open>p\<close> has changed.\<close>

definition whole :: "py_module list \<Rightarrow> string \<Rightarrow> nat \<Rightarrow> py_module list \<Rightarrow> bool" where
  "whole old q i h \<longleftrightarrow>
     (\<exists>name items. (name, items) \<in> set submodules \<and> q = full_name name \<and>
        length old \<le> i \<and> i < length h \<and> h ! i = built name items)"

definition tidy :: "nat \<Rightarrow> interpreter \<Rightarrow> interpreter \<Rightarrow> bool" where
  "tidy p s t \<longleftrightarrow>
     only_at p (in_heap s) (in_heap t) \<and>
     (\<forall>q. table_get (in_modules t) q = table_get (in_modules s) q \<or>
        (\<exists>i. table_get (in_modules t) q = Some i \<and> whole (in_heap s) q i (in_heap t)))"

lemma tidy_heap:
  assumes "tidy p s t" and "p < length (in_heap s)" and "only_at p (in_heap t) h" and "in_heap u = h"
    and "in_modules u = in_modules t"
  shows "tidy p s u"
  unfolding tidy_def
proof (intro conjI allI)
  show "only_at p (in_heap s) (in_heap u)" using assms only_at_trans by (auto simp: tidy_def)
  fix q
  have "whole (in_heap s) q i (in_heap u)" if "whole (in_heap s) q i (in_heap t)" for i
  proof -
    from that assms(2) have "i \<noteq> p" "i < length (in_heap t)" by (auto simp: whole_def)
    with assms(3,4) have "in_heap u ! i = in_heap t ! i" "i < length (in_heap u)" by (auto simp: only_at_def)
    with that show ?thesis unfolding whole_def by metis
  qed
  with assms(1,5) show "table_get (in_modules u) q = table_get (in_modules s) q \<or>
      (\<exists>i. table_get (in_modules u) q = Some i \<and> whole (in_heap s) q i (in_heap u))"
    by (metis tidy_def)
qed

lemma triple_at: "triple P m Q R \<Longrightarrow> P s \<Longrightarrow> case m s of (Inl e, t) \<Rightarrow> R e t | (Inr x, t) \<Rightarrow> Q x t"
  by (simp add: triple_def)

lemma keeps_tidy_item:
  assumes "p < length (in_heap s)"
  shows "triple (tidy p s) (add_item F p it) (\<lambda>_. tidy p s) (\<lambda>e t. tidy p s t \<and> failed F e)"
  unfolding triple_def
proof (intro allI impI)
  fix t assume t: "tidy p s t"
  have "core t = (in_heap t, in_modules t, in_runtime t)" by (simp add: core_def)
  from triple_at [OF add_item_triple [where F = F and m = p and it = it] this]
  show "case add_item F p it t of (Inl e, t) \<Rightarrow> tidy p s t \<and> failed F e | (Inr x, t) \<Rightarrow> tidy p s t"
    using tidy_heap [OF t assms only_at_refl] tidy_heap [OF t assms only_at_set]
    by (auto simp: core_def split: sum.splits prod.splits)
qed

lemma keeps_tidy_register:
  assumes p: "p < length (in_heap s)" and m: "(name, items) \<in> set submodules" "q = full_name name"
  shows "triple (tidy p s) (register_submodule F p name q items) (\<lambda>_. tidy p s) (\<lambda>e t. tidy p s t \<and> failed F e)"
  unfolding triple_def
proof (intro allI impI)
  fix t assume t: "tidy p s t"
  then have pt: "p < length (in_heap t)" using p by (simp add: tidy_def only_at_def)
  have "core t = (in_heap t, in_modules t, in_runtime t)" by (simp add: core_def)
  note step = triple_at [OF register_triple [OF pt, where F = F and name = name and q = q and items = items] this]
  have ok: "tidy p s u" if h: "in_heap u = set_attribute p name (A_module (length (in_heap t))) (in_heap t @ [built name items])"
    and ms: "in_modules u = table_insert q (length (in_heap t)) (in_modules t)" for u
  proof -
    let ?v = "u\<lparr>in_modules := in_modules t\<rparr>"
    have "only_at p (in_heap t) (in_heap u)" using h by (simp add: only_at_def nth_append)
    with tidy_heap [OF t p] have v: "tidy p s ?v" by simp
    have "whole (in_heap s) q (length (in_heap t)) (in_heap u)"
      using t pt m h unfolding whole_def by (auto simp: tidy_def only_at_def nth_append)
    with v ms show ?thesis by (auto simp: tidy_def)
  qed
  from step show "case register_submodule F p name q items t of (Inl e, t) \<Rightarrow> tidy p s t \<and> failed F e | (Inr x, t) \<Rightarrow> tidy p s t"
    using ok tidy_heap [OF t p] by (auto simp: core_def split: sum.splits prod.splits)
qed

lemmas register_defs = register_errors_def register_messages_def register_auth_def register_query_def

lemma init_tidy:
  assumes "p < length (in_heap s)"
  shows "triple (\<lambda>t. t = s) (pywire_init F p) (\<lambda>_. tidy p s) (\<lambda>e t. tidy p s t \<and> failed F e)"
proof -
  have start: "triple (\<lambda>t. t = s) runtime_init (\<lambda>_. tidy p s) (\<lambda>e t. tidy p s t \<and> failed F e)"
    unfolding runtime_init_def by (rule triple_modify) (simp add: tidy_def)
  have items: "triple (tidy p s) (for_each (add_item F p) its) (\<lambda>_. tidy p s) (\<lambda>e t. tidy p s t \<and> failed F e)" for its
    by (rule triple_for_each) (rule keeps_tidy_item [OF assms])
  show ?thesis
    unfolding pywire_init_def register_defs register_server_def register_runtime_def
    by (intro triple_thenE [OF start] triple_thenE [OF keeps_tidy_item [OF assms]] triple_thenE [OF items] items
        triple_thenE [OF keeps_tidy_register [OF assms]]) (simp_all add: submodules_def full_name_def)
qed

text \<open>The store and \<open>sys.modules\<close> after an initialisation without a fault.\<close>

definition plugged :: "nat \<Rightarrow> string \<Rightarrow> item list \<Rightarrow> py_module list \<Rightarrow> py_module list" where
  "plugged p name items h = set_attribute p name (A_module (length h)) (h @ [built name items])"

definition final_heap :: "nat \<Rightarrow> py_module list \<Rightarrow> py_module list" where
  "final_heap p h =
     grown p runtime_items (grown p server_items
       (plugged p ''query'' query_items (plugged p ''auth'' auth_items (plugged p ''messages'' messages_items
         (plugged p ''errors'' errors_items
           (set_attribute p ''supported_protocol_range'' (A_function ''supported_protocol_range'') h))))))"

definition final_modules :: "nat \<Rightarrow> nat table \<Rightarrow> nat table" where
  "final_modules n ms =
     table_insert ''pywire._pywire.query'' (n + 3) (table_insert ''pywire._pywire.auth'' (n + 2)
       (table_insert ''pywire._pywire.messages'' (n + 1) (table_insert ''pywire._pywire.errors'' n ms)))"

lemma plugged_simps [simp]:
  "length (plugged p name items h) = Suc (length h)"
  "i < length h \<Longrightarrow> i \<noteq> p \<Longrightarrow> plugged p name items h ! i = h ! i"
  "p < length h \<Longrightarrow> i = length h \<Longrightarrow> plugged p name items h ! i = built name items"
  "p < length h \<Longrightarrow> plugged p name items h ! p = (h ! p)\<lparr>mo_dict := table_insert name (A_module (length h)) (mo_dict (h ! p))\<rparr>"
  by (simp_all add: plugged_def nth_append)

lemma succeeds:
  assumes "triple P m Q R"
  shows "triple P m Q (\<lambda>_ _. True)"
  using assms by (rule triple_weaken) simp_all

lemma init_success:
  assumes p: "p < length h"
  shows "triple (\<lambda>s. core s = (h, ms, b)) (pywire_init F p)
    (\<lambda>_ s. core s = (final_heap p h, final_modules (length h) ms, Some (Multi_thread True))) (\<lambda>_ _. True)"
proof -
  have start: "triple (\<lambda>s. core s = (h, ms, b)) runtime_init (\<lambda>_ s. core s = (h, ms, Some (Multi_thread True))) (\<lambda>_ _. True)"
    unfolding runtime_init_def by (rule triple_modify) (simp add: core_def)
  have reg: "p < length h' \<Longrightarrow> triple (\<lambda>s. core s = (h', ms', b')) (register_submodule F p name q items)
      (\<lambda>_ s. core s = (plugged p name items h', table_insert q (length h') ms', b')) (\<lambda>_ _. True)" for h' ms' b' name q items
    using succeeds [OF register_triple] by (simp add: plugged_def)
  have pop: "p < length h' \<Longrightarrow> triple (\<lambda>s. core s = (h', ms', b')) (for_each (add_item F p) items)
      (\<lambda>_ s. core s = (grown p items h', ms', b')) (\<lambda>_ _. True)" for h' ms' b' items
    by (rule succeeds [OF populate_triple])
  note item = succeeds [OF add_item_triple]
  show ?thesis
    unfolding pywire_init_def register_defs register_server_def register_runtime_def final_heap_def final_modules_def
    by (rule triple_weaken, rule triple_thenE [OF start],
        (rule triple_thenE [OF item] triple_thenE [OF reg] triple_thenE [OF pop] pop | (simp add: p less_SucI; fail))+)
       (simp_all add: eval_nat_numeral)
qed

lemma init_final:
  assumes "p < length (in_heap s)" and "pywire_init F p s = (Inr (), t)"
  shows "in_heap t = final_heap p (in_heap s)"
    and "in_modules t = final_modules (length (in_heap s)) (in_modules s)"
    and "in_runtime t = Some (Multi_thread True)"
proof -
  have "core s = (in_heap s, in_modules s, in_runtime s)" by (simp add: core_def)
  from triple_Inr [OF init_success [OF assms(1)] this assms(2)]
  show "in_heap t = final_heap p (in_heap s)" "in_modules t = final_modules (length (in_heap s)) (in_modules s)"
    "in_runtime t = Some (Multi_thread True)"
    by (simp_all add: core_def)
qed

lemma final_heap_new:
  assumes "p < length h"
  shows "final_heap p h ! length h = built ''errors'' errors_items"
    and "final_heap p h ! (length h + 1) = built ''messages'' messages_items"
    and "final_heap p h ! (length h + 2) = built ''auth'' auth_items"
    and "final_heap p h ! (length h + 3) = built ''query'' query_items"
  using assms by (simp_all add: final_heap_def)

text \<open>No two things of one module have the same name.\<close>

lemma item_names_distinct: "(name, items) \<in> set submodules \<Longrightarrow> distinct (map item_name items)"
proof -
  have "distinct (map item_name errors_items)" "distinct (map item_name messages_items)"
    "distinct (map item_name auth_items)" "distinct (map item_name query_items)"
    by (simp_all add: errors_items_def registered_def messages_items_def registered_messages_def auth_items_def
        scram_items_def query_items_def)
  then show "(name, items) \<in> set submodules \<Longrightarrow> distinct (map item_name items)"
    by (auto simp: submodules_def)
qed

lemma final_modules_get:
  "table_get (final_modules n ms) (full_name ''errors'') = Some n"
  "table_get (final_modules n ms) (full_name ''messages'') = Some (n + 1)"
  "table_get (final_modules n ms) (full_name ''auth'') = Some (n + 2)"
  "table_get (final_modules n ms) (full_name ''query'') = Some (n + 3)"
  by (simp_all add: final_modules_def full_name_def)

lemma final_main:
  assumes "p < length h"
  shows "table_get (mo_dict (final_heap p h ! p)) ''errors'' = Some (A_module (length h))"
    and "table_get (mo_dict (final_heap p h ! p)) ''messages'' = Some (A_module (length h + 1))"
    and "table_get (mo_dict (final_heap p h ! p)) ''auth'' = Some (A_module (length h + 2))"
    and "table_get (mo_dict (final_heap p h ! p)) ''query'' = Some (A_module (length h + 3))"
    and "n \<in> {''supported_protocol_range'', ''serve'', ''_test_bind_ephemeral'', ''_test_async_add'',
      ''_test_async_sleep'', ''_test_await_python_coro''} \<Longrightarrow>
      table_get (mo_dict (final_heap p h ! p)) n = Some (A_function n)"
  using assms by (auto simp: final_heap_def less_SucI runtime_items_def server_items_def)

text \<open>Where every submodule is found.\<close>

lemma submodule_final:
  assumes "p < length h" and "(name, items) \<in> set submodules"
  obtains i where "table_get (final_modules (length h) ms) (full_name name) = Some i"
    "table_get (mo_dict (final_heap p h ! p)) name = Some (A_module i)" "final_heap p h ! i = built name items"
  using assms(2) that final_heap_new [OF assms(1)] final_modules_get final_main(1-4) [OF assms(1)]
  unfolding submodules_def by auto

lemma package_items:
  assumes "(Some name, names) \<in> set package_imports"
  shows "\<exists>items. (name, items) \<in> set submodules \<and> set names \<subseteq> item_name ` set items"
proof -
  have m: "(''errors'', errors_items) \<in> set submodules" "(''messages'', messages_items) \<in> set submodules"
    "(''auth'', auth_items) \<in> set submodules" "(''query'', query_items) \<in> set submodules"
    by (simp_all add: submodules_def)
  from assms consider "name = ''errors''" | "name = ''messages''" | "name = ''auth''" | "name = ''query''"
    by (auto simp: package_imports_def)
  then show ?thesis
  proof cases
    case 1
    with assms have "set names \<subseteq> item_name ` set errors_items"
      by (simp add: package_imports_def errors_items_def registered_def)
    with 1 m(1) show ?thesis by blast
  next
    case 2
    with assms have "set names \<subseteq> item_name ` set messages_items"
      by (simp add: package_imports_def messages_items_def registered_messages_def)
    with 2 m(2) show ?thesis by blast
  next
    case 3
    with assms have "set names \<subseteq> item_name ` set auth_items"
      by (simp add: package_imports_def auth_items_def scram_items_def)
    with 3 m(3) show ?thesis by blast
  next
    case 4
    with assms have "set names \<subseteq> item_name ` set query_items"
      by (simp add: package_imports_def query_items_def)
    with 4 m(4) show ?thesis by blast
  qed
qed

section \<open>Properties\<close>

text \<open>C36: Importing the extension module never leaves a half-built module behind. Whichever call of Python
  fails, \<open>sys.modules\<close> afterwards maps every name to what it was before or to one of the four
  submodules with all its contents, no other module object has changed, and the import fails only
  when a call has failed. So a failed import can be retried.\<close>

theorem module_init_no_half_built:
  assumes "p < length (in_heap s)" and "pywire_init F p s = (r, t)"
  shows "(\<forall>q. table_get (in_modules t) q = table_get (in_modules s) q \<or>
      (\<exists>i. table_get (in_modules t) q = Some i \<and> whole (in_heap s) q i (in_heap t))) \<and>
    (\<forall>i < length (in_heap s). i \<noteq> p \<longrightarrow> in_heap t ! i = in_heap s ! i) \<and>
    (\<forall>e. r = Inl e \<longrightarrow> failed F e)"
proof -
  have "tidy p s t \<and> (\<forall>e. r = Inl e \<longrightarrow> failed F e)"
    using triple_at [OF init_tidy [OF assms(1), of F] refl] assms(2) by (cases r) simp_all
  then show ?thesis by (simp add: tidy_def only_at_def)
qed

text \<open>C37: After a successful import each of the four submodules is one object, found as an attribute of the
  extension module and in \<open>sys.modules\<close>; nothing registered in it has replaced anything else; and
  every name that the Python package and its tests import from the extension module is there.\<close>

theorem module_init_exports:
  assumes "p < length (in_heap s)" and "pywire_init F p s = (Inr (), t)"
  shows "(\<forall>(name, items) \<in> set submodules. \<exists>i.
      import_from t p None name = Some (A_module i) \<and> table_get (in_modules t) (full_name name) = Some i \<and>
      (\<forall>it \<in> set items. import_from t p (Some name) (item_name it) = Some (item_attribute it))) \<and>
    (\<forall>(sub, names) \<in> set package_imports. \<forall>n \<in> set names. import_from t p sub n \<noteq> None)"
proof -
  note t = init_final(1,2) [OF assms]
  have sub: "\<exists>i. import_from t p None name = Some (A_module i) \<and> table_get (in_modules t) (full_name name) = Some i \<and>
      (\<forall>it \<in> set items. import_from t p (Some name) (item_name it) = Some (item_attribute it))"
    if m: "(name, items) \<in> set submodules" for name items
  proof -
    from submodule_final [OF assms(1) m, of "in_modules s"] obtain i where
      i: "table_get (in_modules t) (full_name name) = Some i" "table_get (mo_dict (in_heap t ! p)) name = Some (A_module i)"
        "in_heap t ! i = built name items"
      using t by metis
    with extend_get [OF item_names_distinct [OF m]] show ?thesis by (simp add: import_from_def built_def)
  qed
  have "import_from t p sub n \<noteq> None" if m: "(sub, names) \<in> set package_imports" "n \<in> set names" for sub names n
  proof (cases sub)
    case None
    with m final_main(5) [OF assms(1), of n] t show ?thesis by (simp add: import_from_def package_imports_def)
  next
    case (Some name)
    with package_items m obtain items where "(name, items) \<in> set submodules" "n \<in> item_name ` set items" by blast
    with sub [of name items] Some show ?thesis by auto
  qed
  with sub show ?thesis by blast
qed

text \<open>An interpreter that has imported the Python package and starts the extension module.\<close>

definition new_interpreter :: interpreter where
  "new_interpreter =
     \<lparr>in_heap = [\<lparr>mo_name = ''pywire'', mo_dict = []\<rparr>, \<lparr>mo_name = ''_pywire'', mo_dict = []\<rparr>],
      in_modules = [(''pywire'', 0)], in_runtime = None, in_calls = 0\<rparr>"

lemma no_fault_succeeds: "\<exists>t. pywire_init (\<lambda>_. None) 1 new_interpreter = (Inr (), t)"
proof -
  obtain r t where rt: "pywire_init (\<lambda>_. None) 1 new_interpreter = (r, t)" by fastforce
  have "1 < length (in_heap new_interpreter)" by (simp add: new_interpreter_def)
  from triple_at [OF init_tidy [OF this, of "\<lambda>_. None"] refl] rt have "\<nexists>e. r = Inl e"
    by (auto simp: failed_def)
  with rt show ?thesis by (cases r) auto
qed

lemma module_init_no_half_built_witness:
  "table_get (in_modules (snd (pywire_init (\<lambda>n. if n = 100 then Some (Py_exc 0) else None) 1 new_interpreter))) ''pywire'' = Some 0"
proof -
  let ?F = "\<lambda>n::nat. if n = 100 then Some (Py_exc 0) else None"
  obtain r t where rt: "pywire_init ?F 1 new_interpreter = (r, t)" by fastforce
  have "1 < length (in_heap new_interpreter)" by (simp add: new_interpreter_def)
  from module_init_no_half_built [OF this rt]
  have "table_get (in_modules t) ''pywire'' = table_get (in_modules new_interpreter) ''pywire''"
    by (auto simp: whole_def full_name_def)
  with rt show ?thesis by (simp add: new_interpreter_def table_get_def)
qed

lemma module_init_exports_witness:
  "import_from (snd (pywire_init (\<lambda>_. None) 1 new_interpreter)) 1 (Some ''auth'') ''ScramVerifier'' = Some (A_class ''ScramVerifier'')"
proof -
  obtain t where t: "pywire_init (\<lambda>_. None) 1 new_interpreter = (Inr (), t)" using no_fault_succeeds by blast
  have p: "1 < length (in_heap new_interpreter)" by (simp add: new_interpreter_def)
  have "(''auth'', auth_items) \<in> set submodules" "Class_item ''ScramVerifier'' \<in> set auth_items"
    by (simp_all add: submodules_def auth_items_def scram_items_def)
  with module_init_exports [OF p t]
  have "import_from t 1 (Some ''auth'') (item_name (Class_item ''ScramVerifier'')) = Some (item_attribute (Class_item ''ScramVerifier''))"
    by blast
  with t show ?thesis by simp
qed

end
