(* ===== verification/Runtime.thy ===== *)
theory Runtime
  imports Complex_Main Bridge
begin

text \<open>
  The asynchronous test functions of \<open>src/runtime.rs\<close>, which Python calls to exercise the bridge in
  both directions. Yielding to the scheduler does not change what they return.
\<close>

type_synonym i64 = "64 word"

section \<open>Sleeping\<close>

text \<open>A float of 64 bits by sign and magnitude.\<close>

datatype f64 = Finite bool rat | Infinity bool | NaN

text \<open>\<open>Duration::from_secs_f64\<close> panics on a negative, an infinite and an undefined number, and on one that
  does not fit in 64 bits of seconds; minus zero is not negative.\<close>

fun duration_from_secs :: "f64 \<Rightarrow> failure + rat" where
  "duration_from_secs (Finite negative x) =
     (if negative \<and> x > 0 then Inl Panic else if x \<ge> 2 ^ 64 then Inl Panic else Inr x)"
| "duration_from_secs (Infinity negative) = Inl Panic"
| "duration_from_secs NaN = Inl Panic"

text \<open>The result, and how long the function has slept.\<close>

definition async_sleep :: "f64 \<Rightarrow> failure + (f64 \<times> rat)" where
  "async_sleep seconds =
     (case duration_from_secs seconds of Inl e \<Rightarrow> Inl e | Inr d \<Rightarrow> Inr (seconds, d))"

section \<open>Adding\<close>

text \<open>Addition of two \<open>i64\<close>: it panics on overflow in a build with overflow checks and wraps without.\<close>

definition i64_add :: "bool \<Rightarrow> i64 \<Rightarrow> i64 \<Rightarrow> failure + i64" where
  "i64_add checks a b =
     (if checks \<and> (sint a + sint b < - (2 ^ 63) \<or> sint a + sint b \<ge> 2 ^ 63) then Inl Panic else Inr (a + b))"

definition async_add :: "bool \<Rightarrow> i64 \<Rightarrow> i64 \<Rightarrow> failure + i64" where
  "async_add checks a b =
     (case i64_add checks a b of Inl e \<Rightarrow> Inl e | Inr intermediate \<Rightarrow> Inr intermediate)"

section \<open>Awaiting Python\<close>

text \<open>\<open>into_future\<close> schedules the coroutine on the event loop, which may fail at once; what it gives is
  the future whose result the caller awaits.\<close>

definition await_python_coro :: "(pyobj \<Rightarrow> py_err + 'f) \<Rightarrow> ('f \<Rightarrow> py_err + 'aw) \<Rightarrow> pyobj \<Rightarrow> py_err + 'aw" where
  "await_python_coro into_future future_into_py coro =
     (case into_future coro of Inl e \<Rightarrow> Inl e | Inr fut \<Rightarrow> future_into_py fut)"

section \<open>What they return\<close>

lemma sint_64: "- (2 ^ 63) \<le> sint (a :: i64)" "sint (a :: i64) < 2 ^ 63"
  using sint_range_size [of a] by (simp_all add: word_size)

lemma wrapped:
  fixes x :: int
  assumes "- (2 ^ 64) \<le> x" and "x < 2 ^ 64"
  shows "(x + 2 ^ 63) mod 2 ^ 64 - 2 ^ 63 = (if x < - (2 ^ 63) then x + 2 ^ 64 else if x \<ge> 2 ^ 63 then x - 2 ^ 64 else x)"
proof -
  have m: "(x + 2 ^ 63 + k * 2 ^ 64) mod 2 ^ 64 = (x + 2 ^ 63) mod 2 ^ 64" for k
    by (rule mod_mult_self1)
  consider "x < - (2 ^ 63)" | "x \<ge> 2 ^ 63" | "- (2 ^ 63) \<le> x \<and> x < 2 ^ 63" by linarith
  then show ?thesis
  proof cases
    case 1
    with assms have "(x + 2 ^ 63 + 1 * 2 ^ 64) mod 2 ^ 64 = x + 2 ^ 63 + 1 * 2 ^ 64" by (intro mod_pos_pos_trivial) simp_all
    with 1 m [of 1] show ?thesis by simp
  next
    case 2
    with assms have "(x + 2 ^ 63 + - 1 * 2 ^ 64) mod 2 ^ 64 = x + 2 ^ 63 + - 1 * 2 ^ 64" by (intro mod_pos_pos_trivial) simp_all
    with 2 m [of "- 1"] show ?thesis by simp
  next
    case 3
    then have "(x + 2 ^ 63) mod 2 ^ 64 = x + 2 ^ 63" by (intro mod_pos_pos_trivial) simp_all
    with 3 show ?thesis by simp
  qed
qed

text \<open>The sum that \<open>_test_async_add\<close> returns is the sum of the two numbers modulo \<open>2^64\<close> in every
  build. It is exact when the sum fits in 64 signed bits; when it does not, a build with overflow
  checks panics, and one without returns a number that is off by \<open>2^64\<close>, with the wrong sign.\<close>

theorem async_add_result:
  shows "async_add checks a b =
      (if checks \<and> \<not> (- (2 ^ 63) \<le> sint a + sint b \<and> sint a + sint b < 2 ^ 63) then Inl Panic else Inr (a + b)) \<and>
    sint (a + b) =
      (if sint a + sint b < - (2 ^ 63) then sint a + sint b + 2 ^ 64
       else if sint a + sint b \<ge> 2 ^ 63 then sint a + sint b - 2 ^ 64
       else sint a + sint b)"
proof
  show "async_add checks a b =
      (if checks \<and> \<not> (- (2 ^ 63) \<le> sint a + sint b \<and> sint a + sint b < 2 ^ 63) then Inl Panic else Inr (a + b))"
    by (auto simp: async_add_def i64_add_def)
  have "sint (a + b) = (sint a + sint b + 2 ^ 63) mod 2 ^ 64 - 2 ^ 63"
    by (simp add: sint_word_ariths signed_take_bit_eq_take_bit_shift take_bit_eq_mod)
  then show "sint (a + b) =
      (if sint a + sint b < - (2 ^ 63) then sint a + sint b + 2 ^ 64
       else if sint a + sint b \<ge> 2 ^ 63 then sint a + sint b - 2 ^ 64
       else sint a + sint b)"
    using wrapped [of "sint a + sint b"] sint_64 [of a] sint_64 [of b] by (simp only:) simp
qed

text \<open>A call of \<open>_test_async_sleep\<close> returns its argument, after that many seconds, exactly when this is a
  number of seconds that a duration can hold.\<close>

lemma async_sleep_returns:
  "(\<exists>r. async_sleep x = Inr r) \<longleftrightarrow> (\<exists>negative y. x = Finite negative y \<and> (negative \<longrightarrow> y \<le> 0) \<and> y < 2 ^ 64)"
  by (cases x) (auto simp: async_sleep_def)

lemma async_sleep_value: "async_sleep x = Inr (y, d) \<Longrightarrow> y = x \<and> (\<exists>negative. x = Finite negative d)"
  by (cases x) (auto simp: async_sleep_def split: if_splits)

end
