(* ===== verification/Sha256_Eval.thy ===== *)
theory Sha256_Eval
  imports Sha256
begin

text \<open>
  SHA-256 and HMAC over lists of bits, least significant bit first, in a form that the simplifier
  evaluates: a rotation is a list operation, an addition a ripple of carries, and the message
  schedule is a window that slides along with the rounds. The bit functions are proved equal to the
  definitions of the theory Sha256, so that an evaluation is a theorem about those.
\<close>

unbundle bit_operations_syntax

section \<open>Words as lists of bits\<close>

definition word_of :: "bool list \<Rightarrow> u32" where
  "word_of xs = horner_sum of_bool 2 xs"

definition byte_of :: "bool list \<Rightarrow> u8" where
  "byte_of xs = horner_sum of_bool 2 xs"

lemma bit_word_of: "bit (word_of xs) i \<longleftrightarrow> i < 32 \<and> i < length xs \<and> xs ! i"
  by (auto simp: word_of_def bit_horner_sum_bit_iff possible_bit_word)

lemma bit_byte_of: "bit (byte_of xs) i \<longleftrightarrow> i < 8 \<and> i < length xs \<and> xs ! i"
  by (auto simp: byte_of_def bit_horner_sum_bit_iff possible_bit_word)

lemma word_of_eqI: "(\<And>i. i < 32 \<Longrightarrow> bit (word_of xs) i = bit w i) \<Longrightarrow> word_of xs = w"
  by (rule bit_word_eqI) simp

lemma byte_of_eqI: "(\<And>i. i < 8 \<Longrightarrow> bit (byte_of xs) i = bit w i) \<Longrightarrow> byte_of xs = w"
  by (rule bit_word_eqI) simp

fun xor3_bits :: "bool list \<Rightarrow> bool list \<Rightarrow> bool list \<Rightarrow> bool list" where
  "xor3_bits (x # xs) (y # ys) (z # zs) = (if x then y = z else y \<noteq> z) # xor3_bits xs ys zs"
| "xor3_bits _ _ _ = []"

fun choice_bits :: "bool list \<Rightarrow> bool list \<Rightarrow> bool list \<Rightarrow> bool list" where
  "choice_bits (x # xs) (y # ys) (z # zs) = (if x then y else z) # choice_bits xs ys zs"
| "choice_bits _ _ _ = []"

fun majority_bits :: "bool list \<Rightarrow> bool list \<Rightarrow> bool list \<Rightarrow> bool list" where
  "majority_bits (x # xs) (y # ys) (z # zs) = (if x then y \<or> z else y \<and> z) # majority_bits xs ys zs"
| "majority_bits _ _ _ = []"

text \<open>The sum with a carry into the lowest bit.\<close>

fun add_bits :: "bool \<Rightarrow> bool list \<Rightarrow> bool list \<Rightarrow> bool list" where
  "add_bits c (x # xs) (y # ys) =
     (if x then c = y else c \<noteq> y) # add_bits (if x then y \<or> c else y \<and> c) xs ys"
| "add_bits c _ _ = []"

abbreviation plus_bits :: "bool list \<Rightarrow> bool list \<Rightarrow> bool list" where
  "plus_bits \<equiv> add_bits False"

definition rotr_bits :: "nat \<Rightarrow> bool list \<Rightarrow> bool list" where
  "rotr_bits n xs = drop n xs @ take n xs"

definition shift_bits :: "nat \<Rightarrow> bool list \<Rightarrow> bool list" where
  "shift_bits n xs = drop n xs @ replicate n False"

lemma ternary_length [simp]:
  assumes "length xs = n" and "length ys = n" and "length zs = n"
  shows "length (xor3_bits xs ys zs) = n" and "length (choice_bits xs ys zs) = n"
    and "length (majority_bits xs ys zs) = n"
  using assms by (induction xs ys zs arbitrary: n rule: xor3_bits.induct) (auto simp: length_Suc_conv)

lemma ternary_nth:
  assumes "i < length xs" and "length ys = length xs" and "length zs = length xs"
  shows "xor3_bits xs ys zs ! i = (xs ! i \<noteq> (ys ! i \<noteq> zs ! i))"
    and "choice_bits xs ys zs ! i = (if xs ! i then ys ! i else zs ! i)"
    and "majority_bits xs ys zs ! i = (if xs ! i then ys ! i \<or> zs ! i else ys ! i \<and> zs ! i)"
  using assms by (induction xs ys zs arbitrary: i rule: xor3_bits.induct) (auto simp: nth_Cons split: nat.split)

lemma add_bits_length [simp]: "length xs = n \<Longrightarrow> length ys = n \<Longrightarrow> length (add_bits c xs ys) = n"
  by (induction c xs ys arbitrary: n rule: add_bits.induct) (auto simp: length_Suc_conv)

lemma shifted_length [simp]:
  "length (rotr_bits n xs) = length xs" "n \<le> length xs \<Longrightarrow> length (shift_bits n xs) = length xs"
  by (simp_all add: rotr_bits_def shift_bits_def)

lemma word_of_ternary:
  assumes "length xs = 32" and "length ys = 32" and "length zs = 32"
  shows "word_of (xor3_bits xs ys zs) = word_of xs XOR word_of ys XOR word_of zs"
    and "word_of (choice_bits xs ys zs) = choice (word_of xs) (word_of ys) (word_of zs)"
    and "word_of (majority_bits xs ys zs) = majority (word_of xs) (word_of ys) (word_of zs)"
  using assms by (auto intro!: word_of_eqI simp: bit_word_of ternary_nth choice_def majority_def bit_simps split: if_splits)

lemma word_of_rotr: "length xs = 32 \<Longrightarrow> 0 < n \<Longrightarrow> n < 32 \<Longrightarrow> word_of (rotr_bits n xs) = rotr n (word_of xs)"
  by (rule word_of_eqI) (auto simp: bit_word_of rotr_bits_def rotr_def bit_simps nth_append)

lemma word_of_shift: "length xs = 32 \<Longrightarrow> n \<le> 32 \<Longrightarrow> word_of (shift_bits n xs) = drop_bit n (word_of xs)"
  by (rule word_of_eqI) (auto simp: bit_word_of shift_bits_def bit_simps nth_append)

text \<open>The ripple adds: what it loses is the carry out of the highest bit.\<close>

lemma carry_step:
  fixes A X Y P :: "'a :: comm_ring_1"
  assumes "A + d * P = X + Y + c'" and "b + 2 * c' = x + y + c"
  shows "(b + 2 * A) + d * (2 * P) = (x + 2 * X) + (y + 2 * Y) + c"
proof -
  have "(b + 2 * A) + d * (2 * P) = b + 2 * (A + d * P)" by (simp add: algebra_simps)
  also have "\<dots> = (b + 2 * c') + 2 * X + 2 * Y" unfolding assms(1) by (simp add: algebra_simps)
  also have "\<dots> = (x + 2 * X) + (y + 2 * Y) + c" unfolding assms(2) by (simp add: algebra_simps)
  finally show ?thesis .
qed

lemma add_bits_sum:
  "length xs = length ys \<Longrightarrow>
   \<exists>d. horner_sum of_bool 2 (add_bits c xs ys) + of_bool d * 2 ^ length xs =
     (horner_sum of_bool 2 xs + horner_sum of_bool 2 ys + of_bool c :: u32)"
proof (induction c xs ys rule: add_bits.induct)
  case (1 c x xs y ys)
  let ?c = "if x then y \<or> c else y \<and> c" and ?b = "if x then c = y else c \<noteq> y"
  from 1 obtain d where "horner_sum of_bool 2 (add_bits ?c xs ys) + of_bool d * 2 ^ length xs =
      (horner_sum of_bool 2 xs + horner_sum of_bool 2 ys + of_bool ?c :: u32)"
    by auto
  moreover have "of_bool ?b + 2 * of_bool ?c = (of_bool x + of_bool y + of_bool c :: u32)" by simp
  ultimately have "(of_bool ?b + 2 * horner_sum of_bool 2 (add_bits ?c xs ys)) + of_bool d * (2 * 2 ^ length xs) =
      (of_bool x + 2 * horner_sum of_bool 2 xs) + (of_bool y + 2 * horner_sum of_bool 2 ys) + (of_bool c :: u32)"
    by (rule carry_step)
  then show ?case by (intro exI [of _ d]) (simp only: add_bits.simps horner_sum_simps list.size power_Suc add_0_right add_Suc_right)
qed auto

lemma word_of_plus:
  assumes "length xs = 32" and "length ys = 32"
  shows "word_of (plus_bits xs ys) = word_of xs + word_of ys"
proof -
  from add_bits_sum [of xs ys False] assms obtain d where
    "horner_sum of_bool 2 (plus_bits xs ys) + of_bool d * 2 ^ length xs =
      (horner_sum of_bool 2 xs + horner_sum of_bool 2 ys + of_bool False :: u32)" by auto
  moreover have "of_bool d * 2 ^ length xs = (0 :: u32)" using assms by simp
  ultimately show ?thesis unfolding word_of_def by (simp only: of_bool_eq add_0_right)
qed

section \<open>A block\<close>

definition big_sigma0_bits :: "bool list \<Rightarrow> bool list" where
  "big_sigma0_bits x = xor3_bits (rotr_bits 2 x) (rotr_bits 13 x) (rotr_bits 22 x)"

definition big_sigma1_bits :: "bool list \<Rightarrow> bool list" where
  "big_sigma1_bits x = xor3_bits (rotr_bits 6 x) (rotr_bits 11 x) (rotr_bits 25 x)"

definition small_sigma0_bits :: "bool list \<Rightarrow> bool list" where
  "small_sigma0_bits x = xor3_bits (rotr_bits 7 x) (rotr_bits 18 x) (shift_bits 3 x)"

definition small_sigma1_bits :: "bool list \<Rightarrow> bool list" where
  "small_sigma1_bits x = xor3_bits (rotr_bits 17 x) (rotr_bits 19 x) (shift_bits 10 x)"

fun round_bits :: "bool list list \<Rightarrow> bool list \<Rightarrow> bool list \<Rightarrow> bool list list" where
  "round_bits [a, b, c, d, e, f, g, h] k w =
     (let t1 = plus_bits (plus_bits (plus_bits (plus_bits h (big_sigma1_bits e)) (choice_bits e f g)) k) w;
          t2 = plus_bits (big_sigma0_bits a) (majority_bits a b c)
      in [plus_bits t1 t2, a, b, c, plus_bits d t1, e, f, g])"
| "round_bits _ k w = []"

text \<open>The rounds with the window of the next sixteen words of the schedule.\<close>

fun rounds_bits :: "bool list list \<Rightarrow> bool list list \<Rightarrow> bool list list \<Rightarrow> bool list list" where
  "rounds_bits s (k # ks) [w0, w1, w2, w3, w4, w5, w6, w7, w8, w9, w10, w11, w12, w13, w14, w15] =
     rounds_bits (round_bits s k w0) ks
       [w1, w2, w3, w4, w5, w6, w7, w8, w9, w10, w11, w12, w13, w14, w15,
        plus_bits (plus_bits (plus_bits (small_sigma1_bits w14) w9) (small_sigma0_bits w1)) w0]"
| "rounds_bits s _ _ = s"

definition words_ok :: "bool list list \<Rightarrow> bool" where
  "words_ok ws \<longleftrightarrow> list_all (\<lambda>w. length w = 32) ws"

lemma words_ok_simps [simp]: "words_ok []" "words_ok (w # ws) \<longleftrightarrow> length w = 32 \<and> words_ok ws"
  by (simp_all add: words_ok_def)

lemma sigma_length [simp]:
  "length x = 32 \<Longrightarrow> length (big_sigma0_bits x) = 32" "length x = 32 \<Longrightarrow> length (big_sigma1_bits x) = 32"
  "length x = 32 \<Longrightarrow> length (small_sigma0_bits x) = 32" "length x = 32 \<Longrightarrow> length (small_sigma1_bits x) = 32"
  by (simp_all add: big_sigma0_bits_def big_sigma1_bits_def small_sigma0_bits_def small_sigma1_bits_def)

lemma word_of_sigma:
  assumes "length x = 32"
  shows "word_of (big_sigma0_bits x) = big_sigma0 (word_of x)" and "word_of (big_sigma1_bits x) = big_sigma1 (word_of x)"
    and "word_of (small_sigma0_bits x) = small_sigma0 (word_of x)" and "word_of (small_sigma1_bits x) = small_sigma1 (word_of x)"
  using assms
  by (simp_all add: big_sigma0_bits_def big_sigma1_bits_def small_sigma0_bits_def small_sigma1_bits_def big_sigma0_def
      big_sigma1_def small_sigma0_def small_sigma1_def word_of_ternary word_of_rotr word_of_shift)

lemmas word_of_simps = word_of_plus word_of_sigma word_of_ternary

lemma eight:
  assumes "length s = 8"
  obtains a b c d e f g h where "s = [a, b, c, d, e, f, g, h]"
  using assms that by (auto simp: numeral_eq_Suc length_Suc_conv)

lemma sixteen:
  assumes "length s = 16"
  obtains w0 w1 w2 w3 w4 w5 w6 w7 w8 w9 w10 w11 w12 w13 w14 w15
  where "s = [w0, w1, w2, w3, w4, w5, w6, w7, w8, w9, w10, w11, w12, w13, w14, w15]"
  using assms that by (auto simp: numeral_eq_Suc length_Suc_conv)

lemma round_bits_ok:
  assumes "length s = 8" and "words_ok s" and "length k = 32" and "length w = 32"
  shows "map word_of (round_bits s k w) = sha_round (map word_of s) (word_of k, word_of w)"
    and "length (round_bits s k w) = 8" and "words_ok (round_bits s k w)"
  using assms by (auto simp: word_of_simps sha_round_def Let_def elim!: eight)

text \<open>The reference in the same form: the schedule as a window on words.\<close>

fun rounds :: "u32 list \<Rightarrow> u32 list \<Rightarrow> u32 list \<Rightarrow> u32 list" where
  "rounds s (k # ks) (w # ws) =
     rounds (sha_round s (k, w)) ks (ws @ [small_sigma1 (ws ! 13) + ws ! 8 + small_sigma0 (ws ! 0) + w])"
| "rounds s _ _ = s"

lemma rounds_bits_ok:
  assumes "length s = 8" and "words_ok s" and "words_ok ks" and "length win = 16" and "words_ok win"
  shows "map word_of (rounds_bits s ks win) = rounds (map word_of s) (map word_of ks) (map word_of win) \<and>
    length (rounds_bits s ks win) = 8 \<and> words_ok (rounds_bits s ks win)"
  using assms
proof (induction ks arbitrary: s win)
  case (Cons k ks)
  obtain w0 w1 w2 w3 w4 w5 w6 w7 w8 w9 w10 w11 w12 w13 w14 w15 where
    win: "win = [w0, w1, w2, w3, w4, w5, w6, w7, w8, w9, w10, w11, w12, w13, w14, w15]"
    using Cons.prems(4) by (rule sixteen)
  from Cons.prems win show ?case
    using Cons.IH [of "round_bits s k w0"] round_bits_ok [of s k w0] by (simp add: word_of_simps)
qed simp

text \<open>The schedule of the definition, oldest word first, is what the window shows one by one.\<close>

lemma schedule_append: "16 \<le> length u \<Longrightarrow> schedule n (u @ v) = schedule n u @ v"
proof (induction n arbitrary: u)
  case (Suc n)
  then show ?case using Suc.IH [of "(small_sigma1 (u ! 1) + u ! 6 + small_sigma0 (u ! 14) + u ! 15) # u"]
    by (simp add: nth_append)
qed simp

lemma schedule_add: "schedule (m + n) w = schedule n (schedule m w)"
  by (induction m arbitrary: w) simp_all

lemma schedule_suffix: "\<exists>r. schedule n w = r @ w"
proof (induction n arbitrary: w)
  case (Suc n)
  then show ?case by (metis append.assoc append_Cons append_Nil schedule.simps(2))
qed simp

lemma schedule_length [simp]: "length (schedule n w) = n + length w"
  by (induction n w rule: schedule.induct) simp_all

lemma window_step:
  assumes "length win = 16" and "win = w # ws"
  shows "rev (schedule (Suc n) (rev win)) =
    w # rev (schedule n (rev (ws @ [small_sigma1 (ws ! 13) + ws ! 8 + small_sigma0 (ws ! 0) + w])))"
proof -
  let ?x = "small_sigma1 (ws ! 13) + ws ! 8 + small_sigma0 (ws ! 0) + w"
  have l: "length ws = 15" using assms by simp
  have n: "rev win ! 1 = ws ! 13" "rev win ! 6 = ws ! 8" "rev win ! 14 = ws ! 0" "rev win ! 15 = w"
    using l assms(2) by (simp_all add: nth_append rev_nth)
  have "schedule (Suc n) (rev win) = schedule n ((?x # rev ws) @ [w])" using n assms(2) by simp
  also have "\<dots> = schedule n (?x # rev ws) @ [w]" using l by (intro schedule_append) simp
  finally show ?thesis by simp
qed

lemma rounds_schedule:
  "length win = 16 \<Longrightarrow>
   rounds s ks win = foldl sha_round s (zip ks (rev (schedule (length ks) (rev win))))"
proof (induction ks arbitrary: s win)
  case (Cons k ks)
  then obtain w ws where win: "win = w # ws" by (cases win) auto
  have "length (ws @ [small_sigma1 (ws ! 13) + ws ! 8 + small_sigma0 (ws ! 0) + w]) = 16"
    using Cons.prems win by simp
  from Cons.IH [OF this] window_step [OF Cons.prems win, of "length ks"] show ?case
    by (simp add: win del: schedule.simps)
qed simp

lemma sha_block_rounds:
  assumes "length block = 16" and "length sha_k = 64"
  shows "sha_block s block = map2 (+) s (rounds s sha_k block)"
proof -
  obtain r where "schedule 64 (rev block) = r @ schedule 48 (rev block)"
    using schedule_add [of 48 16 "rev block"] schedule_suffix [of 16 "schedule 48 (rev block)"] by auto
  then have "rev (schedule 64 (rev block)) = rev (schedule 48 (rev block)) @ rev r" by simp
  with assms have "zip sha_k (rev (schedule 64 (rev block))) = zip sha_k (rev (schedule 48 (rev block)))"
    by (simp add: zip_append2)
  with rounds_schedule [OF assms(1), of s sha_k] assms(2) show ?thesis by (simp add: sha_block_def)
qed

section \<open>The constants\<close>

fun hex_digit :: "char \<Rightarrow> bool list" where
  "hex_digit (Char b0 b1 b2 b3 b4 b5 b6 b7) =
     (if b6 then plus_bits [b0, b1, b2, b3] [True, False, False, True] else [b0, b1, b2, b3])"

definition hex_bits :: "string \<Rightarrow> bool list" where
  "hex_bits s = concat (map hex_digit (rev s))"

text \<open>The lowest bits of an integer.\<close>

primrec int_bits :: "nat \<Rightarrow> int \<Rightarrow> bool list" where
  "int_bits 0 x = []"
| "int_bits (Suc n) x = odd x # int_bits n (x div 2)"

lemma int_bits_length [simp]: "length (int_bits n x) = n"
  by (induction n arbitrary: x) simp_all

lemma int_bits_nth: "i < n \<Longrightarrow> int_bits n x ! i = bit x i"
  by (induction n arbitrary: x i) (auto simp: nth_Cons bit_0 bit_Suc split: nat.split)

lemma word_of_int_bits: "word_of (int_bits 32 x) = of_int x"
  by (rule word_of_eqI) (simp add: bit_word_of int_bits_nth bit_simps)

definition sha_k_bits :: "bool list list" where
  "sha_k_bits = map hex_bits
     [''428a2f98'', ''71374491'', ''b5c0fbcf'', ''e9b5dba5'', ''3956c25b'', ''59f111f1'', ''923f82a4'', ''ab1c5ed5'',
      ''d807aa98'', ''12835b01'', ''243185be'', ''550c7dc3'', ''72be5d74'', ''80deb1fe'', ''9bdc06a7'', ''c19bf174'',
      ''e49b69c1'', ''efbe4786'', ''0fc19dc6'', ''240ca1cc'', ''2de92c6f'', ''4a7484aa'', ''5cb0a9dc'', ''76f988da'',
      ''983e5152'', ''a831c66d'', ''b00327c8'', ''bf597fc7'', ''c6e00bf3'', ''d5a79147'', ''06ca6351'', ''14292967'',
      ''27b70a85'', ''2e1b2138'', ''4d2c6dfc'', ''53380d13'', ''650a7354'', ''766a0abb'', ''81c2c92e'', ''92722c85'',
      ''a2bfe8a1'', ''a81a664b'', ''c24b8b70'', ''c76c51a3'', ''d192e819'', ''d6990624'', ''f40e3585'', ''106aa070'',
      ''19a4c116'', ''1e376c08'', ''2748774c'', ''34b0bcb5'', ''391c0cb3'', ''4ed8aa4a'', ''5b9cca4f'', ''682e6ff3'',
      ''748f82ee'', ''78a5636f'', ''84c87814'', ''8cc70208'', ''90befffa'', ''a4506ceb'', ''bef9a3f7'', ''c67178f2'']"

definition sha_init_bits :: "bool list list" where
  "sha_init_bits = map hex_bits
     [''6a09e667'', ''bb67ae85'', ''3c6ef372'', ''a54ff53a'', ''510e527f'', ''9b05688c'', ''1f83d9ab'', ''5be0cd19'']"

text \<open>The roots with 32 bits after the point.\<close>

definition roots3 :: "int list" where
  "roots3 =
     [5411319704, 6194414737, 7344290767, 8215976869, 9551921755, 10098905585, 11043570340, 11460697813,
      12214315672, 13195500289, 13492127166, 14311783875, 14809980276, 15046980094, 15499789991, 16133124468,
      16720292289, 16907126662, 17444216262, 17784676812, 17950125167, 18429019306, 18734950876, 19175934170,
      19734090066, 20001703533, 20132865992, 20390182855, 20516441075, 20764397895, 21588763473, 21813078375,
      22141143685, 22248366392, 22769593852, 22871018771, 23170020180, 23461497531, 23651862830, 23931792517,
      24205322401, 24295138891, 24734567280, 24820601251, 24990902297, 25075189284, 25569408389, 26045227120,
      26200031510, 26276752392, 26428864332, 26653801653, 26727943347, 27092625994, 27306805839, 27517677555,
      27725365998, 27793908591, 27997534228, 28131656200, 28198240250, 28526537963, 28973835255, 29099129074]"

definition roots2 :: "int list" where
  "roots2 =
     [6074000999, 7439101573, 9603838834, 11363415354, 14244795007, 15485724812, 17708603819, 18721328409]"

lemma root_bits_from:
  assumes "0 \<le> s" and "s \<le> r" and "r < s + 2 ^ k" and "r ^ e \<le> n" and "n < (r + 1) ^ e"
  shows "root_bits e k n s = r"
  using assms
proof (induction k arbitrary: s)
  case (Suc k)
  show ?case
  proof (cases "(s + 2 ^ k) ^ e \<le> n")
    case True
    have "s + 2 ^ k \<le> r"
    proof (rule ccontr)
      assume "\<not> ?thesis"
      with Suc.prems have "(r + 1) ^ e \<le> (s + 2 ^ k) ^ e" by (intro power_mono) auto
      with True Suc.prems(5) show False by simp
    qed
    with Suc True show ?thesis by simp
  next
    case False
    have "r < s + 2 ^ k"
    proof (rule ccontr)
      assume "\<not> ?thesis"
      with Suc.prems have "(s + 2 ^ k) ^ e \<le> r ^ e" by (intro power_mono) auto
      with False Suc.prems(4) show False by simp
    qed
    with Suc False show ?thesis by simp
  qed
qed simp

lemma roots:
  assumes "list_all2 (\<lambda>p r. 0 \<le> r \<and> r < 2 ^ 35 \<and> r ^ e \<le> f p \<and> f p < (r + 1) ^ e) ps rs"
  shows "map (\<lambda>p. of_int (root_bits e 35 (f p) 0) :: u32) ps = map of_int rs"
  using assms by (induction rule: list_all2_induct) (auto intro: arg_cong [OF root_bits_from])

text \<open>Every prime of the list is found by the divisors up to seventeen.\<close>

fun no_divisor :: "int \<Rightarrow> int list \<Rightarrow> bool" where
  "no_divisor p [] = True"
| "no_divisor p (d # ds) = (if p \<le> d then True else if p mod d = 0 then False else no_divisor p ds)"

lemma no_divisor_iff: "sorted ds \<Longrightarrow> no_divisor p ds \<longleftrightarrow> (\<forall>d \<in> set ds. d < p \<longrightarrow> p mod d \<noteq> 0)"
  by (induction ds) auto

lemma small_divisor:
  assumes "1 < d" and "d < p" and "p mod d = 0" and "p < 324"
  shows "\<exists>c. 2 \<le> c \<and> c \<le> 17 \<and> c < p \<and> p mod c = (0 :: int)"
proof (cases "d \<le> 17")
  case False
  from assms(3) obtain c where c: "p = d * c" by (auto elim: dvdE)
  have "c \<le> 17"
  proof (rule ccontr)
    assume "\<not> c \<le> 17"
    with False have "18 * 18 \<le> d * c" by (intro mult_mono) auto
    with c assms(4) show False by simp
  qed
  moreover have "1 < c"
  proof (rule ccontr)
    assume "\<not> 1 < c"
    with assms(1) have "d * c \<le> d * 1" by (intro mult_left_mono) auto
    with c assms(2) show False by simp
  qed
  moreover have "p mod c = 0" using c by simp
  ultimately show ?thesis using False assms(2) by (intro exI [of _ c]) auto
qed (use assms in \<open>auto intro: exI [of _ d]\<close>)

lemma small_primes_filter: "small_primes = filter (\<lambda>p. no_divisor p [2..17]) [2..311]"
  unfolding small_primes_def
proof (rule filter_cong [OF refl])
  fix p :: int
  assume "p \<in> set [2..311]"
  then have "p < 324" unfolding set_upto atLeastAtMost_iff by simp
  have "sorted [2..17 :: int]" by (simp only: sorted_upto)
  then have "no_divisor p [2..17] \<longleftrightarrow> (\<forall>d. 2 \<le> d \<and> d \<le> 17 \<longrightarrow> d < p \<longrightarrow> p mod d \<noteq> 0)"
    by (simp only: no_divisor_iff set_upto Ball_def atLeastAtMost_iff)
  with small_divisor [OF _ _ _ \<open>p < 324\<close>]
  show "list_all (\<lambda>d. p mod d \<noteq> 0) [2..p - 1] \<longleftrightarrow> no_divisor p [2..17]"
    by (fastforce simp: list_all_iff)
qed

lemma small_primes_eq: "small_primes =
  [2, 3, 5, 7, 11, 13, 17, 19, 23, 29, 31, 37, 41, 43, 47, 53, 59, 61, 67, 71, 73, 79, 83, 89,
   97, 101, 103, 107, 109, 113, 127, 131, 137, 139, 149, 151, 157, 163, 167, 173, 179, 181, 191, 193, 197, 199, 211, 223,
   227, 229, 233, 239, 241, 251, 257, 263, 269, 271, 277, 281, 283, 293, 307, 311]"
  unfolding small_primes_filter by code_simp

lemma sha_k_eq: "sha_k = map word_of sha_k_bits"
proof -
  have "sha_k = map of_int roots3"
    unfolding sha_k_def small_primes_eq roots3_def by (rule roots) simp
  also have "\<dots> = map word_of (map (int_bits 32) roots3)"
    by (simp only: map_map o_def word_of_int_bits)
  also have "map (int_bits 32) roots3 = sha_k_bits" by code_simp
  finally show ?thesis .
qed

lemma sha_init_eq: "sha_init = map word_of sha_init_bits"
proof -
  have "sha_init = map of_int roots2"
    unfolding sha_init_def roots2_def by (rule roots) simp
  also have "\<dots> = map word_of (map (int_bits 32) roots2)"
    by (simp only: map_map o_def word_of_int_bits)
  also have "map (int_bits 32) roots2 = sha_init_bits" by code_simp
  finally show ?thesis .
qed

lemma constants_ok [simp]:
  "length sha_k_bits = 64" "length sha_init_bits = 8" "words_ok sha_k_bits" "words_ok sha_init_bits"
  by (simp_all add: sha_k_bits_def sha_init_bits_def hex_bits_def)

section \<open>Messages\<close>

fun blocks_bits :: "bool list list \<Rightarrow> bool list list \<Rightarrow> bool list list" where
  "blocks_bits s (w0 # w1 # w2 # w3 # w4 # w5 # w6 # w7 # w8 # w9 # w10 # w11 # w12 # w13 # w14 # w15 # ws) =
     blocks_bits
       (map2 plus_bits s
         (rounds_bits s sha_k_bits [w0, w1, w2, w3, w4, w5, w6, w7, w8, w9, w10, w11, w12, w13, w14, w15])) ws"
| "blocks_bits s _ = s"

fun words_bits :: "bool list list \<Rightarrow> bool list list" where
  "words_bits (a # b # c # d # r) = (d @ c @ b @ a) # words_bits r"
| "words_bits _ = []"

definition bytes_bits :: "bool list \<Rightarrow> bool list list" where
  "bytes_bits w = [drop 24 w, take 8 (drop 16 w), take 8 (drop 8 w), take 8 w]"

definition pad_bits :: "bool list list \<Rightarrow> bool list list" where
  "pad_bits m =
     (let n = length m; l = int_bits 64 (8 * int n)
      in m @ [[False, False, False, False, False, False, False, True]] @
         replicate ((119 - n mod 64) mod 64) (replicate 8 False) @
         map (\<lambda>k. take 8 (drop k l)) [56, 48, 40, 32, 24, 16, 8, 0])"

definition sha256_bits :: "bool list list \<Rightarrow> bool list list" where
  "sha256_bits m = concat (map bytes_bits (blocks_bits sha_init_bits (words_bits (pad_bits m))))"

definition bytes_ok :: "bool list list \<Rightarrow> bool" where
  "bytes_ok bs \<longleftrightarrow> list_all (\<lambda>b. length b = 8) bs"

lemma bytes_ok_simps [simp]:
  "bytes_ok []" "bytes_ok (b # bs) \<longleftrightarrow> length b = 8 \<and> bytes_ok bs"
  "bytes_ok (bs @ cs) \<longleftrightarrow> bytes_ok bs \<and> bytes_ok cs" "bytes_ok (replicate n (replicate 8 x))"
  by (auto simp: bytes_ok_def list_all_iff)

lemma map2_plus_bits:
  "length s = length t \<Longrightarrow> words_ok s \<Longrightarrow> words_ok t \<Longrightarrow>
   map word_of (map2 plus_bits s t) = map2 (+) (map word_of s) (map word_of t) \<and> words_ok (map2 plus_bits s t)"
  by (induction s t rule: list_induct2) (auto simp: word_of_plus)

lemma block_bits_ok:
  assumes "length s = 8" and "words_ok s" and "length b = 16" and "words_ok b"
  defines "t \<equiv> map2 plus_bits s (rounds_bits s sha_k_bits b)"
  shows "map word_of t = sha_block (map word_of s) (map word_of b) \<and> length t = 8 \<and> words_ok t"
proof -
  have "map word_of (rounds_bits s sha_k_bits b) = rounds (map word_of s) sha_k (map word_of b) \<and>
      length (rounds_bits s sha_k_bits b) = 8 \<and> words_ok (rounds_bits s sha_k_bits b)"
    using rounds_bits_ok [OF assms(1,2) _ assms(3,4)] by (simp add: sha_k_eq)
  moreover have "sha_block (map word_of s) (map word_of b) =
      map2 (+) (map word_of s) (rounds (map word_of s) sha_k (map word_of b))"
    by (rule sha_block_rounds) (simp_all add: assms(3) sha_k_eq)
  ultimately show ?thesis
    unfolding t_def using map2_plus_bits [of s "rounds_bits s sha_k_bits b"] assms(1,2) by simp
qed

lemma blocks_bits_ok:
  "length s = 8 \<Longrightarrow> words_ok s \<Longrightarrow> words_ok ws \<Longrightarrow> n = length ws div 16 \<Longrightarrow>
   map word_of (blocks_bits s ws) = sha_blocks n (map word_of s) (map word_of ws) \<and> words_ok (blocks_bits s ws)"
proof (induction n arbitrary: s ws)
  case 0
  then have "length ws < 16" by simp
  then have "blocks_bits s ws = s" by (cases "(s, ws)" rule: blocks_bits.cases) simp_all
  with 0 show ?case by simp
next
  case (Suc n)
  let ?b = "take 16 ws" and ?r = "drop 16 ws"
  let ?t = "map2 plus_bits s (rounds_bits s sha_k_bits ?b)"
  have len: "16 \<le> length ws" using Suc.prems(4) by linarith
  have ok: "words_ok ?b" "words_ok ?r"
    using Suc.prems(3) by (auto simp: words_ok_def list_all_iff dest: in_set_takeD in_set_dropD)
  from len have b: "length ?b = 16" by simp
  have blocks: "blocks_bits s (?b @ ?r) = blocks_bits ?t ?r"
    by (rule sixteen [OF b]) (simp only: append_Cons append_Nil blocks_bits.simps(1))
  have "map word_of ?t = sha_block (map word_of s) (map word_of ?b) \<and> length ?t = 8 \<and> words_ok ?t"
    by (rule block_bits_ok) (use Suc.prems b ok in auto)
  moreover have "n = length ?r div 16" using Suc.prems(4) len by simp
  ultimately show ?case
    using Suc.IH [of ?t ?r] ok(2) blocks by (simp add: take_map drop_map)
qed

lemma be_word_byte_of:
  assumes "length a = 8" and "length b = 8" and "length c = 8" and "length d = 8"
  shows "be_word (byte_of a) (byte_of b) (byte_of c) (byte_of d) = word_of (d @ c @ b @ a)"
  by (rule sym, rule word_of_eqI)
    (use assms in \<open>auto simp: bit_word_of bit_byte_of bit_simps nth_append split: if_splits\<close>)

lemma words_bits_ok:
  "bytes_ok m \<Longrightarrow> map word_of (words_bits m) = be_words (map byte_of m) \<and> words_ok (words_bits m)"
proof (induction m rule: words_bits.induct)
  case (1 a b c d r)
  then show ?case using be_word_byte_of [of a b c d] by simp
qed simp_all

lemma byte_of_take: "byte_of (take 8 x) = byte_of x"
  by (rule byte_of_eqI) (auto simp: bit_byte_of)

lemma byte_of_drop: "length x = 32 \<Longrightarrow> byte_of (drop k x) = ucast (drop_bit k (word_of x))"
  by (rule byte_of_eqI) (auto simp: bit_byte_of bit_word_of bit_simps)

lemma bytes_bits_ok: "length w = 32 \<Longrightarrow> map byte_of (bytes_bits w) = word_be (word_of w)"
  using byte_of_drop [of w 0] by (simp add: bytes_bits_def word_be_def byte_of_take byte_of_drop)

lemma bytes_bits_concat:
  "words_ok ws \<Longrightarrow> map byte_of (concat (map bytes_bits ws)) = concat (map word_be (map word_of ws))"
  by (induction ws) (simp_all add: bytes_bits_ok del: map_map)

lemma bytes_ok_concat: "words_ok ws \<Longrightarrow> bytes_ok (concat (map bytes_bits ws))"
  by (induction ws) (simp_all add: bytes_bits_def)

lemma byte_of_int_bits: "k + 8 \<le> 64 \<Longrightarrow> byte_of (drop k (int_bits 64 x)) = ucast (drop_bit k (of_int x :: 64 word))"
  by (rule byte_of_eqI) (auto simp: bit_byte_of int_bits_nth bit_simps)

lemma byte_constants:
  "byte_of [False, False, False, False, False, False, False, True] = 0x80" "byte_of (replicate 8 False) = 0"
  by (simp add: byte_of_def, rule byte_of_eqI, simp add: bit_byte_of)

lemma pad_bits_ok: "bytes_ok m \<Longrightarrow> map byte_of (pad_bits m) = sha_pad (map byte_of m) \<and> bytes_ok (pad_bits m)"
  using byte_of_int_bits [of 0 "8 * int (length m)"]
  by (simp add: pad_bits_def sha_pad_def Let_def byte_of_take byte_of_int_bits byte_constants)

lemma length_words_bits: "length (words_bits m) = length (be_words (map byte_of m))"
  by (induction m rule: words_bits.induct) simp_all

lemma sha256_bits_ok:
  assumes "bytes_ok m"
  shows "map byte_of (sha256_bits m) = sha256 (map byte_of m)" and "bytes_ok (sha256_bits m)"
proof -
  let ?w = "words_bits (pad_bits m)"
  have pad: "map byte_of (pad_bits m) = sha_pad (map byte_of m)" "bytes_ok (pad_bits m)"
    using pad_bits_ok [OF assms] by simp_all
  with words_bits_ok have w: "map word_of ?w = be_words (sha_pad (map byte_of m))" "words_ok ?w" by force+
  have l: "length ?w = length (be_words (sha_pad (map byte_of m)))" by (simp add: length_words_bits pad(1))
  have "map word_of (blocks_bits sha_init_bits ?w) =
      sha_blocks (length ?w div 16) (map word_of sha_init_bits) (map word_of ?w) \<and> words_ok (blocks_bits sha_init_bits ?w)"
    by (rule blocks_bits_ok) (simp_all add: w)
  then show "map byte_of (sha256_bits m) = sha256 (map byte_of m)" and "bytes_ok (sha256_bits m)"
    by (simp_all add: sha256_bits_def sha256_def bytes_bits_concat bytes_ok_concat w l sha_init_eq Let_def
        del: map_map)
qed

section \<open>The keyed hash, texts and results\<close>

definition xor_bits :: "bool list \<Rightarrow> bool list \<Rightarrow> bool list" where
  "xor_bits = map2 (\<lambda>x y. if x then \<not> y else y)"

lemma xor_bits_ok:
  assumes "length x = 8" and "length y = 8"
  shows "byte_of (xor_bits x y) = byte_of x XOR byte_of y" and "length (xor_bits x y) = 8"
  using assms by (auto intro!: byte_of_eqI simp: bit_byte_of xor_bits_def bit_simps)

definition hmac_bits :: "bool list list \<Rightarrow> bool list list \<Rightarrow> bool list list" where
  "hmac_bits key m =
     (let k = key @ replicate (64 - length key) (replicate 8 False)
      in sha256_bits
           (map (\<lambda>x. xor_bits x [False, False, True, True, True, False, True, False]) k @
            sha256_bits (map (\<lambda>x. xor_bits x [False, True, True, False, True, True, False, False]) k @ m)))"

lemma xor_bits_map:
  assumes "bytes_ok k" and "length y = 8"
  shows "map byte_of (map (\<lambda>x. xor_bits x y) k) = map (\<lambda>x. x XOR byte_of y) (map byte_of k)"
    and "bytes_ok (map (\<lambda>x. xor_bits x y) k)"
  using assms by (induction k) (simp_all add: xor_bits_ok)

lemma pad_bytes: "byte_of [False, False, True, True, True, False, True, False] = 0x5c"
  "byte_of [False, True, True, False, True, True, False, False] = 0x36"
  by (simp_all add: byte_of_def)

lemma xor_pad:
  assumes "bytes_ok k"
  defines "i \<equiv> [False, True, True, False, True, True, False, False]"
    and "o' \<equiv> [False, False, True, True, True, False, True, False]"
  shows "bytes_ok (map (\<lambda>x. xor_bits x i) k)" "bytes_ok (map (\<lambda>x. xor_bits x o') k)"
    "map byte_of (map (\<lambda>x. xor_bits x i) k) = map (\<lambda>x. x XOR 0x36) (map byte_of k)"
    "map byte_of (map (\<lambda>x. xor_bits x o') k) = map (\<lambda>x. x XOR 0x5c) (map byte_of k)"
proof -
  have l: "length i = 8" "length o' = 8" by (simp_all add: i_def o'_def)
  have b: "byte_of i = 0x36" "byte_of o' = 0x5c" by (simp_all add: i_def o'_def pad_bytes)
  show "bytes_ok (map (\<lambda>x. xor_bits x i) k)" "bytes_ok (map (\<lambda>x. xor_bits x o') k)"
    by (rule xor_bits_map [OF assms(1)], rule l)+
  show "map byte_of (map (\<lambda>x. xor_bits x i) k) = map (\<lambda>x. x XOR 0x36) (map byte_of k)"
    "map byte_of (map (\<lambda>x. xor_bits x o') k) = map (\<lambda>x. x XOR 0x5c) (map byte_of k)"
    using xor_bits_map(1) [OF assms(1) l(1)] xor_bits_map(1) [OF assms(1) l(2)] by (simp_all only: b)
qed

lemma hmac_bits_ok:
  assumes "bytes_ok key" and "bytes_ok m" and "length key \<le> 64"
  shows "map byte_of (hmac_bits key m) = hmac_sha256 (map byte_of key) (map byte_of m)" and "bytes_ok (hmac_bits key m)"
proof -
  define k where "k = key @ replicate (64 - length key) (replicate 8 False)"
  define i where "i = map (\<lambda>x. xor_bits x [False, True, True, False, True, True, False, False]) k"
  define o' where "o' = map (\<lambda>x. xor_bits x [False, False, True, True, True, False, True, False]) k"
  have k: "bytes_ok k" "map byte_of k = map byte_of key @ replicate (64 - length key) 0"
    using assms(1) by (simp_all add: k_def byte_constants)
  have i: "bytes_ok i" "map byte_of i = map (\<lambda>x. x XOR 0x36) (map byte_of k)"
    unfolding i_def by (rule xor_pad [OF k(1)])+
  have o': "bytes_ok o'" "map byte_of o' = map (\<lambda>x. x XOR 0x5c) (map byte_of k)"
    unfolding o'_def by (rule xor_pad [OF k(1)])+
  have h: "hmac_bits key m = sha256_bits (o' @ sha256_bits (i @ m))"
    by (simp only: hmac_bits_def Let_def k_def i_def o'_def)
  have im: "map byte_of (sha256_bits (i @ m)) = sha256 (map byte_of i @ map byte_of m)" "bytes_ok (sha256_bits (i @ m))"
    using sha256_bits_ok [of "i @ m"] i(1) assms(2) by simp_all
  show "bytes_ok (hmac_bits key m)" using im(2) o'(1) by (simp add: h sha256_bits_ok)
  have "map byte_of (hmac_bits key m) = sha256 (map byte_of o' @ map byte_of (sha256_bits (i @ m)))"
    using sha256_bits_ok(1) [of "o' @ sha256_bits (i @ m)"] im(2) o'(1) by (simp add: h)
  with assms(3) show "map byte_of (hmac_bits key m) = hmac_sha256 (map byte_of key) (map byte_of m)"
    by (simp only: hmac_sha256_def Let_def length_map not_less if_not_P im(1) i(2) o'(2) k(2))
qed

fun char_bits :: "char \<Rightarrow> bool list" where
  "char_bits (Char b0 b1 b2 b3 b4 b5 b6 b7) = [b0, b1, b2, b3, b4, b5, b6, b7]"

lemma char_bits_ok: "byte_of (char_bits c) = of_char c" "length (char_bits c) = 8"
  by (cases c; simp add: byte_of_def of_char_def)+

lemma bytes_ok_chars: "bytes_ok (map char_bits s)"
  by (induction s) (simp_all add: char_bits_ok)

definition nat_of_bits :: "bool list \<Rightarrow> nat" where
  "nat_of_bits xs = horner_sum of_bool 2 xs"

lemma of_nat_of_bits: "of_nat (nat_of_bits xs) = byte_of xs"
  unfolding nat_of_bits_def byte_of_def by (induction xs) simp_all

lemma nat_of_bits_less: "nat_of_bits xs < 2 ^ length xs"
  unfolding nat_of_bits_def by (induction xs) auto

lemma unat_byte_of: "length xs = 8 \<Longrightarrow> unat (byte_of xs) = nat_of_bits xs"
  using nat_of_bits_less [of xs] by (simp add: of_nat_of_bits [symmetric] unat_of_nat)

lemma byte_of_nat: "byte_of (int_bits 8 (int n)) = of_nat n"
  by (rule byte_of_eqI) (simp add: bit_byte_of int_bits_nth bit_simps)

end
