(* ===== verification/Hash_Vectors.thy ===== *)
theory Hash_Vectors
  imports Sha256_Eval Rust_Str Base64
begin

text \<open>
  The hash values that the unit tests of \<open>src/scram_verifier.rs\<close> depend on, evaluated with the
  bit functions of the theory Sha256_Eval and stated of SHA-256 and HMAC: the exchange of RFC 7677,
  section 3, and its variations. Byte strings are written in hexadecimal. The salted passwords are the
  results of PBKDF2 with 4096 iterations, which are not evaluated here.
\<close>

section \<open>Byte strings in hexadecimal\<close>

fun hex_bytes :: "string \<Rightarrow> bool list list" where
  "hex_bytes (a # b # r) = (hex_digit b @ hex_digit a) # hex_bytes r"
| "hex_bytes _ = []"

definition hex :: "string \<Rightarrow> bytes" where
  "hex s = map byte_of (hex_bytes s)"

lemma hex_digit_length [simp]: "length (hex_digit c) = 4"
  by (cases c) simp

lemma hex_bytes_ok [simp]: "bytes_ok (hex_bytes s)"
  by (induction s rule: hex_bytes.induct) simp_all

lemma byte_of_inj: "length x = 8 \<Longrightarrow> length y = 8 \<Longrightarrow> byte_of x = byte_of y \<Longrightarrow> x = y"
  by (rule nth_equalityI) (auto dest: arg_cong [where f = "\<lambda>b. bit b _"] simp: bit_byte_of)

lemma map_byte_of_inj: "bytes_ok xs \<Longrightarrow> bytes_ok ys \<Longrightarrow> map byte_of xs = map byte_of ys \<longleftrightarrow> xs = ys"
  by (induction xs ys rule: list_induct2') (auto dest: byte_of_inj)

lemma hex_eq: "hex s = hex t \<longleftrightarrow> hex_bytes s = hex_bytes t"
  by (simp add: hex_def map_byte_of_inj)

lemma hex_length: "length (hex s) = length (hex_bytes s)"
  by (simp add: hex_def)

lemma bytes_of_str_bits: "bytes_of_str s = map byte_of (map char_bits s)"
  by (simp add: bytes_of_str_def char_bits_ok of_nat_of_char)

section \<open>What an evaluation shows\<close>

definition sha256_gives :: "string \<Rightarrow> string \<Rightarrow> bool" where
  "sha256_gives m d \<longleftrightarrow> sha256_bits (hex_bytes m) = hex_bytes d"

definition hmac_gives :: "string \<Rightarrow> string \<Rightarrow> string \<Rightarrow> bool" where
  "hmac_gives k m d \<longleftrightarrow> length (hex_bytes k) = 32 \<and> hmac_bits (hex_bytes k) (map char_bits m) = hex_bytes d"

lemma sha256_hex: "sha256_gives m d \<Longrightarrow> sha256 (hex m) = hex d"
  using sha256_bits_ok(1) [of "hex_bytes m"] by (simp add: sha256_gives_def hex_def)

lemma hmac_hex: "hmac_gives k m d \<Longrightarrow> hmac_sha256 (hex k) (bytes_of_str m) = hex d"
  using hmac_bits_ok(1) [of "hex_bytes k" "map char_bits m"]
  by (simp add: hmac_gives_def hex_def bytes_of_str_bits bytes_ok_chars del: map_map)

lemma b64_encode_hex: "b64_encode (hex s) = b64_encode_nats (map nat_of_bits (hex_bytes s))"
proof -
  have "map unat (map byte_of bs) = map nat_of_bits bs" if "bytes_ok bs" for bs
    using that by (induction bs) (simp_all add: unat_byte_of)
  then show ?thesis by (simp add: b64_encode_def hex_def del: map_map)
qed

lemma b64_decode_hex:
  assumes "b64_decode_nats t = Some (map nat_of_bits (hex_bytes s))"
  shows "b64_decode t = Some (hex s)"
  using assms by (simp add: b64_decode_def hex_def o_def of_nat_of_bits)

section \<open>The exchange of RFC 7677\<close>

abbreviation rfc_first :: string where
  "rfc_first \<equiv> ''r=rOprNGfwEbeRWgbNEkqO%hvYDpWUa2RaTCAfuxFIlj)hNlF$k0,s=W22ZaJ0SNY7soEsUEjb6gQ==,i=4096''"

abbreviation rfc_prefix :: string where
  "rfc_prefix \<equiv> ''c=biws,r=rOprNGfwEbeRWgbNEkqO%hvYDpWUa2RaTCAfuxFIlj)hNlF$k0''"

abbreviation rfc_auth_message :: string where
  "rfc_auth_message \<equiv> ''n=user,r=rOprNGfwEbeRWgbNEkqO,'' @ rfc_first @ '','' @ rfc_prefix"

abbreviation salted_pencil :: string where
  "salted_pencil \<equiv> ''c4a49510323ab4f952cac1fa99441939e78ea74d6be81ddf7096e87513dc615d''"

abbreviation rfc_client_key :: string where
  "rfc_client_key \<equiv> ''a60fc923d67e8644a92d16b96eda5ef4656b0c725c484374be25535576996e8b''"

abbreviation rfc_stored_key :: string where
  "rfc_stored_key \<equiv> ''586e5df283e6dceb5c3e791d8b8528ec191e664045ce971792e2e6b5bb13e2a6''"

abbreviation rfc_server_key :: string where
  "rfc_server_key \<equiv> ''c1f3cbc1c13a9d35a14c0990eed97629ea225863e566a4314ab99f3f00e5d9d5''"

abbreviation rfc_client_proof :: string where
  "rfc_client_proof \<equiv> ''747cdb65aa56224e2352137e52d7bdcad6a0f738df30782caa69a2cfb0277554''"

lemma abc_digest: "sha256 (bytes_of_str ''abc'') = hex ''ba7816bf8f01cfea414140de5dae2223b00361a396177a9cb410ff61f20015ad''"
proof -
  have "sha256_bits (map char_bits ''abc'') = hex_bytes ''ba7816bf8f01cfea414140de5dae2223b00361a396177a9cb410ff61f20015ad''" by code_simp
  then show ?thesis
    using sha256_bits_ok(1) [of "map char_bits ''abc''"]
    by (simp add: bytes_of_str_bits hex_def bytes_ok_chars del: map_map list.map)
qed

lemma rfc_client_key_eq: "hmac_sha256 (hex salted_pencil) (bytes_of_str (''Client Key'')) =
    hex rfc_client_key"
  by (rule hmac_hex) code_simp

lemma rfc_stored_key_eq: "sha256 (hex rfc_client_key) =
    hex rfc_stored_key"
  by (rule sha256_hex) code_simp

lemma rfc_server_key_eq: "hmac_sha256 (hex salted_pencil) (bytes_of_str (''Server Key'')) =
    hex rfc_server_key"
  by (rule hmac_hex) code_simp

lemma rfc_client_signature_eq: "hmac_sha256 (hex rfc_stored_key) (bytes_of_str (rfc_auth_message)) =
    hex ''d27312467c28a40a8a7f05c73c0de33eb3cbfb4a83783b58144cf19ac6be1bdf''"
  by (rule hmac_hex) code_simp

lemma rfc_server_signature_eq: "hmac_sha256 (hex rfc_server_key) (bytes_of_str (rfc_auth_message)) =
    hex ''eabae24d1062db75a9451ff0b6ea7e98c8546549ff741e672d3251b2397de46e''"
  by (rule hmac_hex) code_simp

section \<open>Its variations\<close>

lemma tampered_0_eq: "sha256 (hex ''a70fc923d67e8644a92d16b96eda5ef4656b0c725c484374be25535576996e8b'') =
    hex ''191e8eb4fe1fe4de588ee47dd0a21ab6ff8fae5b8a607686d2f08d3dd6864182''"
  by (rule sha256_hex) code_simp

lemma tampered_15_eq: "sha256 (hex ''a60fc923d67e8644a92d16b96eda5ef5656b0c725c484374be25535576996e8b'') =
    hex ''d8c9fd59b4ccc412d51f2c40552c74af6340bb830c38a455bf06c4075b46ea4e''"
  by (rule sha256_hex) code_simp

lemma tampered_31_eq: "sha256 (hex ''a60fc923d67e8644a92d16b96eda5ef4656b0c725c484374be25535576996e8a'') =
    hex ''9a443b695a41c0d1005e959478a3807f29af851f769bebcf68a4344e4ac04510''"
  by (rule sha256_hex) code_simp

lemma extended_signature_eq: "hmac_sha256 (hex rfc_stored_key) (bytes_of_str (rfc_auth_message @ '',x=ext'')) =
    hex ''a608d782a598c30e73e18de761d335056f7f50570b24017506ec45e3b1f8f0d4''"
  by (rule hmac_hex) code_simp

lemma extended_key_eq: "sha256 (hex ''d2740ce70fcee14050b39e99330488cfb9dfa76fd4147959ac85e72c01df8580'') =
    hex ''981d6611432a276bd9b95848cbee0f84bbbbaf3f4f830b5576b4d83ba2531eb1''"
  by (rule sha256_hex) code_simp

abbreviation salted_wrong :: string where
  "salted_wrong \<equiv> ''de9298cd3d2bd951ef5dd502ccdccaf6a46c903e91b625fcd38f5ec47bc9d13c''"

abbreviation wrong_stored_key :: string where
  "wrong_stored_key \<equiv> ''77a55eab1fcbb79d2cdb6ee41d90f27ad163206f393c323486955d9012dde46e''"

lemma wrong_client_key_eq: "hmac_sha256 (hex salted_wrong) (bytes_of_str (''Client Key'')) =
    hex ''8c28e6a8a8866c0355f56af647e0e4c4460507f5f507e52fd5a088ca458a25a6''"
  by (rule hmac_hex) code_simp

lemma wrong_stored_key_eq: "sha256 (hex ''8c28e6a8a8866c0355f56af647e0e4c4460507f5f507e52fd5a088ca458a25a6'') =
    hex wrong_stored_key"
  by (rule sha256_hex) code_simp

lemma wrong_signature_eq: "hmac_sha256 (hex wrong_stored_key) (bytes_of_str (rfc_auth_message)) =
    hex ''cb3fe51b7d804a43be680f8f438e8cf78f101f1f832218a4d6cea9a533dfeafc''"
  by (rule hmac_hex) code_simp

lemma wrong_key_eq: "sha256 (hex ''bf433e7ed7d6680d9d3a1cf11159313d59b0e8275c1260887ca70b6a83f89fa8'') =
    hex ''69d8d89f3e9b8dba5ec852e1a6c0a871bd60d74c2fa4535e704c381625a6f583''"
  by (rule sha256_hex) code_simp

lemma mock_ghost_eq: "hmac_sha256 (hex ''0707070707070707070707070707070707070707070707070707070707070707'') (bytes_of_str (''salt'' @ [CHR 0x00] @ ''ghost'')) =
    hex ''afa51a9e893f02b506a9d3fac45a7a68e21507d2cfc033db95af8f2aece6d92c''"
  by (rule hmac_hex) code_simp

lemma mock_other_eq: "hmac_sha256 (hex ''0707070707070707070707070707070707070707070707070707070707070707'') (bytes_of_str (''salt'' @ [CHR 0x00] @ ''other'')) =
    hex ''509351320e41c5230eeb4fe8e4231cb7028834632c0c351e1bb025a553ee3fe4''"
  by (rule hmac_hex) code_simp

lemma mock_secret_eq: "hmac_sha256 (hex ''0808080808080808080808080808080808080808080808080808080808080808'') (bytes_of_str (''salt'' @ [CHR 0x00] @ ''ghost'')) =
    hex ''84f7091c6a3227f8f6afcbf8284f72c604d3b55846ae6c84fa094afa49755090''"
  by (rule hmac_hex) code_simp

end
