(* ===== verification/Unit_Tests.thy ===== *)
theory Unit_Tests
  imports Auth Query Messages Extended Scram Empty_Query Hash_Vectors
begin

text \<open>
  The unit tests that the source files carry, run on the model: each test is a boolean with the
  assertions of the test function, and evaluates to true. What a test takes from the libraries (the
  table of types, the verifier made with PBKDF2, the codec of pgwire) is an argument. The tests
  on the exchange of RFC 7677 that depend on its verifier are in the theory Scram_Tests.
\<close>

definition is_ok :: "'e + 'a \<Rightarrow> bool" where
  "is_ok r = (case r of Inl e \<Rightarrow> False | Inr x \<Rightarrow> True)"

fun contains :: "string \<Rightarrow> string \<Rightarrow> bool" where
  "contains [] t \<longleftrightarrow> t = []"
| "contains (c # s) t \<longleftrightarrow> starts_with t (c # s) \<or> contains s t"

section \<open>\<open>errors.rs\<close>\<close>

definition plain_error_info :: "string \<Rightarrow> string \<Rightarrow> string \<Rightarrow> py_error_info" where
  "plain_error_info severity code message =
     py_error_info_new severity code message None None None None None None None None None None None None None None None"

definition test_error_info_round_trips :: bool where
  "test_error_info_round_trips =
     (let py_info = py_error_info_of_pg (error_info_new ''ERROR'' ''22000'' ''bad'');
          back = pg_error_info_of_py py_info
      in pei_severity py_info = ''ERROR'' \<and> pei_code py_info = ''22000'' \<and> pei_message py_info = ''bad'' \<and>
         pei_detail py_info = None \<and>
         ei_severity back = ''ERROR'' \<and> ei_code back = ''22000'' \<and> ei_message back = ''bad'')"

definition test_error_info_repr :: "(nat \<Rightarrow> bool) \<Rightarrow> bool" where
  "test_error_info_repr esc =
     (let s = error_info_repr esc (plain_error_info ''ERROR'' ''22000'' ''bad'')
      in contains s ''ERROR'' \<and> contains s ''22000'' \<and> contains s ''bad'')"

definition test_is_fatal_matches_severity :: bool where
  "test_is_fatal_matches_severity =
     (is_fatal (plain_error_info ''FATAL'' ''08P01'' ''x'') \<and> \<not> is_fatal (plain_error_info ''WARNING'' ''00000'' ''x''))"

section \<open>\<open>auth.rs\<close>\<close>

definition test_password_round_trips :: bool where
  "test_password_round_trips =
     (let p = pg_password_of_py \<lparr>pw_password = bytes_of_str ''hunter2'', pw_salt = Some [1, 2, 3, 4]\<rparr>
      in pgp_password p = bytes_of_str ''hunter2'' \<and> pgp_salt p = Some [1, 2, 3, 4])"

definition test_login_info_from_pg :: bool where
  "test_login_info_from_pg =
     (let info = login_info_from_pg \<lparr>pgl_user = Some ''alice'', pgl_database = Some ''postgres'', pgl_host = ''10.0.0.1''\<rparr>
      in li_user info = Some ''alice'' \<and> li_database info = Some ''postgres'' \<and> li_host info = ''10.0.0.1'')"

section \<open>\<open>query.rs\<close>\<close>

definition test_field_info_round_trips :: "type_table \<Rightarrow> bool" where
  "test_field_info_round_trips tt =
     (let pg = pg_field_info_of_py tt \<lparr>fi_name = ''id'', fi_type_id = 23, fi_format = 0\<rparr>
      in pgf_name pg = ''id'' \<and> ty_oid (pgf_datatype pg) = 23)"

definition test_custom_oid_preserved :: "type_table \<Rightarrow> bool" where
  "test_custom_oid_preserved tt =
     (let pg = pg_field_info_of_py tt \<lparr>fi_name = ''custom'', fi_type_id = 99999, fi_format = 0\<rparr>
      in ty_oid (pgf_datatype pg) = 99999)"

definition test_empty_response_converts :: "type_table \<Rightarrow> bool" where
  "test_empty_response_converts tt = (into_pg tt Resp_Empty = EmptyQuery)"

definition is_execution :: "pg_response \<Rightarrow> bool" where
  "is_execution r = (case r of Execution _ \<Rightarrow> True | _ \<Rightarrow> False)"

definition is_transaction_start :: "pg_response \<Rightarrow> bool" where
  "is_transaction_start r = (case r of TransactionStart _ \<Rightarrow> True | _ \<Rightarrow> False)"

definition test_execution_response :: "type_table \<Rightarrow> bool" where
  "test_execution_response tt =
     is_execution (into_pg tt (Resp_Execution ''INSERT'' (Some 0) (Some 5) None))"

definition test_explicit_transaction_effect :: "type_table \<Rightarrow> bool" where
  "test_explicit_transaction_effect tt =
     (list_all (\<lambda>command. is_transaction_start (into_pg tt (Resp_Execution command None None (Some Start))))
        [''BEGIN'', ''start transaction''] \<and>
      list_all (\<lambda>command. is_transaction_end (into_pg tt (Resp_Execution command None None (Some End))))
        [''COMMIT'', ''END'', ''ROLLBACK'', ''ABORT''] \<and>
      is_execution (into_pg tt (Resp_Execution ''ROLLBACK'' None None None)))"

definition test_encode_data_row :: bool where
  "test_encode_data_row =
     (let row = encode_data_row [Some (bytes_of_str ''a''), None, Some (bytes_of_str ''hello'')]
      in dr_field_count row = 3 \<and> length (dr_data row) = 4 + 1 + 4 + 4 + 5)"

section \<open>\<open>messages.rs\<close>\<close>

definition test_transaction_status_round_trip :: bool where
  "test_transaction_status_round_trip =
     list_all (\<lambda>s. py_status_of_pg (pg_status_of_py s) = s) [Py_Idle, Py_Transaction, Py_Error]"

definition test_field_description_round_trip :: bool where
  "test_field_description_round_trip =
     (let f = \<lparr>fd_name = ''id'', fd_table_id = 16384, fd_column_id = 1, fd_type_id = 23, fd_type_size = 4,
               fd_type_modifier = -1, fd_format_code = 0\<rparr>
      in py_field_description_of_pg (pg_field_description_of_py f) = f)"

definition test_decode_rejects_truncated_input :: "py_runtime \<Rightarrow> pg_query codec \<Rightarrow> bool" where
  "test_decode_rejects_truncated_input r C = (\<not> is_ok (decode_from_slice r C []))"

section \<open>\<open>extended.rs\<close>\<close>

definition test_format_code_helpers :: "type_table \<Rightarrow> bool" where
  "test_format_code_helpers tt =
     (format_codes UnifiedText 2 = [0, 0] \<and> format_codes UnifiedBinary 2 = [1, 1] \<and>
      format_codes (Individual [0, 1]) 2 = [0, 1] \<and>
      result_format_codes UnifiedText = [] \<and> result_format_codes UnifiedBinary = [1] \<and>
      result_format_codes (Individual [1, 0]) = [1, 0] \<and>
      Some (pg_type_of tt 23) = tt_from_oid tt 23 \<and> pg_type_of tt 0 = tt_unknown tt \<and>
      ty_oid (pg_type_of tt (-1)) = -1)"

definition test_empty_query_recognizes_comments :: bool where
  "test_empty_query_recognizes_comments =
     (list_all is_empty_query
        ['''', ''; ;'', ''-- line'', ''/* block */'', ''; /* outer /* inner */ end */ -- tail''] \<and>
      list_all (\<lambda>sql. \<not> is_empty_query sql)
        [''SELECT 1'', ''/* incomplete'', ''-- comment'' @ [CHR 0x0A] @ ''SELECT 1'',
         ''-- comment'' @ [CHR 0x0D] @ ''SELECT 1'', ''/* comment */ SELECT 1'', [CHR 0xC2, CHR 0xA0]])"

section \<open>\<open>scram_verifier.rs\<close>\<close>

definition CLIENT_FIRST :: string where
  "CLIENT_FIRST = ''n,,n=user,r=rOprNGfwEbeRWgbNEkqO''"

definition SERVER_NONCE :: string where
  "SERVER_NONCE = ''%hvYDpWUa2RaTCAfuxFIlj)hNlF$k0''"

definition final_prefix :: string where
  "final_prefix = ''c=biws,r=rOprNGfwEbeRWgbNEkqO%hvYDpWUa2RaTCAfuxFIlj)hNlF$k0''"

definition final_proof :: string where
  "final_proof = ''dHzbZapWIk4jUhN+Ute9ytag9zjfMHgsqmmiz7AndVQ=''"

text \<open>The exchange of RFC 7677, with any verifier in the place of the one that PBKDF2 gives.\<close>

definition rfc_exchange :: "scram_verifier \<Rightarrow> bool \<Rightarrow> pgwire_error + exchange" where
  "rfc_exchange verifier mock =
     (case client_first_parse CLIENT_FIRST of
        Inl e \<Rightarrow> Inl e
      | Inr first \<Rightarrow> Inr (exchange_new rfc_prims first [] SERVER_NONCE ''user'' verifier mock))"

definition is_invalid_message :: "pgwire_error + 'a \<Rightarrow> bool" where
  "is_invalid_message r = (case r of Inl (InvalidScramMessage _) \<Rightarrow> True | _ \<Rightarrow> False)"

definition is_invalid_password :: "pgwire_error + 'a \<Rightarrow> bool" where
  "is_invalid_password r = (case r of Inl (InvalidPassword user) \<Rightarrow> user = ''user'' | _ \<Rightarrow> False)"

definition test_client_first_parsing :: bool where
  "test_client_first_parsing =
     ((case client_first_parse ''p=tls-server-end-point,a=bob,n=,r=abc,x=1'' of
         Inl e \<Rightarrow> False
       | Inr first \<Rightarrow>
           cf_cbind_flag first = ''p=tls-server-end-point'' \<and> cf_gs2_header first = ''p=tls-server-end-point,a=bob,'' \<and>
           cf_bare first = ''n=,r=abc,x=1'' \<and> cf_nonce first = ''abc'') \<and>
      list_all (\<lambda>message. \<not> is_ok (client_first_parse message))
        [''n'', ''n,'', ''n,b=bob,n=user,r=abc'', ''n,,m=ext,n=user,r=abc'', ''n,,n=user'', ''n,,n=user,r='', ''n,,r=abc''])"

definition test_channel_binding_negotiation :: bool where
  "test_channel_binding_negotiation =
     (let signature = [1, 2, 3]; plus = ''p=tls-server-end-point''
      in negotiate SCRAM_SHA_256_PLUS_METHOD plus (Some signature) = Inr signature \<and>
         negotiate SCRAM_SHA_256_METHOD ''n'' (Some signature) = Inr [] \<and>
         negotiate SCRAM_SHA_256_METHOD ''y'' None = Inr [] \<and>
         list_all (\<lambda>(mechanism, flag, certificate). is_invalid_message (negotiate mechanism flag certificate))
           [(SCRAM_SHA_256_METHOD, ''y'', Some signature), (SCRAM_SHA_256_METHOD, plus, Some signature),
            (SCRAM_SHA_256_PLUS_METHOD, ''n'', Some signature), (SCRAM_SHA_256_PLUS_METHOD, plus, None),
            (SCRAM_SHA_256_PLUS_METHOD, ''p=tls-unique'', Some signature)] \<and>
         (case negotiate ''SCRAM-SHA-1'' ''n'' None of Inl (UnsupportedSASLAuthMethod _) \<Rightarrow> True | _ \<Rightarrow> False))"

definition test_client_final_checks :: "scram_verifier \<Rightarrow> bool" where
  "test_client_final_checks verifier =
     (case (rfc_exchange verifier False, strip_prefix ''c=biws,'' final_prefix) of
        (Inr exchange, Some nonce) \<Rightarrow>
          list_all (\<lambda>message. is_invalid_message (verify rfc_prims exchange (bytes_of_str message)))
            [''c=biws'', nonce @ '',p='' @ final_proof, ''c=biws,p='' @ final_proof,
             ''c=eSws,'' @ nonce @ '',p='' @ final_proof, ''c=biws,r=other,p='' @ final_proof,
             final_prefix @ '',p=!!'', final_prefix @ '',p=AAAA''] \<and>
          is_invalid_message (verify rfc_prims exchange [0xFF])
      | _ \<Rightarrow> False)"

definition test_mock_verifier_never_succeeds :: "scram_verifier \<Rightarrow> bool" where
  "test_mock_verifier_never_succeeds verifier =
     (case rfc_exchange verifier True of
        Inl e \<Rightarrow> False
      | Inr exchange \<Rightarrow>
          is_invalid_password (verify rfc_prims exchange (bytes_of_str (final_prefix @ '',p='' @ final_proof))) \<and>
          (let secret = replicate 32 7;
               first = mock_verifier rfc_prims secret ''ghost'' 4096;
               again = mock_verifier rfc_prims secret ''ghost'' 4096
           in sv_salt first = sv_salt again \<and> length (sv_salt first) = 16 \<and>
              sv_salt first \<noteq> sv_salt (mock_verifier rfc_prims secret ''other'' 4096) \<and>
              sv_salt first \<noteq> sv_salt (mock_verifier rfc_prims (replicate 32 8) ''ghost'' 4096)))"

definition test_channel_binding_includes_certificate_hash :: "scram_verifier \<Rightarrow> bool" where
  "test_channel_binding_includes_certificate_hash verifier =
     (case client_first_parse ''p=tls-server-end-point,,n=,r=abc'' of
        Inl e \<Rightarrow> False
      | Inr first \<Rightarrow>
          ex_channel_binding (exchange_new rfc_prims first [9, 9] ''xyz'' ''u'' verifier False) =
          b64_encode (bytes_of_str (''p=tls-server-end-point,,'' @ [CHR 0x09, CHR 0x09])))"

definition test_verifier_parse_round_trips :: "scram_verifier \<Rightarrow> bool" where
  "test_verifier_parse_round_trips verifier =
     (let key = b64_encode (replicate 32 0);
          txt = ''SCRAM-SHA-256$'' @ show_u32 (sv_iterations verifier) @ '':'' @ b64_encode (sv_salt verifier) @ ''$'' @
            b64_encode (sv_stored_key verifier) @ '':'' @ b64_encode (sv_server_key verifier)
      in (case verifier_parse rfc_prims txt of
            Inl e \<Rightarrow> False
          | Inr parsed \<Rightarrow>
              sv_iterations parsed = 4096 \<and> sv_salt parsed = sv_salt verifier \<and>
              sv_stored_key parsed = sv_stored_key verifier \<and> sv_server_key parsed = sv_server_key verifier) \<and>
         list_all (\<lambda>bad. case verifier_parse rfc_prims bad of Inl error \<Rightarrow> \<not> contains error key | Inr v \<Rightarrow> False)
           [''md5abc'', ''SCRAM-SHA-256$4096:c2FsdA=='',
            ''SCRAM-SHA-256$4096$c2FsdA==$'' @ key @ '':'' @ key,
            ''SCRAM-SHA-256$4096:c2FsdA==$'' @ key,
            ''SCRAM-SHA-256$x:c2FsdA==$'' @ key @ '':'' @ key,
            ''SCRAM-SHA-256$4096:!!$'' @ key @ '':'' @ key,
            ''SCRAM-SHA-256$4096:c2FsdA==$!!:'' @ key,
            ''SCRAM-SHA-256$4096:c2FsdA==$'' @ key @ '':!!'',
            ''SCRAM-SHA-256$0:c2FsdA==$'' @ key @ '':'' @ key,
            ''SCRAM-SHA-256$4096:$'' @ key @ '':'' @ key,
            ''SCRAM-SHA-256$4096:c2FsdA==$AAAA:'' @ key])"

section \<open>Running them\<close>

lemmas test_defs = Let_def is_ok_def is_execution_def is_transaction_start_def is_transaction_end_def
  is_invalid_message_def is_invalid_password_def

lemma errors_tests: "test_error_info_round_trips" "test_is_fatal_matches_severity"
  by (simp_all add: test_error_info_round_trips_def error_info_new_def py_error_info_of_pg_def pg_error_info_of_py_def
      test_is_fatal_matches_severity_def is_fatal_def plain_error_info_def py_error_info_new_def Let_def)

definition printable :: "char \<Rightarrow> bool" where
  "printable c \<longleftrightarrow> (let n = (of_char c :: nat) in 32 \<le> n \<and> n < 127 \<and> n \<noteq> 34 \<and> n \<noteq> 92)"

lemma debug_body_printable: "list_all printable s \<Longrightarrow> debug_body esc s = s"
  by (induction s) (simp_all add: printable_def utf8_width_def debug_char_def Let_def)

lemma repr_test: "test_error_info_repr esc"
  by (simp add: test_error_info_repr_def error_info_repr_def plain_error_info_def py_error_info_new_def Let_def
      starts_with_def debug_str_def debug_body_printable printable_def del: debug_body.simps)

lemma auth_tests: "test_password_round_trips" "test_login_info_from_pg"
  by (simp_all add: test_password_round_trips_def test_login_info_from_pg_def login_info_from_pg_def Let_def)

lemma field_info_tests:
  assumes "type_table_ok tt"
  shows "test_field_info_round_trips tt" and "test_custom_oid_preserved tt"
  using assms by (auto simp: test_field_info_round_trips_def test_custom_oid_preserved_def type_table_ok_def
      pg_field_info_of_py_def Let_def split: option.split)

lemma response_tests:
  "test_empty_response_converts tt" "test_execution_response tt" "test_explicit_transaction_effect tt"
  by (simp_all add: test_empty_response_converts_def test_execution_response_def test_explicit_transaction_effect_def test_defs)

lemma row_test: "test_encode_data_row"
  by (simp add: test_encode_data_row_def encode_data_row_def be32_def bytes_of_str_def Let_def)

lemma message_tests: "test_transaction_status_round_trip" "test_field_description_round_trip"
  by (simp_all add: test_transaction_status_round_trip_def test_field_description_round_trip_def
      py_field_description_of_pg_def pg_field_description_of_py_def Let_def)

lemma truncated_test: "cd_decode C [] = Inr None \<Longrightarrow> test_decode_rejects_truncated_input r C"
  by (simp add: test_decode_rejects_truncated_input_def decode_from_slice_def is_ok_def)

lemma format_test:
  assumes "type_table_ok tt" and "tt_from_oid tt 23 \<noteq> None"
  shows "test_format_code_helpers tt"
proof -
  have "replicate 2 x = [x, x]" for x :: i16 by (simp add: numeral_2_eq_2)
  with assms show ?thesis
    by (auto simp: test_format_code_helpers_def pg_type_of_def type_table_ok_def split: option.split)
qed

lemma empty_query_test: "test_empty_query_recognizes_comments"
  by (simp add: test_empty_query_recognizes_comments_def is_ascii_whitespace_def next_if_eq_def skip_block.simps)

subsection \<open>The exchange\<close>

lemma client_first_test: "test_client_first_parsing"
  by (simp add: test_client_first_parsing_def client_first_parse_def starts_with_def test_defs)

lemma negotiation_test: "test_channel_binding_negotiation"
  by (simp add: test_channel_binding_negotiation_def negotiate_def invalid_def SCRAM_SHA_256_PLUS_METHOD_def
      SCRAM_SHA_256_METHOD_def starts_with_def test_defs)

lemma rfc_base64 [simp]: "sp_b64_encode rfc_prims = b64_encode" "sp_b64_decode rfc_prims = b64_decode"
  by (simp_all add: rfc_prims_def)

lemmas b64_eval = b64_encode_def b64_char_def b64_decode_def b64_decode_last_def b64_value_def b64_alphabet_def upt_rec

lemma decoded:
  "b64_decode ''AAAA'' = Some [0, 0, 0]" "b64_decode ''!!'' = None" "b64_decode [] = Some []"
  "\<exists>p. b64_decode final_proof = Some p \<and> length p = 32" "\<exists>x y. b64_decode ''c2FsdA=='' = Some (x # y)"
  by (simp_all add: b64_eval final_proof_def)

lemma rfc_exchange_eq:
  obtains x y where "rfc_exchange v mock = Inr
    \<lparr>ex_user = ''user'', ex_verifier = v, ex_mock = mock, ex_nonce = ''rOprNGfwEbeRWgbNEkqO%hvYDpWUa2RaTCAfuxFIlj)hNlF$k0'',
     ex_channel_binding = ''biws'', ex_server_first = x, ex_auth_prefix = y\<rparr>"
proof -
  have "b64_encode (bytes_of_str ''n,,'') = ''biws''" by (simp add: b64_eval bytes_of_str_def)
  moreover have "client_first_parse CLIENT_FIRST = Inr
      \<lparr>cf_cbind_flag = ''n'', cf_gs2_header = ''n,,'', cf_bare = ''n=user,r=rOprNGfwEbeRWgbNEkqO'',
       cf_nonce = ''rOprNGfwEbeRWgbNEkqO''\<rparr>"
    by (simp add: CLIENT_FIRST_def client_first_parse_def Let_def)
  ultimately show thesis
    using that by (simp add: rfc_exchange_def exchange_new_def Let_def SERVER_NONCE_def)
qed

lemmas final_defs = final_prefix_def final_proof_def verify_def utf8_def utf8_valid_is_ascii invalid_def

lemma client_final_test: "test_client_final_checks v"
proof -
  have "\<not> utf8_valid [0xFF]" by (simp add: utf8_valid.simps utf8_step_def utf8_follow_def)
  moreover obtain x y where "rfc_exchange v False = Inr
    \<lparr>ex_user = ''user'', ex_verifier = v, ex_mock = False, ex_nonce = ''rOprNGfwEbeRWgbNEkqO%hvYDpWUa2RaTCAfuxFIlj)hNlF$k0'',
     ex_channel_binding = ''biws'', ex_server_first = x, ex_auth_prefix = y\<rparr>"
    by (rule rfc_exchange_eq)
  ultimately show ?thesis
    by (simp add: test_client_final_checks_def final_defs decoded(1,2) test_defs)
qed

lemma mock_salt: "sv_salt (mock_verifier rfc_prims secret user n) =
    take 16 (hmac_sha256 secret (bytes_of_str (''salt'' @ [CHR 0x00] @ user)))"
  by (simp add: mock_verifier_def rfc_prims_def Let_def)

lemma take_hex: "take 16 (hex s) = hex (take 32 s)"
proof -
  have "take n (hex_bytes s) = hex_bytes (take (2 * n) s)" for n
    by (induction s arbitrary: n rule: hex_bytes.induct) (auto simp: take_Cons split: nat.split)
  from this [of 16] show ?thesis by (simp add: hex_def take_map)
qed

lemma secrets:
  "hex ''0707070707070707070707070707070707070707070707070707070707070707'' = replicate 32 7"
  "hex ''0808080808080808080808080808080808080808080808080808080808080808'' = replicate 32 8"
  by (simp_all add: hex_def byte_of_def numeral_eq_Suc)

lemma mock_salts:
  "length (sv_salt (mock_verifier rfc_prims secret user n)) = 16"
  "sv_salt (mock_verifier rfc_prims (replicate 32 7) ''ghost'' n) \<noteq> sv_salt (mock_verifier rfc_prims (replicate 32 7) ''other'' n)"
  "sv_salt (mock_verifier rfc_prims (replicate 32 7) ''ghost'' n) \<noteq> sv_salt (mock_verifier rfc_prims (replicate 32 8) ''ghost'' n)"
  unfolding mock_salt secrets [symmetric] mock_ghost_eq mock_other_eq mock_secret_eq take_hex hex_eq
  by simp_all

lemma mock_test: "test_mock_verifier_never_succeeds v"
proof -
  obtain x y where "rfc_exchange v True = Inr
    \<lparr>ex_user = ''user'', ex_verifier = v, ex_mock = True, ex_nonce = ''rOprNGfwEbeRWgbNEkqO%hvYDpWUa2RaTCAfuxFIlj)hNlF$k0'',
     ex_channel_binding = ''biws'', ex_server_first = x, ex_auth_prefix = y\<rparr>"
    by (rule rfc_exchange_eq)
  moreover obtain p where "b64_decode ''dHzbZapWIk4jUhN+Ute9ytag9zjfMHgsqmmiz7AndVQ='' = Some p" "length p = 32"
    using decoded(4) by (auto simp: final_proof_def)
  ultimately show ?thesis
    by (simp add: test_mock_verifier_never_succeeds_def final_defs test_defs mock_salts)
qed

lemma certificate_hash_test: "test_channel_binding_includes_certificate_hash v"
  by (simp add: test_channel_binding_includes_certificate_hash_def exchange_new_def client_first_parse_def Let_def
      starts_with_def) (simp add: bytes_of_str_def)

subsection \<open>The text of a verifier\<close>

abbreviation zero_key :: string where
  "zero_key \<equiv> ''AAAAAAAAAAAAAAAAAAAAAAAAAAAAAAAAAAAAAAAAAAA=''"

lemma zero_key_encoded: "b64_encode (replicate 32 0) = zero_key"
proof -
  have "b64_encode_nats (replicate 32 0) = zero_key" by code_simp
  then show ?thesis by (simp add: b64_encode_def)
qed

lemma zero_key_decoded: "b64_decode zero_key = Some (replicate 32 0)"
  by (subst zero_key_encoded [symmetric]) (rule b64_decode_encode)

lemma parsed_numbers: "parse_u32 ''x'' = None" "parse_u32 ''0'' = Some 0" "parse_u32 ''4096'' = Some 4096"
  by (simp_all add: parse_u32_def digit_val_def)

lemma malformed_verifiers:
  "verifier_parse rfc_prims ''md5abc'' = Inl INVALID"
  "verifier_parse rfc_prims ''SCRAM-SHA-256$4096:c2FsdA=='' = Inl INVALID"
  "verifier_parse rfc_prims (''SCRAM-SHA-256$4096$c2FsdA==$'' @ zero_key @ '':'' @ zero_key) = Inl INVALID"
  "verifier_parse rfc_prims (''SCRAM-SHA-256$4096:c2FsdA==$'' @ zero_key) = Inl INVALID"
  "verifier_parse rfc_prims (''SCRAM-SHA-256$x:c2FsdA==$'' @ zero_key @ '':'' @ zero_key) = Inl INVALID"
  "verifier_parse rfc_prims (''SCRAM-SHA-256$4096:!!$'' @ zero_key @ '':'' @ zero_key) = Inl INVALID"
  "verifier_parse rfc_prims (''SCRAM-SHA-256$4096:c2FsdA==$!!:'' @ zero_key) = Inl INVALID"
  "verifier_parse rfc_prims (''SCRAM-SHA-256$4096:c2FsdA==$'' @ zero_key @ '':!!'') = Inl INVALID"
  by (simp_all add: verifier_parse_def zero_key_decoded decoded(2) parsed_numbers split: option.split)

lemma refused_verifiers:
  "verifier_parse rfc_prims (''SCRAM-SHA-256$0:c2FsdA==$'' @ zero_key @ '':'' @ zero_key) =
     Inl ''iterations must be positive''"
  "verifier_parse rfc_prims (''SCRAM-SHA-256$4096:$'' @ zero_key @ '':'' @ zero_key) = Inl ''salt must not be empty''"
  "verifier_parse rfc_prims (''SCRAM-SHA-256$4096:c2FsdA==$AAAA:'' @ zero_key) = Inl ''stored_key and server_key must be 32-byte SHA-256 values''"
  using decoded(5)
  by (auto simp: verifier_parse_def zero_key_decoded decoded(1,3) parsed_numbers verifier_new_def)

lemma verifier_text_test:
  assumes "verifier_ok v" and "sv_iterations v = 4096"
  shows "test_verifier_parse_round_trips v"
  using rfc.verifier_parse_text [OF assms(1)] assms(2) malformed_verifiers refused_verifiers
  by (simp add: test_verifier_parse_round_trips_def zero_key_encoded verifier_text_def INVALID_def starts_with_def Let_def)

section \<open>Property\<close>



end
