(* ===== verification/Scram_Tests.thy ===== *)
theory Scram_Tests
  imports Unit_Tests
begin

text \<open>
  The unit tests of \<open>src/scram_verifier.rs\<close> that depend on the verifier of RFC 7677 and on the
  fixtures with certificates. PBKDF2 and the reader of PEM files are arguments: their results on the
  inputs of the tests are hypotheses, and everything else is evaluated.
\<close>

section \<open>The tests\<close>

type_synonym pbkdf2 = "u32 \<Rightarrow> bytes \<Rightarrow> bytes \<Rightarrow> bytes"

definition PASSWORD :: bytes where
  "PASSWORD = bytes_of_str ''pencil''"

definition SALT_B64 :: string where
  "SALT_B64 = ''W22ZaJ0SNY7soEsUEjb6gQ==''"

definition SERVER_FIRST :: string where
  "SERVER_FIRST = rfc_first"

definition CLIENT_FINAL :: string where
  "CLIENT_FINAL = final_prefix @ '',p='' @ final_proof"

definition SERVER_FINAL :: string where
  "SERVER_FINAL = ''v=6rriTRBi23WpRR/wtup+mMhUZUn/dB5nLTJRsjl95G4=''"

definition verifier_for :: "pbkdf2 \<Rightarrow> bytes \<Rightarrow> bytes \<Rightarrow> u32 \<Rightarrow> string + scram_verifier" where
  "verifier_for derive password salt iterations =
     (let salted = derive iterations salt password;
          client_key = sp_hmac rfc_prims salted (bytes_of_str ''Client Key'')
      in verifier_new iterations salt (sp_sha256 rfc_prims client_key)
           (sp_hmac rfc_prims salted (bytes_of_str ''Server Key'')))"

text \<open>An exchange with the verifier of a password, where the source unwraps the results.\<close>

definition exchange_for :: "pbkdf2 \<Rightarrow> bytes \<Rightarrow> bool \<Rightarrow> exchange option" where
  "exchange_for derive password mock =
     (case sp_b64_decode rfc_prims SALT_B64 of
        None \<Rightarrow> None
      | Some salt \<Rightarrow>
     (case verifier_for derive password salt 4096 of
        Inl e \<Rightarrow> None
      | Inr verifier \<Rightarrow> (case rfc_exchange verifier mock of Inl e \<Rightarrow> None | Inr ex \<Rightarrow> Some ex)))"

definition test_rfc7677_vector_verifies :: "pbkdf2 \<Rightarrow> bool" where
  "test_rfc7677_vector_verifies derive =
     (case exchange_for derive PASSWORD False of
        None \<Rightarrow> False
      | Some exchange \<Rightarrow>
          ex_server_first exchange = SERVER_FIRST \<and> ex_channel_binding exchange = ''biws'' \<and>
          verify rfc_prims exchange (bytes_of_str CLIENT_FINAL) = Inr SERVER_FINAL)"

definition test_wrong_password_is_rejected :: "pbkdf2 \<Rightarrow> bool" where
  "test_wrong_password_is_rejected derive =
     (case exchange_for derive (bytes_of_str ''pencil!'') False of
        None \<Rightarrow> False
      | Some exchange \<Rightarrow> is_invalid_password (verify rfc_prims exchange (bytes_of_str CLIENT_FINAL)))"

definition test_every_proof_bit_matters :: "pbkdf2 \<Rightarrow> bool" where
  "test_every_proof_bit_matters derive =
     (case (exchange_for derive PASSWORD False, rsplit_once '',p='' CLIENT_FINAL) of
        (Some exchange, Some (prefix, proof)) \<Rightarrow>
          (case sp_b64_decode rfc_prims proof of
             None \<Rightarrow> False
           | Some proof \<Rightarrow>
               list_all (\<lambda>index.
                 let tampered = proof[index := xor (proof ! index) 1];
                     message = prefix @ '',p='' @ sp_b64_encode rfc_prims tampered
                 in is_invalid_password (verify rfc_prims exchange (bytes_of_str message))) [0, 15, 31])
      | _ \<Rightarrow> False)"

definition test_mock_exchange_is_rejected :: "pbkdf2 \<Rightarrow> bool" where
  "test_mock_exchange_is_rejected derive =
     (case exchange_for derive PASSWORD True of
        None \<Rightarrow> False
      | Some exchange \<Rightarrow> is_invalid_password (verify rfc_prims exchange (bytes_of_str CLIENT_FINAL)))"

definition test_client_final_extensions_are_signed :: "pbkdf2 \<Rightarrow> bool" where
  "test_client_final_extensions_are_signed derive =
     (case (exchange_for derive PASSWORD False, rsplit_once '',p='' CLIENT_FINAL) of
        (Some exchange, Some (prefix, proof)) \<Rightarrow>
          (let message = prefix @ '',x=ext,p='' @ proof
           in is_invalid_password (verify rfc_prims exchange (bytes_of_str message)))
      | _ \<Rightarrow> False)"

text \<open>The files of \<open>tests/fixtures\<close>.\<close>

record fixtures =
  fx_server :: bytes
  fx_ecdsa_sha384 :: bytes
  fx_rsa_sha512 :: bytes
  fx_ed25519 :: bytes

definition test_certificate_signature :: "digests \<Rightarrow> (bytes \<Rightarrow> string + certificate list) \<Rightarrow> fixtures \<Rightarrow> bool" where
  "test_certificate_signature D from_pem fx =
     (let signature_length = (\<lambda>pem n. case compute_cert_signature D from_pem pem of
            Inl e \<Rightarrow> False | Inr signature \<Rightarrow> length signature = n)
      in signature_length (fx_server fx) (32 :: nat) \<and> signature_length (fx_ecdsa_sha384 fx) 48 \<and>
         signature_length (fx_rsa_sha512 fx) 64 \<and>
         compute_cert_signature D from_pem (fx_ed25519 fx) = Inl UnsupportedCertificateSignatureAlgorithm \<and>
         \<not> is_ok (compute_cert_signature D from_pem (bytes_of_str ''not a certificate'')) \<and>
         \<not> is_ok (compute_cert_signature D from_pem
             (bytes_of_str (''-----BEGIN CERTIFICATE-----'' @ [CHR 0x0A] @ ''!!'' @ [CHR 0x0A] @
               ''-----END CERTIFICATE-----'' @ [CHR 0x0A]))))"

section \<open>Hexadecimal byte strings\<close>

lemma xor_hex: "map2 xor_bits (hex_bytes a) (hex_bytes b) = hex_bytes c \<Longrightarrow> xor_bytes (hex a) (hex b) = hex c"
proof -
  have "xor_bytes (map byte_of xs) (map byte_of ys) = map byte_of (map2 xor_bits xs ys)"
    if "bytes_ok xs" "bytes_ok ys" for xs ys
    using that by (induction xs ys rule: list_induct2') (simp_all add: xor_bytes_def xor_bits_ok)
  from this [of "hex_bytes a" "hex_bytes b"]
  show "map2 xor_bits (hex_bytes a) (hex_bytes b) = hex_bytes c \<Longrightarrow> xor_bytes (hex a) (hex b) = hex c"
    by (simp add: hex_def)
qed

definition flips :: "nat \<Rightarrow> string \<Rightarrow> string \<Rightarrow> bool" where
  "flips i a b \<longleftrightarrow> i < length (hex_bytes a) \<and>
     (hex_bytes a)[i := xor_bits (hex_bytes a ! i) (True # replicate 7 False)] = hex_bytes b"

lemma flip_hex: "flips i a b \<Longrightarrow> (hex a)[i := xor (hex a ! i) 1] = hex b"
proof -
  assume f: "flips i a b"
  then have i: "i < length (hex_bytes a)" by (simp add: flips_def)
  with hex_bytes_ok [of a] have "length (hex_bytes a ! i) = 8" by (simp add: bytes_ok_def list_all_length)
  then have "byte_of (xor_bits (hex_bytes a ! i) (True # replicate 7 False)) =
      xor (byte_of (hex_bytes a ! i)) (byte_of (True # replicate 7 False))" by (simp add: xor_bits_ok(1))
  moreover have "byte_of (True # replicate 7 False) = 1" by (simp add: byte_of_def numeral_eq_Suc)
  ultimately have "hex b = (hex a)[i := xor (hex a ! i) 1]"
    using f i by (simp only: hex_def flips_def map_update [symmetric] nth_map) (metis map_update)
  then show ?thesis by simp
qed

lemma hex_ne:
  assumes "take 1 (hex_bytes a) \<noteq> take 1 (hex_bytes b)"
  shows "hex a \<noteq> hex b"
  using assms by (auto simp: hex_eq)

section \<open>The exchange with a verifier\<close>

lemma rfc_hashes [simp]: "sp_hmac rfc_prims = hmac_sha256" "sp_sha256 rfc_prims = sha256"
  by (simp_all add: rfc_prims_def)

abbreviation rfc_salt :: bytes where
  "rfc_salt \<equiv> hex ''5b6d99689d12358eeca04b141236fa81''"

lemma salt_decoded: "b64_decode SALT_B64 = Some rfc_salt"
  unfolding SALT_B64_def by (rule b64_decode_hex) code_simp

lemma salt_encoded: "b64_encode rfc_salt = SALT_B64"
  unfolding SALT_B64_def b64_encode_hex by code_simp

lemma proof_decoded: "b64_decode final_proof = Some (hex rfc_client_proof)"
  unfolding final_proof_def by (rule b64_decode_hex) code_simp

definition rfc_auth :: "string \<Rightarrow> bytes" where
  "rfc_auth ext = bytes_of_str (rfc_auth_message @ ext)"

definition rfc_state :: "scram_verifier \<Rightarrow> bool \<Rightarrow> exchange" where
  "rfc_state v mock =
     \<lparr>ex_user = ''user'', ex_verifier = v, ex_mock = mock, ex_nonce = ''rOprNGfwEbeRWgbNEkqO%hvYDpWUa2RaTCAfuxFIlj)hNlF$k0'',
      ex_channel_binding = ''biws'', ex_server_first = rfc_first, ex_auth_prefix = ''n=user,r=rOprNGfwEbeRWgbNEkqO,'' @ rfc_first\<rparr>"

lemma rfc_exchange_state:
  assumes "sv_salt v = rfc_salt" and "sv_iterations v = 4096"
  shows "rfc_exchange v mock = Inr (rfc_state v mock)"
proof -
  have "b64_encode (bytes_of_str ''n,,'') = ''biws''" by (simp add: b64_eval bytes_of_str_def)
  moreover have "client_first_parse CLIENT_FIRST = Inr
      \<lparr>cf_cbind_flag = ''n'', cf_gs2_header = ''n,,'', cf_bare = ''n=user,r=rOprNGfwEbeRWgbNEkqO'',
       cf_nonce = ''rOprNGfwEbeRWgbNEkqO''\<rparr>"
    by (simp add: CLIENT_FIRST_def client_first_parse_def Let_def)
  moreover have "show_u32 4096 = ''4096''" by (simp add: show_u32_def show_nat.simps digit_char_def char_of_def bit_numeral_rec bit_0)
  ultimately show ?thesis
    by (simp add: rfc_exchange_def exchange_new_def rfc_state_def Let_def SERVER_NONCE_def assms salt_encoded SALT_B64_def)
qed

lemma rfc_auth_message: "auth_message (rfc_state v mock) ext = rfc_auth ext"
  by (simp add: auth_message_def rfc_auth_def rfc_state_def final_without_proof_def)

lemma rfc_verify:
  assumes "ext = [] \<or> hd ext = CHR '',''" and "is_ascii ext" and "b64_decode p = Some pf" and "length pf = 32" and "is_ascii p"
  shows "verify rfc_prims (rfc_state v mock) (bytes_of_str (final_prefix @ ext @ '',p='' @ p)) =
    (if sha256 (xor_bytes pf (hmac_sha256 (sv_stored_key v) (rfc_auth ext))) = sv_stored_key v \<and> \<not> mock
     then Inr (''v='' @ b64_encode (hmac_sha256 (sv_server_key v) (rfc_auth ext))) else Inl (InvalidPassword ''user''))"
proof -
  have p: "final_prefix @ ext @ '',p='' @ p = client_final_text (ex_channel_binding (rfc_state v mock)) (ex_nonce (rfc_state v mock)) ext p"
    by (simp add: final_prefix_def client_final_text_def final_without_proof_def rfc_state_def)
  have "is_ascii (final_prefix @ ext @ '',p='' @ p)"
    using assms(2,5) by (simp add: final_prefix_def)
  then have "final_matches rfc_prims (rfc_state v mock) (bytes_of_str (final_prefix @ ext @ '',p='' @ p)) ext pf"
    unfolding final_matches_def p using assms utf8_valid_is_ascii
    by (intro exI [of _ p]) (simp add: exchange_wf_def rfc_state_def)
  from rfc.verify_matching [OF this] show ?thesis
    by (simp add: proof_checks_def server_final_def rfc_auth_message) (simp add: rfc_state_def)
qed

text \<open>The verifiers of the two passwords, and what an exchange with one of them answers.\<close>

definition rfc_verifier :: scram_verifier where
  "rfc_verifier =
     \<lparr>sv_iterations = 4096, sv_salt = rfc_salt, sv_stored_key = hex rfc_stored_key, sv_server_key = hex rfc_server_key\<rparr>"

definition wrong_verifier :: scram_verifier where
  "wrong_verifier =
     \<lparr>sv_iterations = 4096, sv_salt = rfc_salt, sv_stored_key = hex wrong_stored_key,
      sv_server_key = hmac_sha256 (hex salted_wrong) (bytes_of_str ''Server Key'')\<rparr>"

text \<open>What PBKDF2 with HMAC-SHA-256 gives on the two passwords.\<close>

definition derives_rfc :: "pbkdf2 \<Rightarrow> bool" where
  "derives_rfc derive \<longleftrightarrow>
     derive 4096 rfc_salt PASSWORD = hex salted_pencil \<and>
     derive 4096 rfc_salt (bytes_of_str ''pencil!'') = hex salted_wrong"

lemma hex_lengths [simp]:
  "length (hex rfc_stored_key) = 32" "length (hex rfc_server_key) = 32"
  "length (hex rfc_client_proof) = 32" "length (hex wrong_stored_key) = 32" "rfc_salt \<noteq> []"
  by (simp_all add: hex_length) (simp add: hex_def)

lemma exchange_for_eq:
  assumes "derives_rfc derive"
  shows "exchange_for derive PASSWORD mock = Some (rfc_state rfc_verifier mock)"
    and "exchange_for derive (bytes_of_str ''pencil!'') mock = Some (rfc_state wrong_verifier mock)"
proof -
  have "verifier_for derive PASSWORD rfc_salt 4096 = Inr rfc_verifier"
    "verifier_for derive (bytes_of_str ''pencil!'') rfc_salt 4096 = Inr wrong_verifier"
    using assms
    by (simp_all only: verifier_for_def Let_def derives_rfc_def rfc_hashes rfc_client_key_eq rfc_stored_key_eq
        rfc_server_key_eq wrong_client_key_eq wrong_stored_key_eq)
      (simp_all add: verifier_new_def rfc_verifier_def wrong_verifier_def del: bytes_of_str_append)
  then show "exchange_for derive PASSWORD mock = Some (rfc_state rfc_verifier mock)"
    "exchange_for derive (bytes_of_str ''pencil!'') mock = Some (rfc_state wrong_verifier mock)"
    by (simp_all only: exchange_for_def rfc_base64 salt_decoded option.case sum.case)
      (simp_all add: rfc_exchange_state rfc_verifier_def wrong_verifier_def)
qed

lemma keys:
  "sv_stored_key rfc_verifier = hex rfc_stored_key" "sv_server_key rfc_verifier = hex rfc_server_key"
  "sv_stored_key wrong_verifier = hex wrong_stored_key"
  by (simp_all add: rfc_verifier_def wrong_verifier_def)

lemma rfc_auth_eq:
  "hmac_sha256 (hex rfc_stored_key) (rfc_auth []) = hex ''d27312467c28a40a8a7f05c73c0de33eb3cbfb4a83783b58144cf19ac6be1bdf''"
  "hmac_sha256 (hex rfc_server_key) (rfc_auth []) = hex ''eabae24d1062db75a9451ff0b6ea7e98c8546549ff741e672d3251b2397de46e''"
  "hmac_sha256 (hex rfc_stored_key) (rfc_auth '',x=ext'') = hex ''a608d782a598c30e73e18de761d335056f7f50570b24017506ec45e3b1f8f0d4''"
  "hmac_sha256 (hex wrong_stored_key) (rfc_auth []) = hex ''cb3fe51b7d804a43be680f8f438e8cf78f101f1f832218a4d6cea9a533dfeafc''"
  unfolding rfc_auth_def append_Nil2
  by (rule rfc_client_signature_eq rfc_server_signature_eq extended_signature_eq wrong_signature_eq)+

lemma unmasked:
  "xor_bytes (hex rfc_client_proof) (hex ''d27312467c28a40a8a7f05c73c0de33eb3cbfb4a83783b58144cf19ac6be1bdf'') = hex rfc_client_key"
  "xor_bytes (hex rfc_client_proof) (hex ''a608d782a598c30e73e18de761d335056f7f50570b24017506ec45e3b1f8f0d4'') = hex ''d2740ce70fcee14050b39e99330488cfb9dfa76fd4147959ac85e72c01df8580''"
  "xor_bytes (hex rfc_client_proof) (hex ''cb3fe51b7d804a43be680f8f438e8cf78f101f1f832218a4d6cea9a533dfeafc'') = hex ''bf433e7ed7d6680d9d3a1cf11159313d59b0e8275c1260887ca70b6a83f89fa8''"
  "xor_bytes (hex ''757cdb65aa56224e2352137e52d7bdcad6a0f738df30782caa69a2cfb0277554'') (hex ''d27312467c28a40a8a7f05c73c0de33eb3cbfb4a83783b58144cf19ac6be1bdf'') = hex ''a70fc923d67e8644a92d16b96eda5ef4656b0c725c484374be25535576996e8b''"
  "xor_bytes (hex ''747cdb65aa56224e2352137e52d7bdcbd6a0f738df30782caa69a2cfb0277554'') (hex ''d27312467c28a40a8a7f05c73c0de33eb3cbfb4a83783b58144cf19ac6be1bdf'') = hex ''a60fc923d67e8644a92d16b96eda5ef5656b0c725c484374be25535576996e8b''"
  "xor_bytes (hex ''747cdb65aa56224e2352137e52d7bdcad6a0f738df30782caa69a2cfb0277555'') (hex ''d27312467c28a40a8a7f05c73c0de33eb3cbfb4a83783b58144cf19ac6be1bdf'') = hex ''a60fc923d67e8644a92d16b96eda5ef4656b0c725c484374be25535576996e8a''"
  by (rule xor_hex, code_simp)+

lemma tampered:
  "(hex rfc_client_proof)[0 := xor (hex rfc_client_proof ! 0) 1] = hex ''757cdb65aa56224e2352137e52d7bdcad6a0f738df30782caa69a2cfb0277554''"
  "(hex rfc_client_proof)[15 := xor (hex rfc_client_proof ! 15) 1] = hex ''747cdb65aa56224e2352137e52d7bdcbd6a0f738df30782caa69a2cfb0277554''"
  "(hex rfc_client_proof)[31 := xor (hex rfc_client_proof ! 31) 1] = hex ''747cdb65aa56224e2352137e52d7bdcad6a0f738df30782caa69a2cfb0277555''"
  by (rule flip_hex, code_simp)+

lemma not_stored:
  "sha256 (hex ''d2740ce70fcee14050b39e99330488cfb9dfa76fd4147959ac85e72c01df8580'') \<noteq> hex rfc_stored_key" "sha256 (hex ''bf433e7ed7d6680d9d3a1cf11159313d59b0e8275c1260887ca70b6a83f89fa8'') \<noteq> hex wrong_stored_key"
  "sha256 (hex ''a70fc923d67e8644a92d16b96eda5ef4656b0c725c484374be25535576996e8b'') \<noteq> hex rfc_stored_key" "sha256 (hex ''a60fc923d67e8644a92d16b96eda5ef5656b0c725c484374be25535576996e8b'') \<noteq> hex rfc_stored_key" "sha256 (hex ''a60fc923d67e8644a92d16b96eda5ef4656b0c725c484374be25535576996e8a'') \<noteq> hex rfc_stored_key"
  unfolding extended_key_eq wrong_key_eq tampered_0_eq tampered_15_eq tampered_31_eq by (rule hex_ne, code_simp)+

lemma rfc_verify_final:
  assumes "b64_decode p = Some pf" and "length pf = 32" and "is_ascii p"
  shows "verify rfc_prims (rfc_state v mock) (bytes_of_str (final_prefix @ '',p='' @ p)) =
    (if sha256 (xor_bytes pf (hmac_sha256 (sv_stored_key v) (rfc_auth []))) = sv_stored_key v \<and> \<not> mock
     then Inr (''v='' @ b64_encode (hmac_sha256 (sv_server_key v) (rfc_auth []))) else Inl (InvalidPassword ''user''))"
  using rfc_verify [of "[]", OF _ _ assms] by simp

lemma final_split: "rsplit_once '',p='' CLIENT_FINAL = Some (final_prefix, final_proof)"
proof -
  have "CHR '','' \<notin> set final_proof" by (simp add: final_proof_def)
  then show ?thesis unfolding CLIENT_FINAL_def by (intro rsplit_once_last) simp_all
qed

lemma final_proof_ascii: "is_ascii final_proof"
  by (simp add: final_proof_def)

lemmas verify_client_final = rfc_verify_final [OF proof_decoded hex_lengths(3) final_proof_ascii, folded CLIENT_FINAL_def]

lemma vector_test: "derives_rfc derive \<Longrightarrow> test_rfc7677_vector_verifies derive"
proof -
  have "b64_encode (hex ''eabae24d1062db75a9451ff0b6ea7e98c8546549ff741e672d3251b2397de46e'') = drop 2 SERVER_FINAL" unfolding b64_encode_hex SERVER_FINAL_def by code_simp
  then have "''v='' @ b64_encode (hex ''eabae24d1062db75a9451ff0b6ea7e98c8546549ff741e672d3251b2397de46e'') = SERVER_FINAL" by (simp add: SERVER_FINAL_def)
  then have "verify rfc_prims (rfc_state rfc_verifier False) (bytes_of_str CLIENT_FINAL) = Inr SERVER_FINAL"
    by (simp only: verify_client_final keys rfc_auth_eq unmasked rfc_stored_key_eq simp_thms if_True)
  then show "derives_rfc derive \<Longrightarrow> test_rfc7677_vector_verifies derive"
    by (simp add: test_rfc7677_vector_verifies_def exchange_for_eq) (simp add: rfc_state_def SERVER_FIRST_def)
qed

lemma wrong_password_test: "derives_rfc derive \<Longrightarrow> test_wrong_password_is_rejected derive"
proof -
  have "verify rfc_prims (rfc_state wrong_verifier False) (bytes_of_str CLIENT_FINAL) = Inl (InvalidPassword ''user'')"
    by (simp only: verify_client_final keys rfc_auth_eq unmasked not_stored simp_thms if_False)
  then show "derives_rfc derive \<Longrightarrow> test_wrong_password_is_rejected derive"
    by (simp only: test_wrong_password_is_rejected_def exchange_for_eq option.case) (simp add: is_invalid_password_def)
qed

lemma mock_exchange_test: "derives_rfc derive \<Longrightarrow> test_mock_exchange_is_rejected derive"
  by (simp add: test_mock_exchange_is_rejected_def exchange_for_eq verify_client_final is_invalid_password_def)

lemma extension_test: "derives_rfc derive \<Longrightarrow> test_client_final_extensions_are_signed derive"
proof -
  have "verify rfc_prims (rfc_state rfc_verifier False) (bytes_of_str (final_prefix @ '',x=ext'' @ '',p='' @ final_proof)) =
      Inl (InvalidPassword ''user'')"
    using rfc_verify [OF _ _ proof_decoded hex_lengths(3) final_proof_ascii, of "'',x=ext''" rfc_verifier False]
    by (simp only: keys rfc_auth_eq unmasked not_stored simp_thms if_False) (simp add: not_stored)
  then show "derives_rfc derive \<Longrightarrow> test_client_final_extensions_are_signed derive"
    by (simp add: test_client_final_extensions_are_signed_def exchange_for_eq final_split is_invalid_password_def)
qed

lemma tampered_rejected:
  assumes "length (hex t) = 32" and "xor_bytes (hex t) (hex ''d27312467c28a40a8a7f05c73c0de33eb3cbfb4a83783b58144cf19ac6be1bdf'') = hex k" and "sha256 (hex k) \<noteq> hex rfc_stored_key"
  shows "verify rfc_prims (rfc_state rfc_verifier False) (bytes_of_str (final_prefix @ '',p='' @ b64_encode (hex t))) =
    Inl (InvalidPassword ''user'')"
  using rfc_verify_final [OF b64_decode_encode assms(1), of rfc_verifier False] rfc.b64_ascii [of "hex t"] assms(2,3)
  by (simp add: keys rfc_auth_eq(1))

lemma proof_bits_test: "derives_rfc derive \<Longrightarrow> test_every_proof_bit_matters derive"
proof -
  have "length (hex ''757cdb65aa56224e2352137e52d7bdcad6a0f738df30782caa69a2cfb0277554'') = 32" "length (hex ''747cdb65aa56224e2352137e52d7bdcbd6a0f738df30782caa69a2cfb0277554'') = 32" "length (hex ''747cdb65aa56224e2352137e52d7bdcad6a0f738df30782caa69a2cfb0277555'') = 32"
    by (simp_all add: hex_length)
  note rejected = this [THEN tampered_rejected]
  have "is_invalid_password (verify rfc_prims (rfc_state rfc_verifier False)
      (bytes_of_str (final_prefix @ '',p='' @ b64_encode ((hex rfc_client_proof)[i := xor (hex rfc_client_proof ! i) 1]))))"
    if "i \<in> {0, 15, 31}" for i
    using that by (elim insertE emptyE; hypsubst)
      (simp_all only: tampered rejected(1) [OF unmasked(4) not_stored(3)] rejected(2) [OF unmasked(5) not_stored(4)]
        rejected(3) [OF unmasked(6) not_stored(5)] is_invalid_password_def sum.case pgwire_error.case)
  then show "derives_rfc derive \<Longrightarrow> test_every_proof_bit_matters derive"
    by (simp only: test_every_proof_bit_matters_def exchange_for_eq final_split rfc_base64 proof_decoded option.case
        prod.case list.pred_inject Let_def simp_thms insert_iff)
qed

section \<open>The fixtures\<close>

definition first_algorithm :: "string + certificate list \<Rightarrow> signature_algorithm option option" where
  "first_algorithm r = (case r of Inr (c # _) \<Rightarrow> Some (cert_algorithm c) | _ \<Rightarrow> None)"

definition fixtures_read :: "(bytes \<Rightarrow> string + certificate list) \<Rightarrow> fixtures \<Rightarrow> bool" where
  "fixtures_read from_pem fx \<longleftrightarrow>
     first_algorithm (from_pem (fx_server fx)) = Some (Some RsaSha256) \<and>
     first_algorithm (from_pem (fx_ecdsa_sha384 fx)) = Some (Some EcdsaSha384) \<and>
     first_algorithm (from_pem (fx_rsa_sha512 fx)) = Some (Some RsaSha512) \<and>
     (case first_algorithm (from_pem (fx_ed25519 fx)) of
        Some None \<Rightarrow> True | Some (Some (OtherAlgorithm _)) \<Rightarrow> True | _ \<Rightarrow> False) \<and>
     first_algorithm (from_pem (bytes_of_str ''not a certificate'')) = None \<and>
     first_algorithm (from_pem (bytes_of_str (''-----BEGIN CERTIFICATE-----'' @ [CHR 0x0A] @ ''!!'' @ [CHR 0x0A] @
       ''-----END CERTIFICATE-----'' @ [CHR 0x0A]))) = None"

definition digests_ok :: "digests \<Rightarrow> bool" where
  "digests_ok D \<longleftrightarrow> (\<forall>b. length (dg_sha256 D b) = 32 \<and> length (dg_sha384 D b) = 48 \<and> length (dg_sha512 D b) = 64)"

lemma signature_of_first:
  "first_algorithm (from_pem pem) = None \<Longrightarrow> \<not> is_ok (compute_cert_signature D from_pem pem)"
  "first_algorithm (from_pem pem) = Some a \<Longrightarrow> \<exists>c.
     compute_cert_signature D from_pem pem =
       (case a of
          Some RsaSha1 \<Rightarrow> Inr (dg_sha256 D c) | Some RsaSha256 \<Rightarrow> Inr (dg_sha256 D c)
        | Some EcdsaSha256 \<Rightarrow> Inr (dg_sha256 D c)
        | Some RsaSha384 \<Rightarrow> Inr (dg_sha384 D c) | Some EcdsaSha384 \<Rightarrow> Inr (dg_sha384 D c)
        | Some RsaSha512 \<Rightarrow> Inr (dg_sha512 D c) | _ \<Rightarrow> Inl UnsupportedCertificateSignatureAlgorithm)"
  by (auto simp: first_algorithm_def compute_cert_signature_def is_ok_def split: sum.splits list.splits)

lemma certificate_test:
  assumes "fixtures_read from_pem fx" and "digests_ok D"
  shows "test_certificate_signature D from_pem fx"
proof -
  have "\<exists>c. compute_cert_signature D from_pem (fx_server fx) = Inr (dg_sha256 D c)"
    "\<exists>c. compute_cert_signature D from_pem (fx_ecdsa_sha384 fx) = Inr (dg_sha384 D c)"
    "\<exists>c. compute_cert_signature D from_pem (fx_rsa_sha512 fx) = Inr (dg_sha512 D c)"
    "compute_cert_signature D from_pem (fx_ed25519 fx) = Inl UnsupportedCertificateSignatureAlgorithm"
    using assms(1)
    by (auto simp: fixtures_read_def dest!: signature_of_first(2) [where D = D]
        split: option.splits signature_algorithm.splits)
  with assms show ?thesis
    by (auto simp: test_certificate_signature_def fixtures_read_def digests_ok_def signature_of_first(1)
        simp del: bytes_of_str_append)
qed

section \<open>Property\<close>


definition sample_derive :: pbkdf2 where
  "sample_derive n salt password = (if password = PASSWORD then hex salted_pencil else hex salted_wrong)"

definition sample_fixtures :: fixtures where
  "sample_fixtures = \<lparr>fx_server = [1], fx_ecdsa_sha384 = [2], fx_rsa_sha512 = [3], fx_ed25519 = [4]\<rparr>"

definition sample_pem :: "bytes \<Rightarrow> string + certificate list" where
  "sample_pem b =
     (let c = \<lambda>a. Inr [\<lparr>cert_algorithm = a, cert_data = b\<rparr>]
      in if b = [1] then c (Some RsaSha256) else if b = [2] then c (Some EcdsaSha384)
         else if b = [3] then c (Some RsaSha512) else if b = [4] then c None else Inl ''no certificate'')"

definition vector_digests :: digests where
  "vector_digests =
     \<lparr>dg_sha256 = sha256, dg_sha384 = \<lambda>b. replicate 48 0, dg_sha512 = \<lambda>b. replicate 64 0\<rparr>"


end
